theory Spec2Isabelle
  imports Main "HOL-Library.Word"
begin

unbundle bit_operations_syntax

section \<open>Header macros\<close>

text \<open>
  The macros of the headers that are not part of the analysed sources, by name.  A platform
  gives each of them its value (\<open>hdr\<close>, below); the number under \<open>Macro\<close> only tells
  one name from another.
\<close>

datatype macro = Macro nat

definition RCC_OCENR_CSIKERON :: macro where "RCC_OCENR_CSIKERON = Macro 0"
definition RCC_OCENR_HSEKERON :: macro where "RCC_OCENR_HSEKERON = Macro 1"
definition CLK_MPU_HSI :: macro where "CLK_MPU_HSI = Macro 2"
definition CLK_PLL12_HSI :: macro where "CLK_PLL12_HSI = Macro 3"
definition CLK_PLL12_HSE :: macro where "CLK_PLL12_HSE = Macro 4"
definition RCC_PLLNCR_PLLRDY :: macro where "RCC_PLLNCR_PLLRDY = Macro 5"
definition RCC_PLLNCR_DIVPEN :: macro where "RCC_PLLNCR_DIVPEN = Macro 6"
definition RCC_PLLNCR_DIVQEN :: macro where "RCC_PLLNCR_DIVQEN = Macro 7"
definition RCC_PLLNCR_DIVREN :: macro where "RCC_PLLNCR_DIVREN = Macro 8"
definition RCC_PLLNCR_DIVEN_SHIFT :: macro where "RCC_PLLNCR_DIVEN_SHIFT = Macro 9"
definition RCC_DIVR_DIV_MASK :: macro where "RCC_DIVR_DIV_MASK = Macro 10"
definition RCC_DIVR_DIVRDY :: macro where "RCC_DIVR_DIVRDY = Macro 11"
definition RCC_OCENR_HSIKERON :: macro where "RCC_OCENR_HSIKERON = Macro 12"
definition RCC_PLLNCFGR2_DIVQ_MASK :: macro where "RCC_PLLNCFGR2_DIVQ_MASK = Macro 13"
definition RCC_PLLNCFGR2_DIVR_SHIFT :: macro where "RCC_PLLNCFGR2_DIVR_SHIFT = Macro 14"
definition RCC_PLLNCFGR2_DIVR_MASK :: macro where "RCC_PLLNCFGR2_DIVR_MASK = Macro 15"
definition RCC_PLLNCFGR2_DIVX_MASK :: macro where "RCC_PLLNCFGR2_DIVX_MASK = Macro 16"
definition RCC_PLLNFRACR_FRACV_SHIFT :: macro where "RCC_PLLNFRACR_FRACV_SHIFT = Macro 17"
definition RCC_PLLNFRACR_FRACV_MASK :: macro where "RCC_PLLNFRACR_FRACV_MASK = Macro 18"
definition RCC_PLLNFRACR_FRACLE :: macro where "RCC_PLLNFRACR_FRACLE = Macro 19"
definition RCC_PLLNCR_PLLON :: macro where "RCC_PLLNCR_PLLON = Macro 20"
definition RCC_PLLNCFGR1_DIVM_MASK :: macro where "RCC_PLLNCFGR1_DIVM_MASK = Macro 21"
definition RCC_PLLNCFGR1_DIVN_SHIFT :: macro where "RCC_PLLNCFGR1_DIVN_SHIFT = Macro 22"
definition RCC_PLLNCFGR1_DIVN_MASK :: macro where "RCC_PLLNCFGR1_DIVN_MASK = Macro 23"
definition RCC_PLLNCFGR1_IFRGE_SHIFT :: macro where "RCC_PLLNCFGR1_IFRGE_SHIFT = Macro 24"
definition RCC_PLLNCFGR1_IFRGE_MASK :: macro where "RCC_PLLNCFGR1_IFRGE_MASK = Macro 25"
definition RCC_PLLNCFGR2_DIVP_SHIFT :: macro where "RCC_PLLNCFGR2_DIVP_SHIFT = Macro 26"
definition RCC_PLLNCFGR2_DIVP_MASK :: macro where "RCC_PLLNCFGR2_DIVP_MASK = Macro 27"
definition RCC_PLLNCFGR2_DIVQ_SHIFT :: macro where "RCC_PLLNCFGR2_DIVQ_SHIFT = Macro 28"
definition RCC_CPERCKSELR_CSI :: macro where "RCC_CPERCKSELR_CSI = Macro 29"
definition RCC_CPERCKSELR_HSE :: macro where "RCC_CPERCKSELR_HSE = Macro 30"
definition RCC_MPUDIV_MASK :: macro where "RCC_MPUDIV_MASK = Macro 31"
definition RCC_AXIDIV_MASK :: macro where "RCC_AXIDIV_MASK = Macro 32"
definition RCC_APBXDIV_MASK :: macro where "RCC_APBXDIV_MASK = Macro 33"
definition RCC_MCUDIV_MASK :: macro where "RCC_MCUDIV_MASK = Macro 34"
definition RCC_TIMGXPRER_TIMGXPRE :: macro where "RCC_TIMGXPRER_TIMGXPRE = Macro 35"
definition RCC_PLLNCFGR1_DIVM_SHIFT :: macro where "RCC_PLLNCFGR1_DIVM_SHIFT = Macro 36"
definition RCC_ASSCKSELR_HSI :: macro where "RCC_ASSCKSELR_HSI = Macro 37"
definition RCC_ASSCKSELR_HSE :: macro where "RCC_ASSCKSELR_HSE = Macro 38"
definition RCC_ASSCKSELR_PLL :: macro where "RCC_ASSCKSELR_PLL = Macro 39"
definition RCC_MSSCKSELR_HSI :: macro where "RCC_MSSCKSELR_HSI = Macro 40"
definition RCC_MSSCKSELR_HSE :: macro where "RCC_MSSCKSELR_HSE = Macro 41"
definition RCC_MSSCKSELR_CSI :: macro where "RCC_MSSCKSELR_CSI = Macro 42"
definition RCC_MSSCKSELR_PLL :: macro where "RCC_MSSCKSELR_PLL = Macro 43"
definition RCC_CPERCKSELR_HSI :: macro where "RCC_CPERCKSELR_HSI = Macro 44"
definition RCC_PLL4CSGR :: macro where "RCC_PLL4CSGR = Macro 45"
definition RCC_SELR_SRC_MASK :: macro where "RCC_SELR_SRC_MASK = Macro 46"
definition RCC_SELR_REFCLK_SRC_MASK :: macro where "RCC_SELR_REFCLK_SRC_MASK = Macro 47"
definition RCC_SELR_SRCRDY :: macro where "RCC_SELR_SRCRDY = Macro 48"
definition RCC_MPCKSELR_HSI :: macro where "RCC_MPCKSELR_HSI = Macro 49"
definition RCC_MPCKSELR_HSE :: macro where "RCC_MPCKSELR_HSE = Macro 50"
definition RCC_MPCKSELR_PLL :: macro where "RCC_MPCKSELR_PLL = Macro 51"
definition RCC_MPCKSELR_PLL_MPUDIV :: macro where "RCC_MPCKSELR_PLL_MPUDIV = Macro 52"
definition RCC_PLL3CFGR1 :: macro where "RCC_PLL3CFGR1 = Macro 53"
definition RCC_PLL3CFGR2 :: macro where "RCC_PLL3CFGR2 = Macro 54"
definition RCC_PLL3FRACR :: macro where "RCC_PLL3FRACR = Macro 55"
definition RCC_PLL3CSGR :: macro where "RCC_PLL3CSGR = Macro 56"
definition RCC_PLL4CR :: macro where "RCC_PLL4CR = Macro 57"
definition RCC_PLL4CFGR1 :: macro where "RCC_PLL4CFGR1 = Macro 58"
definition RCC_PLL4CFGR2 :: macro where "RCC_PLL4CFGR2 = Macro 59"
definition RCC_PLL4FRACR :: macro where "RCC_PLL4FRACR = Macro 60"
definition RCC_RCK4SELR :: macro where "RCC_RCK4SELR = Macro 61"
definition RCC_TIMG1PRER :: macro where "RCC_TIMG1PRER = Macro 62"
definition RCC_TIMG2PRER :: macro where "RCC_TIMG2PRER = Macro 63"
definition RCC_MCUDIVR :: macro where "RCC_MCUDIVR = Macro 64"
definition RCC_APB1DIVR :: macro where "RCC_APB1DIVR = Macro 65"
definition RCC_APB2DIVR :: macro where "RCC_APB2DIVR = Macro 66"
definition RCC_APB3DIVR :: macro where "RCC_APB3DIVR = Macro 67"
definition RCC_PLL3CR :: macro where "RCC_PLL3CR = Macro 68"
definition RCC_PLL2CFGR1 :: macro where "RCC_PLL2CFGR1 = Macro 69"
definition RCC_PLL2CFGR2 :: macro where "RCC_PLL2CFGR2 = Macro 70"
definition RCC_PLL2FRACR :: macro where "RCC_PLL2FRACR = Macro 71"
definition RCC_PLL2CSGR :: macro where "RCC_PLL2CSGR = Macro 72"
definition RCC_CPERCKSELR :: macro where "RCC_CPERCKSELR = Macro 73"
definition RCC_MCO1CFGR :: macro where "RCC_MCO1CFGR = Macro 74"
definition RCC_MCO2CFGR :: macro where "RCC_MCO2CFGR = Macro 75"
definition RCC_RCK3SELR :: macro where "RCC_RCK3SELR = Macro 76"
definition RCC_APB5DIVR :: macro where "RCC_APB5DIVR = Macro 77"
definition RCC_MSSCKSELR :: macro where "RCC_MSSCKSELR = Macro 78"
definition RCC_PLL1CR :: macro where "RCC_PLL1CR = Macro 79"
definition RCC_PLL1CFGR1 :: macro where "RCC_PLL1CFGR1 = Macro 80"
definition RCC_PLL1CFGR2 :: macro where "RCC_PLL1CFGR2 = Macro 81"
definition RCC_PLL1FRACR :: macro where "RCC_PLL1FRACR = Macro 82"
definition RCC_PLL1CSGR :: macro where "RCC_PLL1CSGR = Macro 83"
definition RCC_PLL2CR :: macro where "RCC_PLL2CR = Macro 84"
definition RCC_OCENSETR :: macro where "RCC_OCENSETR = Macro 85"
definition RCC_OCENCLRR :: macro where "RCC_OCENCLRR = Macro 86"
definition RCC_MPCKSELR :: macro where "RCC_MPCKSELR = Macro 87"
definition RCC_ASSCKSELR :: macro where "RCC_ASSCKSELR = Macro 88"
definition RCC_RCK12SELR :: macro where "RCC_RCK12SELR = Macro 89"
definition RCC_MPCKDIVR :: macro where "RCC_MPCKDIVR = Macro 90"
definition RCC_AXIDIVR :: macro where "RCC_AXIDIVR = Macro 91"
definition RCC_APB4DIVR :: macro where "RCC_APB4DIVR = Macro 92"
definition CK_MPU :: macro where "CK_MPU = Macro 93"
definition CK_AXI :: macro where "CK_AXI = Macro 94"
definition CK_MCU :: macro where "CK_MCU = Macro 95"
definition TIM2_K :: macro where "TIM2_K = Macro 96"
definition TIM14_K :: macro where "TIM14_K = Macro 97"
definition TIM1_K :: macro where "TIM1_K = Macro 98"
definition TIM17_K :: macro where "TIM17_K = Macro 99"
definition RCC_TZCR :: macro where "RCC_TZCR = Macro 100"
definition RCC_MP_ENCLRR_OFFSET :: macro where "RCC_MP_ENCLRR_OFFSET = Macro 101"
definition PLAT_MAX_OPP_NB :: macro where "PLAT_MAX_OPP_NB = Macro 102"
definition PQR_1_0_0 :: macro where "PQR_1_0_0 = Macro 103"
definition PLL1_P :: macro where "PLL1_P = Macro 104"
definition PLL4_P :: macro where "PLL4_P = Macro 105"
definition PLL4_Q :: macro where "PLL4_Q = Macro 106"
definition PLL4_R :: macro where "PLL4_R = Macro 107"
definition CK_PER :: macro where "CK_PER = Macro 108"
definition RCC_MP_RSTSCLRR :: macro where "RCC_MP_RSTSCLRR = Macro 109"
definition RCC_SDMMC12CKSELR :: macro where "RCC_SDMMC12CKSELR = Macro 110"
definition RCC_SPI2S23CKSELR :: macro where "RCC_SPI2S23CKSELR = Macro 111"
definition RCC_SPI45CKSELR :: macro where "RCC_SPI45CKSELR = Macro 112"
definition RCC_I2C12CKSELR :: macro where "RCC_I2C12CKSELR = Macro 113"
definition RCC_I2C35CKSELR :: macro where "RCC_I2C35CKSELR = Macro 114"
definition RCC_LPTIM23CKSELR :: macro where "RCC_LPTIM23CKSELR = Macro 115"
definition RCC_LPTIM45CKSELR :: macro where "RCC_LPTIM45CKSELR = Macro 116"
definition RCC_UART24CKSELR :: macro where "RCC_UART24CKSELR = Macro 117"
definition RCC_UART35CKSELR :: macro where "RCC_UART35CKSELR = Macro 118"
definition RCC_UART78CKSELR :: macro where "RCC_UART78CKSELR = Macro 119"
definition RCC_SAI1CKSELR :: macro where "RCC_SAI1CKSELR = Macro 120"
definition RCC_ETHCKSELR :: macro where "RCC_ETHCKSELR = Macro 121"
definition RCC_I2C46CKSELR :: macro where "RCC_I2C46CKSELR = Macro 122"
definition RCC_RNG2CKSELR :: macro where "RCC_RNG2CKSELR = Macro 123"
definition RCC_SDMMC3CKSELR :: macro where "RCC_SDMMC3CKSELR = Macro 124"
definition RCC_FMCCKSELR :: macro where "RCC_FMCCKSELR = Macro 125"
definition RCC_QSPICKSELR :: macro where "RCC_QSPICKSELR = Macro 126"
definition RCC_USBCKSELR :: macro where "RCC_USBCKSELR = Macro 127"
definition RCC_SPDIFCKSELR :: macro where "RCC_SPDIFCKSELR = Macro 128"
definition RCC_SPI2S1CKSELR :: macro where "RCC_SPI2S1CKSELR = Macro 129"
definition RCC_CECCKSELR :: macro where "RCC_CECCKSELR = Macro 130"
definition RCC_LPTIM1CKSELR :: macro where "RCC_LPTIM1CKSELR = Macro 131"
definition RCC_UART6CKSELR :: macro where "RCC_UART6CKSELR = Macro 132"
definition RCC_FDCANCKSELR :: macro where "RCC_FDCANCKSELR = Macro 133"
definition RCC_SAI2CKSELR :: macro where "RCC_SAI2CKSELR = Macro 134"
definition RCC_SAI3CKSELR :: macro where "RCC_SAI3CKSELR = Macro 135"
definition RCC_SAI4CKSELR :: macro where "RCC_SAI4CKSELR = Macro 136"
definition RCC_ADCCKSELR :: macro where "RCC_ADCCKSELR = Macro 137"
definition RCC_DSICKSELR :: macro where "RCC_DSICKSELR = Macro 138"
definition RCC_RNG1CKSELR :: macro where "RCC_RNG1CKSELR = Macro 139"
definition RCC_STGENCKSELR :: macro where "RCC_STGENCKSELR = Macro 140"
definition RCC_UART1CKSELR :: macro where "RCC_UART1CKSELR = Macro 141"
definition RCC_SPI6CKSELR :: macro where "RCC_SPI6CKSELR = Macro 142"
definition RCC_MP_APB1ENSETR :: macro where "RCC_MP_APB1ENSETR = Macro 143"
definition RCC_MP_APB2ENSETR :: macro where "RCC_MP_APB2ENSETR = Macro 144"
definition RCC_MP_APB3ENSETR :: macro where "RCC_MP_APB3ENSETR = Macro 145"
definition RCC_MP_APB4ENSETR :: macro where "RCC_MP_APB4ENSETR = Macro 146"
definition RCC_MP_APB5ENSETR :: macro where "RCC_MP_APB5ENSETR = Macro 147"
definition RCC_MP_AHB2ENSETR :: macro where "RCC_MP_AHB2ENSETR = Macro 148"
definition RCC_MP_AHB3ENSETR :: macro where "RCC_MP_AHB3ENSETR = Macro 149"
definition RCC_MP_AHB4ENSETR :: macro where "RCC_MP_AHB4ENSETR = Macro 150"
definition RCC_MP_AHB5ENSETR :: macro where "RCC_MP_AHB5ENSETR = Macro 151"
definition RCC_MP_AHB6ENSETR :: macro where "RCC_MP_AHB6ENSETR = Macro 152"
definition RCC_MP_MLAHBENSETR :: macro where "RCC_MP_MLAHBENSETR = Macro 153"

section \<open>Platform description\<close>

text \<open>
  The driver is the STM32MP1 clock driver of OP-TEE (core/arch/arm/plat-stm32mp1), an
  ARMv7-A platform (its assembly includes arm32_macros.S): \<open>unsigned int\<close>,
  \<open>unsigned long\<close>, \<open>uint32_t\<close> and \<open>int\<close> are 32 bits wide,
  \<open>unsigned long long\<close> is 64 bits wide.

  The headers that give the numeric values of the RCC register offsets, of the register
  field masks and shifts and of the clock identifiers (drivers/stm32mp1_rcc.h,
  dt-bindings/clock/stm32mp1-clks.h, stm32mp1-clksrc.h, platform_config.h) are not part of
  the analysed sources.  Every macro of these headers is therefore a parameter: \<open>hdr p M\<close>
  is the value of the macro \<open>M\<close>.  The static tables whose entries are built from
  such macros and from build options (the gate table, the parent selector table) are
  parameters as well, as is the answer of the external query \<open>stm32_rcc_is_secure()\<close>.

  Register addresses are byte offsets from \<open>stm32_rcc_base()\<close>.
\<close>

type_synonym u32 = "32 word"
type_synonym u64 = "64 word"

text \<open>
  Fatal outcomes: \<open>panic()\<close>, a failed \<open>assert()\<close>, and an integer division by zero
  (undefined in C).
\<close>

datatype fatal = Panic | AssertFailed | DivByZero

datatype TEE_Result = TEE_SUCCESS | TEE_ERROR_SECURITY

text \<open>
  Hardware shape of the register found at an offset.  \<open>RW\<close> is a plain read/write register.
  A set/clear pair shares one storage cell \<open>c\<close>: writing to the SET sub-register
  (\<open>SetOf c\<close>) sets the written bits in the cell, writing to the CLEAR sub-register
  (\<open>ClrOf c\<close>) clears them, reading either one returns the cell.
\<close>

datatype reg_kind = RW | SetOf nat | ClrOf nat

text \<open>\<open>struct stm32mp1_clk_gate\<close>\<close>

record clk_gate =
  gate_offset :: nat
  gate_bit :: nat
  gate_clock_id :: nat
  gate_set_clr :: nat
  gate_secure :: nat
  gate_sel :: nat
  gate_fixed :: nat

text \<open>\<open>struct stm32mp1_clk_sel\<close>\<close>

record clk_sel =
  sel_offset :: nat
  sel_src :: nat
  sel_msk :: u32
  sel_nb_parent :: nat
  sel_parent :: "nat list"

record plat =
  hdr :: "macro \<Rightarrow> nat"
  stm32mp1_clk_gate :: "clk_gate list"
  stm32mp1_clk_sel :: "clk_sel list"
  stm32_rcc_is_secure :: bool
  reg_kind :: "nat \<Rightarrow> reg_kind"

text \<open>A header macro read as a 32-bit register value (a mask or a field value).\<close>

definition hdrw :: "plat \<Rightarrow> macro \<Rightarrow> u32" where
  "hdrw p name = of_nat (hdr p name)"

definition N_S :: nat where "N_S = 0"
definition SEC :: nat where "SEC = 1"

definition PLL1_SETTINGS_VALID_ID :: u32 where
  "PLL1_SETTINGS_VALID_ID = 0x504C4C31"

definition BIT :: "nat \<Rightarrow> u32" where
  "BIT n = push_bit n 1"

section \<open>Driver state\<close>

text \<open>\<open>struct stm32mp1_pll_settings\<close>: arrays of \<open>PLAT_MAX_OPP_NB\<close> cells.\<close>

record pll_settings =
  valid_id :: u32
  freq :: "u32 list"
  volt :: "u32 list"
  cfg :: "u32 list list"
  frac :: "u32 list"

text \<open>
  The mutable state: the RCC register file (\<open>rcc\<close>, by storage cell), the trace of register
  writes (\<open>wlog\<close>, latest first, as address and written value), the driver's static
  variables, and \<open>hw_ready\<close>, which stands for the hardware and the clock seen by the
  bounded polling loops: each wait for a status flag consumes one entry, \<open>True\<close> when
  the flag was read as set before the timeout elapsed, \<open>False\<close> (or no entry left) when
  the timeout elapsed first.
\<close>

record clk_state =
  rcc :: "nat \<Rightarrow> u32"
  wlog :: "(nat \<times> u32) list"
  hw_ready :: "bool list"
  stm32mp1_osc :: "u32 list"
  gate_refcounts :: "u32 list"
  pll1_settings :: pll_settings
  current_opp_khz :: u32
  ctx_pll3cr :: u32
  ctx_pll4cr :: u32
  ctx_mssckselr :: u32
  ctx_mcudivr :: u32
  backup_mux0_value :: "u32 list"
  backup_mux4_value :: "u32 list"
  backup_clock_sc_value :: "u32 list"
  backup_clock_value :: "u32 list"

section \<open>Register access\<close>

text \<open>
  Modelled from the spec: the I/O primitives of io.h are not in the analysed sources.  A
  plain register is read and written in place; on a set/clear pair a write to the SET
  sub-register turns the written bits on and a write to the CLEAR sub-register turns them
  off.  \<open>io_setbits32\<close>, \<open>io_clrbits32\<close> and \<open>io_clrsetbits32\<close> are read-modify-write
  sequences.
\<close>

definition io_read32 :: "plat \<Rightarrow> clk_state \<Rightarrow> nat \<Rightarrow> u32" where
  "io_read32 p s a =
     (case reg_kind p a of RW \<Rightarrow> rcc s a | SetOf c \<Rightarrow> rcc s c | ClrOf c \<Rightarrow> rcc s c)"

definition io_write32 :: "plat \<Rightarrow> nat \<Rightarrow> u32 \<Rightarrow> clk_state \<Rightarrow> clk_state" where
  "io_write32 p a v s =
     s\<lparr>rcc := (case reg_kind p a of
                 RW \<Rightarrow> (rcc s)(a := v)
               | SetOf c \<Rightarrow> (rcc s)(c := rcc s c OR v)
               | ClrOf c \<Rightarrow> (rcc s)(c := rcc s c AND NOT v)),
       wlog := (a, v) # wlog s\<rparr>"

definition io_setbits32 :: "plat \<Rightarrow> nat \<Rightarrow> u32 \<Rightarrow> clk_state \<Rightarrow> clk_state" where
  "io_setbits32 p a bits s = io_write32 p a (io_read32 p s a OR bits) s"

definition io_clrbits32 :: "plat \<Rightarrow> nat \<Rightarrow> u32 \<Rightarrow> clk_state \<Rightarrow> clk_state" where
  "io_clrbits32 p a bits s = io_write32 p a (io_read32 p s a AND NOT bits) s"

definition io_clrsetbits32 :: "plat \<Rightarrow> nat \<Rightarrow> u32 \<Rightarrow> u32 \<Rightarrow> clk_state \<Rightarrow> clk_state" where
  "io_clrsetbits32 p a clr_bits set_bits s =
     io_write32 p a ((io_read32 p s a AND NOT clr_bits) OR set_bits) s"

section \<open>Gate controller\<close>

definition gate_ref :: "plat \<Rightarrow> nat \<Rightarrow> clk_gate" where
  "gate_ref p idx = stm32mp1_clk_gate p ! idx"

definition gate_is_non_secure :: "plat \<Rightarrow> clk_gate \<Rightarrow> bool" where
  "gate_is_non_secure p gate = (gate_secure gate = N_S \<or> \<not> stm32_rcc_is_secure p)"

text \<open>
  \<open>stm32mp1_clk_get_gated_id\<close>: the loop \<open>for (i = 0; i < NB_GATES; i++)\<close> over the
  gates that remain from index \<open>i\<close> on, returning the first index whose \<open>clock_id\<close> is
  \<open>id\<close>, and \<open>-1\<close> after the last gate.
\<close>

fun get_gated_id_loop :: "clk_gate list \<Rightarrow> nat \<Rightarrow> nat \<Rightarrow> int" where
  "get_gated_id_loop [] ident i = - 1"
| "get_gated_id_loop (g # gs) ident i =
     (if gate_clock_id g = ident then int i else get_gated_id_loop gs ident (Suc i))"

definition stm32mp1_clk_get_gated_id :: "plat \<Rightarrow> nat \<Rightarrow> int" where
  "stm32mp1_clk_get_gated_id p ident = get_gated_id_loop (stm32mp1_clk_gate p) ident 0"

text \<open>\<open>__clk_enable\<close>, \<open>__clk_disable\<close>, \<open>__clk_is_enabled\<close>\<close>

definition uu_clk_enable :: "plat \<Rightarrow> clk_gate \<Rightarrow> clk_state \<Rightarrow> clk_state" where
  "uu_clk_enable p gate s =
     (if gate_set_clr gate \<noteq> 0
      then io_write32 p (gate_offset gate) (BIT (gate_bit gate)) s
      else io_setbits32 p (gate_offset gate) (BIT (gate_bit gate)) s)"

definition uu_clk_disable :: "plat \<Rightarrow> clk_gate \<Rightarrow> clk_state \<Rightarrow> clk_state" where
  "uu_clk_disable p gate s =
     (if gate_set_clr gate \<noteq> 0
      then io_write32 p (gate_offset gate + hdr p RCC_MP_ENCLRR_OFFSET)
             (BIT (gate_bit gate)) s
      else io_clrbits32 p (gate_offset gate) (BIT (gate_bit gate)) s)"

definition uu_clk_is_enabled :: "plat \<Rightarrow> clk_gate \<Rightarrow> clk_state \<Rightarrow> bool" where
  "uu_clk_is_enabled p gate s =
     (io_read32 p s (gate_offset gate) AND BIT (gate_bit gate) \<noteq> 0)"

text \<open>
  Clock identifiers.  The compile-time assertion of \<open>clock_is_always_on\<close> fixes
  \<open>CK_HSE = 0\<close> up to \<open>CK_HSE_DIV2 = 5\<close> and places \<open>PLL1_Q\<close> ... \<open>PLL3_R\<close> right
  after \<open>PLL1_P\<close>; the other identifiers are header macros.
\<close>

definition CK_HSE :: nat where "CK_HSE = 0"
definition CK_CSI :: nat where "CK_CSI = 1"
definition CK_LSI :: nat where "CK_LSI = 2"
definition CK_LSE :: nat where "CK_LSE = 3"
definition CK_HSI :: nat where "CK_HSI = 4"
definition CK_HSE_DIV2 :: nat where "CK_HSE_DIV2 = 5"

definition PLL1_Q :: "plat \<Rightarrow> nat" where "PLL1_Q p = hdr p PLL1_P + 1"
definition PLL1_R :: "plat \<Rightarrow> nat" where "PLL1_R p = hdr p PLL1_P + 2"
definition PLL2_P :: "plat \<Rightarrow> nat" where "PLL2_P p = hdr p PLL1_P + 3"
definition PLL2_Q :: "plat \<Rightarrow> nat" where "PLL2_Q p = hdr p PLL1_P + 4"
definition PLL2_R :: "plat \<Rightarrow> nat" where "PLL2_R p = hdr p PLL1_P + 5"
definition PLL3_P :: "plat \<Rightarrow> nat" where "PLL3_P p = hdr p PLL1_P + 6"
definition PLL3_Q :: "plat \<Rightarrow> nat" where "PLL3_Q p = hdr p PLL1_P + 7"
definition PLL3_R :: "plat \<Rightarrow> nat" where "PLL3_R p = hdr p PLL1_P + 8"

definition clock_is_always_on :: "plat \<Rightarrow> nat \<Rightarrow> bool" where
  "clock_is_always_on p ident =
     (if ident \<le> CK_HSE_DIV2 \<or> (ident \<ge> hdr p PLL1_P \<and> ident \<le> PLL3_R p) then True
      else if ident = hdr p CK_AXI \<or> ident = hdr p CK_MPU \<or> ident = hdr p CK_MCU
      then True
      else False)"

definition clk_stm32_is_enabled :: "plat \<Rightarrow> nat \<Rightarrow> clk_state \<Rightarrow> fatal + bool" where
  "clk_stm32_is_enabled p ident s =
     (if clock_is_always_on p ident then Inr True
      else let i = stm32mp1_clk_get_gated_id p ident in
        if i < 0 then Inr False
        else Inr (uu_clk_is_enabled p (gate_ref p (nat i)) s))"

text \<open>
  \<open>clk_stm32_enable\<close> and \<open>clk_stm32_disable\<close>.  The spinlock around the reference
  counter is not modelled: calls are sequential here.
\<close>

definition clk_stm32_enable ::
  "plat \<Rightarrow> nat \<Rightarrow> clk_state \<Rightarrow> fatal + (TEE_Result \<times> clk_state)" where
  "clk_stm32_enable p ident s =
     (if clock_is_always_on p ident then Inr (TEE_SUCCESS, s)
      else let i = stm32mp1_clk_get_gated_id p ident in
        if i < 0 then Inl Panic
        else if gate_is_non_secure p (gate_ref p (nat i))
        then Inr (TEE_SUCCESS, uu_clk_enable p (gate_ref p (nat i)) s)
        else
          let s1 = (if gate_refcounts s ! nat i = 0
                    then uu_clk_enable p (gate_ref p (nat i)) s else s);
              s2 = s1\<lparr>gate_refcounts :=
                        (gate_refcounts s1)[nat i := gate_refcounts s1 ! nat i + 1]\<rparr>
          in Inr (TEE_SUCCESS, s2))"

definition clk_stm32_disable :: "plat \<Rightarrow> nat \<Rightarrow> clk_state \<Rightarrow> fatal + clk_state" where
  "clk_stm32_disable p ident s =
     (if clock_is_always_on p ident then Inr s
      else let i = stm32mp1_clk_get_gated_id p ident in
        if i < 0 then Inl Panic
        else if gate_is_non_secure p (gate_ref p (nat i)) then Inr s
        else if gate_refcounts s ! nat i = 0 then Inl AssertFailed
        else
          let s1 = s\<lparr>gate_refcounts :=
                       (gate_refcounts s)[nat i := gate_refcounts s ! nat i - 1]\<rparr>;
              s2 = (if gate_refcounts s1 ! nat i = 0
                    then uu_clk_disable p (gate_ref p (nat i)) s1 else s1)
          in Inr s2)"

text \<open>
  The gate table agrees with the hardware for a gate: its bit lies in the 32-bit register,
  a gate flagged \<open>set_clr\<close> sits on the SET sub-register of a pair whose CLEAR
  sub-register is \<open>RCC_MP_ENCLRR_OFFSET\<close> further, and any other gate sits on a plain
  register.
\<close>

definition gate_hw_ok :: "plat \<Rightarrow> clk_gate \<Rightarrow> bool" where
  "gate_hw_ok p gate =
     (gate_bit gate < 32 \<and>
      (if gate_set_clr gate \<noteq> 0
       then (case reg_kind p (gate_offset gate) of
               SetOf c \<Rightarrow>
                 reg_kind p (gate_offset gate + hdr p RCC_MP_ENCLRR_OFFSET) = ClrOf c
             | _ \<Rightarrow> False)
       else reg_kind p (gate_offset gate) = RW))"

text \<open>\<open>n\<close> consecutive calls of \<open>clk_stm32_enable\<close>, and of \<open>clk_stm32_disable\<close>.\<close>

fun enable_n :: "plat \<Rightarrow> nat \<Rightarrow> nat \<Rightarrow> clk_state \<Rightarrow> fatal + clk_state" where
  "enable_n p ident 0 s = Inr s"
| "enable_n p ident (Suc n) s =
     (case clk_stm32_enable p ident s of
        Inl e \<Rightarrow> Inl e
      | Inr (r, s') \<Rightarrow> enable_n p ident n s')"

fun disable_n :: "plat \<Rightarrow> nat \<Rightarrow> nat \<Rightarrow> clk_state \<Rightarrow> fatal + clk_state" where
  "disable_n p ident 0 s = Inr s"
| "disable_n p ident (Suc n) s =
     (case clk_stm32_disable p ident s of
        Inl e \<Rightarrow> Inl e
      | Inr s' \<Rightarrow> disable_n p ident n s')"

section \<open>Operating points: rounding a request\<close>

text \<open>\<open>stm32mp1_clk_pll1_settings_are_valid\<close> (the variant built with the embedded device tree).\<close>

definition stm32mp1_clk_pll1_settings_are_valid :: "clk_state \<Rightarrow> bool" where
  "stm32mp1_clk_pll1_settings_are_valid s =
     (valid_id (pll1_settings s) = PLL1_SETTINGS_VALID_ID)"

text \<open>
  \<open>stm32mp1_round_opp_khz\<close>: the result is the return code and the value left in
  \<open>*freq_khz\<close>.  The loop \<open>for (i = 0; i < PLAT_MAX_OPP_NB; i++)\<close> is a left fold over the
  indices, \<open>round_opp_step\<close> being its body.
\<close>

definition round_opp_step :: "u32 list \<Rightarrow> u32 \<Rightarrow> u32 \<Rightarrow> nat \<Rightarrow> u32" where
  "round_opp_step fs freq_khz round_opp i =
     (if fs ! i \<le> freq_khz \<and> fs ! i > round_opp then fs ! i else round_opp)"

definition stm32mp1_round_opp_khz :: "plat \<Rightarrow> clk_state \<Rightarrow> u32 \<Rightarrow> int \<times> u32" where
  "stm32mp1_round_opp_khz p s freq_khz =
     (if \<not> stm32mp1_clk_pll1_settings_are_valid s then (0, current_opp_khz s)
      else (0, foldl (round_opp_step (freq (pll1_settings s)) freq_khz) 0
                 [0 ..< hdr p PLAT_MAX_OPP_NB]))"

text \<open>The candidates of a rounding: zero, and the table frequencies not above the request.\<close>

definition round_set :: "u32 list \<Rightarrow> u32 \<Rightarrow> u32 set" where
  "round_set fs x = insert 0 {f \<in> set fs. f \<le> x}"

section \<open>Rate resolver and PLL frequencies\<close>

text \<open>
  \<open>enum stm32mp_osc_id\<close> and \<open>enum stm32mp1_parent_id\<close>, with the values the
  enumerations give them (the leading underscore of the C names is written \<open>U_\<close>).
\<close>

definition U_HSI :: nat where "U_HSI = 0"
definition U_HSE :: nat where "U_HSE = 1"
definition U_CSI :: nat where "U_CSI = 2"
definition U_LSI :: nat where "U_LSI = 3"
definition U_LSE :: nat where "U_LSE = 4"
definition U_I2S_CKIN :: nat where "U_I2S_CKIN = 5"
definition U_USB_PHY_48 :: nat where "U_USB_PHY_48 = 6"
definition NB_OSC :: nat where "NB_OSC = 7"
definition U_UNKNOWN_OSC_ID :: nat where "U_UNKNOWN_OSC_ID = 0xff"
definition U_HSI_KER :: nat where "U_HSI_KER = 7"
definition U_HSE_KER :: nat where "U_HSE_KER = 8"
definition U_HSE_KER_DIV2 :: nat where "U_HSE_KER_DIV2 = 9"
definition U_CSI_KER :: nat where "U_CSI_KER = 10"
definition U_PLL1_P :: nat where "U_PLL1_P = 11"
definition U_PLL1_Q :: nat where "U_PLL1_Q = 12"
definition U_PLL1_R :: nat where "U_PLL1_R = 13"
definition U_PLL2_P :: nat where "U_PLL2_P = 14"
definition U_PLL2_Q :: nat where "U_PLL2_Q = 15"
definition U_PLL2_R :: nat where "U_PLL2_R = 16"
definition U_PLL3_P :: nat where "U_PLL3_P = 17"
definition U_PLL3_Q :: nat where "U_PLL3_Q = 18"
definition U_PLL3_R :: nat where "U_PLL3_R = 19"
definition U_PLL4_P :: nat where "U_PLL4_P = 20"
definition U_PLL4_Q :: nat where "U_PLL4_Q = 21"
definition U_PLL4_R :: nat where "U_PLL4_R = 22"
definition U_ACLK :: nat where "U_ACLK = 23"
definition U_PCLK1 :: nat where "U_PCLK1 = 24"
definition U_PCLK2 :: nat where "U_PCLK2 = 25"
definition U_PCLK3 :: nat where "U_PCLK3 = 26"
definition U_PCLK4 :: nat where "U_PCLK4 = 27"
definition U_PCLK5 :: nat where "U_PCLK5 = 28"
definition U_HCLK6 :: nat where "U_HCLK6 = 29"
definition U_HCLK2 :: nat where "U_HCLK2 = 30"
definition U_CK_PER :: nat where "U_CK_PER = 31"
definition U_CK_MPU :: nat where "U_CK_MPU = 32"
definition U_CK_MCU :: nat where "U_CK_MCU = 33"
definition U_PARENT_NB :: nat where "U_PARENT_NB = 34"
definition U_UNKNOWN_ID :: nat where "U_UNKNOWN_ID = 0xff"
definition U_PARENT_SEL_NB :: nat where "U_PARENT_SEL_NB = 17"
definition U_UNKNOWN_SEL :: nat where "U_UNKNOWN_SEL = 0xff"

text \<open>
  \<open>parent_id_clock_id\<close>, in index order.  Its cells are \<open>uint8_t\<close>; the compile-time
  assertion \<open>STM32MP1_LAST_CLK < _UNKNOWN_ID\<close> keeps every clock identifier below 255.
\<close>

definition parent_id_clock_id :: "plat \<Rightarrow> nat list" where
  "parent_id_clock_id p =
     [CK_HSI, CK_HSE, CK_CSI, CK_LSI, CK_LSE, U_UNKNOWN_ID, U_UNKNOWN_ID,
      CK_HSI, CK_HSE, CK_HSE_DIV2, CK_CSI,
      hdr p PLL1_P, PLL1_Q p, PLL1_R p, PLL2_P p, PLL2_Q p, PLL2_R p,
      PLL3_P p, PLL3_Q p, PLL3_R p, hdr p PLL4_P, hdr p PLL4_Q, hdr p PLL4_R,
      hdr p CK_AXI, hdr p CK_AXI, hdr p CK_AXI, hdr p CK_AXI,
      hdr p CK_AXI, hdr p CK_AXI, hdr p CK_AXI, hdr p CK_AXI,
      hdr p CK_PER, hdr p CK_MPU, hdr p CK_MCU]"

text \<open>\<open>clock_id2parent_id\<close>: the first index \<open>n\<close> whose cell is \<open>id\<close>.\<close>

fun clock_id2parent_id_loop :: "nat list \<Rightarrow> nat \<Rightarrow> nat \<Rightarrow> nat" where
  "clock_id2parent_id_loop [] ident n = U_UNKNOWN_ID"
| "clock_id2parent_id_loop (c # cs) ident n =
     (if c = ident then n else clock_id2parent_id_loop cs ident (Suc n))"

definition clock_id2parent_id :: "plat \<Rightarrow> nat \<Rightarrow> nat" where
  "clock_id2parent_id p ident = clock_id2parent_id_loop (parent_id_clock_id p) ident 0"

datatype stm32mp1_pll_id = U_PLL1 | U_PLL2 | U_PLL3 | U_PLL4

datatype stm32mp1_div_id = U_DIV_P | U_DIV_Q | U_DIV_R

datatype stm32mp1_plltype = PLL_800 | PLL_1600

text \<open>\<open>struct stm32mp1_clk_pll\<close> and the table \<open>stm32mp1_clk_pll\<close> read through \<open>pll_ref\<close>.\<close>

record clk_pll =
  plltype :: stm32mp1_plltype
  rckxselr :: nat
  pllxcfgr1 :: nat
  pllxcfgr2 :: nat
  pllxfracr :: nat
  pllxcr :: nat
  pllxcsgr :: nat
  refclk :: "nat list"

fun pll_ref :: "plat \<Rightarrow> stm32mp1_pll_id \<Rightarrow> clk_pll" where
  "pll_ref p U_PLL1 =
     \<lparr>plltype = PLL_1600, rckxselr = hdr p RCC_RCK12SELR,
      pllxcfgr1 = hdr p RCC_PLL1CFGR1, pllxcfgr2 = hdr p RCC_PLL1CFGR2,
      pllxfracr = hdr p RCC_PLL1FRACR, pllxcr = hdr p RCC_PLL1CR,
      pllxcsgr = hdr p RCC_PLL1CSGR,
      refclk = [U_HSI, U_HSE, U_UNKNOWN_OSC_ID, U_UNKNOWN_OSC_ID]\<rparr>"
| "pll_ref p U_PLL2 =
     \<lparr>plltype = PLL_1600, rckxselr = hdr p RCC_RCK12SELR,
      pllxcfgr1 = hdr p RCC_PLL2CFGR1, pllxcfgr2 = hdr p RCC_PLL2CFGR2,
      pllxfracr = hdr p RCC_PLL2FRACR, pllxcr = hdr p RCC_PLL2CR,
      pllxcsgr = hdr p RCC_PLL2CSGR,
      refclk = [U_HSI, U_HSE, U_UNKNOWN_OSC_ID, U_UNKNOWN_OSC_ID]\<rparr>"
| "pll_ref p U_PLL3 =
     \<lparr>plltype = PLL_800, rckxselr = hdr p RCC_RCK3SELR,
      pllxcfgr1 = hdr p RCC_PLL3CFGR1, pllxcfgr2 = hdr p RCC_PLL3CFGR2,
      pllxfracr = hdr p RCC_PLL3FRACR, pllxcr = hdr p RCC_PLL3CR,
      pllxcsgr = hdr p RCC_PLL3CSGR,
      refclk = [U_HSI, U_HSE, U_CSI, U_UNKNOWN_OSC_ID]\<rparr>"
| "pll_ref p U_PLL4 =
     \<lparr>plltype = PLL_800, rckxselr = hdr p RCC_RCK4SELR,
      pllxcfgr1 = hdr p RCC_PLL4CFGR1, pllxcfgr2 = hdr p RCC_PLL4CFGR2,
      pllxfracr = hdr p RCC_PLL4FRACR, pllxcr = hdr p RCC_PLL4CR,
      pllxcsgr = hdr p RCC_PLL4CSGR,
      refclk = [U_HSI, U_HSE, U_CSI, U_I2S_CKIN]\<rparr>"

text \<open>\<open>pllncfgr2\<close>: the shift of each output divider in PLLNCFGR2.\<close>

fun pllncfgr2 :: "plat \<Rightarrow> stm32mp1_div_id \<Rightarrow> nat" where
  "pllncfgr2 p U_DIV_P = hdr p RCC_PLLNCFGR2_DIVP_SHIFT"
| "pllncfgr2 p U_DIV_Q = hdr p RCC_PLLNCFGR2_DIVQ_SHIFT"
| "pllncfgr2 p U_DIV_R = hdr p RCC_PLLNCFGR2_DIVR_SHIFT"

definition stm32mp1_mcu_div :: "nat list" where
  "stm32mp1_mcu_div = [0, 1, 2, 3, 4, 6, 7, 8, 9, 9, 9, 9, 9, 9, 9, 9]"

definition stm32mp1_mpu_apbx_div :: "nat list" where
  "stm32mp1_mpu_apbx_div = [0, 1, 2, 3, 4, 4, 4, 4]"

definition stm32mp1_axi_div :: "nat list" where
  "stm32mp1_axi_div = [1, 2, 3, 4, 4, 4, 4, 4]"

definition osc_frequency :: "clk_state \<Rightarrow> nat \<Rightarrow> u32" where
  "osc_frequency s idx = (if idx \<ge> NB_OSC then 0 else stm32mp1_osc s ! idx)"

text \<open>
  \<open>__clk_get_parent\<close>: the parent id, \<open>-1\<close> when there is none, or a panic.
\<close>

definition uu_clk_get_parent :: "plat \<Rightarrow> nat \<Rightarrow> clk_state \<Rightarrow> fatal + int" where
  "uu_clk_get_parent p ident s =
     (let parent_id = clock_id2parent_id p ident in
      if parent_id \<noteq> U_UNKNOWN_ID then Inr (int parent_id)
      else let i = stm32mp1_clk_get_gated_id p ident in
        if i < 0 then Inl Panic
        else let fp = gate_fixed (gate_ref p (nat i)) in
          if fp < U_PARENT_NB then Inr (int fp)
          else let sl = gate_sel (gate_ref p (nat i)) in
            if sl = U_UNKNOWN_SEL then Inr (- 1)
            else if sl \<ge> U_PARENT_SEL_NB then Inl Panic
            else let sel = stm32mp1_clk_sel p ! sl;
                     p_sel = drop_bit (sel_src sel) (io_read32 p s (sel_offset sel))
                               AND sel_msk sel
                 in if unat p_sel < sel_nb_parent sel
                    then Inr (int (sel_parent sel ! unat p_sel))
                    else Inr (- 1))"

text \<open>\<open>stm32mp1_pll_get_fref\<close>\<close>

definition stm32mp1_pll_get_fref :: "plat \<Rightarrow> clk_pll \<Rightarrow> clk_state \<Rightarrow> u32" where
  "stm32mp1_pll_get_fref p pll s =
     (let selr = io_read32 p s (rckxselr pll);
          src = selr AND hdrw p RCC_SELR_REFCLK_SRC_MASK
      in osc_frequency s (refclk pll ! unat src))"

text \<open>
  The fields \<open>stm32mp1_pll_get_fvco\<close> takes from PLLNCFGR1 (\<open>divm\<close>, \<open>divn\<close>) and from
  PLLNFRACR (the flag FRACLE and \<open>fracv\<close>).
\<close>

definition pll_divm :: "plat \<Rightarrow> clk_pll \<Rightarrow> clk_state \<Rightarrow> u32" where
  "pll_divm p pll s =
     drop_bit (hdr p RCC_PLLNCFGR1_DIVM_SHIFT)
       (io_read32 p s (pllxcfgr1 pll) AND hdrw p RCC_PLLNCFGR1_DIVM_MASK)"

definition pll_divn :: "plat \<Rightarrow> clk_pll \<Rightarrow> clk_state \<Rightarrow> u32" where
  "pll_divn p pll s = io_read32 p s (pllxcfgr1 pll) AND hdrw p RCC_PLLNCFGR1_DIVN_MASK"

definition pll_fracle :: "plat \<Rightarrow> clk_pll \<Rightarrow> clk_state \<Rightarrow> bool" where
  "pll_fracle p pll s =
     (io_read32 p s (pllxfracr pll) AND hdrw p RCC_PLLNFRACR_FRACLE \<noteq> 0)"

definition pll_fracv :: "plat \<Rightarrow> clk_pll \<Rightarrow> clk_state \<Rightarrow> u32" where
  "pll_fracv p pll s =
     drop_bit (hdr p RCC_PLLNFRACR_FRACV_SHIFT)
       (io_read32 p s (pllxfracr pll) AND hdrw p RCC_PLLNFRACR_FRACV_MASK)"

text \<open>
  \<open>stm32mp1_pll_get_fvco\<close>.  With FRACLE the numerator and the denominator are
  \<open>unsigned long long\<close> (64 bits) and the quotient is cast to \<open>unsigned long\<close>;
  without it the whole expression \<open>refclk * (divn + 1U) / (divm + 1U)\<close> is computed on
  \<open>unsigned long\<close> (32 bits).
\<close>

definition stm32mp1_pll_get_fvco :: "plat \<Rightarrow> clk_pll \<Rightarrow> clk_state \<Rightarrow> u32" where
  "stm32mp1_pll_get_fvco p pll s =
     (let divm = pll_divm p pll s;
          divn = pll_divn p pll s;
          ref_clk = stm32mp1_pll_get_fref p pll s
      in if pll_fracle p pll s
         then
           let fracv = pll_fracv p pll s;
               numerator0 = push_bit 13 ((ucast divn :: u64) + 1) + ucast fracv;
               numerator = (ucast ref_clk :: u64) * numerator0;
               denominator = push_bit 13 ((ucast divm :: u64) + 1)
           in ucast (numerator div denominator)
         else ref_clk * (divn + 1) div (divm + 1))"

text \<open>\<open>stm32mp1_read_pll_freq\<close> (a \<open>div_id\<close> is always below \<open>_DIV_NB\<close> here).\<close>

definition stm32mp1_read_pll_freq ::
  "plat \<Rightarrow> stm32mp1_pll_id \<Rightarrow> stm32mp1_div_id \<Rightarrow> clk_state \<Rightarrow> u32" where
  "stm32mp1_read_pll_freq p pll_id div_id s =
     (let pll = pll_ref p pll_id;
          cfgr2 = io_read32 p s (pllxcfgr2 pll);
          divy = drop_bit (pllncfgr2 p div_id) cfgr2 AND hdrw p RCC_PLLNCFGR2_DIVX_MASK
      in stm32mp1_pll_get_fvco p pll s div (divy + 1))"

text \<open>
  \<open>__clk_get_parent_rate\<close>: the \<open>switch\<close> over the parent id, each inner \<open>switch\<close> over
  a source field as a chain of comparisons in the order of its \<open>case\<close> labels.
\<close>

definition mpu_rate :: "plat \<Rightarrow> clk_state \<Rightarrow> u32" where
  "mpu_rate p s =
     (let src = io_read32 p s (hdr p RCC_MPCKSELR) AND hdrw p RCC_SELR_SRC_MASK in
      if src = hdrw p RCC_MPCKSELR_HSI then osc_frequency s U_HSI
      else if src = hdrw p RCC_MPCKSELR_HSE then osc_frequency s U_HSE
      else if src = hdrw p RCC_MPCKSELR_PLL then stm32mp1_read_pll_freq p U_PLL1 U_DIV_P s
      else if src = hdrw p RCC_MPCKSELR_PLL_MPUDIV
      then (let reg = io_read32 p s (hdr p RCC_MPCKDIVR) in
            if reg AND hdrw p RCC_MPUDIV_MASK \<noteq> 0
            then drop_bit (stm32mp1_mpu_apbx_div ! unat (reg AND hdrw p RCC_MPUDIV_MASK))
                   (stm32mp1_read_pll_freq p U_PLL1 U_DIV_P s)
            else 0)
      else 0)"

definition apbx_shift :: "plat \<Rightarrow> clk_state \<Rightarrow> macro \<Rightarrow> u32 \<Rightarrow> u32" where
  "apbx_shift p s divr clock =
     drop_bit (stm32mp1_mpu_apbx_div !
                 unat (io_read32 p s (hdr p divr) AND hdrw p RCC_APBXDIV_MASK)) clock"

definition axi_rate :: "plat \<Rightarrow> nat \<Rightarrow> clk_state \<Rightarrow> u32" where
  "axi_rate p par s =
     (let src = io_read32 p s (hdr p RCC_ASSCKSELR) AND hdrw p RCC_SELR_SRC_MASK;
          clock0 = (if src = hdrw p RCC_ASSCKSELR_HSI then osc_frequency s U_HSI
                    else if src = hdrw p RCC_ASSCKSELR_HSE then osc_frequency s U_HSE
                    else if src = hdrw p RCC_ASSCKSELR_PLL
                    then stm32mp1_read_pll_freq p U_PLL2 U_DIV_P s
                    else 0);
          reg = io_read32 p s (hdr p RCC_AXIDIVR);
          clock = clock0 div of_nat (stm32mp1_axi_div ! unat (reg AND hdrw p RCC_AXIDIV_MASK))
      in if par = U_PCLK4 then apbx_shift p s RCC_APB4DIVR clock
         else if par = U_PCLK5 then apbx_shift p s RCC_APB5DIVR clock
         else clock)"

definition mcu_rate :: "plat \<Rightarrow> nat \<Rightarrow> clk_state \<Rightarrow> u32" where
  "mcu_rate p par s =
     (let src = io_read32 p s (hdr p RCC_MSSCKSELR) AND hdrw p RCC_SELR_SRC_MASK;
          clock0 = (if src = hdrw p RCC_MSSCKSELR_HSI then osc_frequency s U_HSI
                    else if src = hdrw p RCC_MSSCKSELR_HSE then osc_frequency s U_HSE
                    else if src = hdrw p RCC_MSSCKSELR_CSI then osc_frequency s U_CSI
                    else if src = hdrw p RCC_MSSCKSELR_PLL
                    then stm32mp1_read_pll_freq p U_PLL3 U_DIV_P s
                    else 0);
          reg = io_read32 p s (hdr p RCC_MCUDIVR);
          clock = drop_bit (stm32mp1_mcu_div ! unat (reg AND hdrw p RCC_MCUDIV_MASK)) clock0
      in if par = U_PCLK1 then apbx_shift p s RCC_APB1DIVR clock
         else if par = U_PCLK2 then apbx_shift p s RCC_APB2DIVR clock
         else if par = U_PCLK3 then apbx_shift p s RCC_APB3DIVR clock
         else clock)"

definition per_rate :: "plat \<Rightarrow> clk_state \<Rightarrow> u32" where
  "per_rate p s =
     (let src = io_read32 p s (hdr p RCC_CPERCKSELR) AND hdrw p RCC_SELR_SRC_MASK in
      if src = hdrw p RCC_CPERCKSELR_HSI then osc_frequency s U_HSI
      else if src = hdrw p RCC_CPERCKSELR_HSE then osc_frequency s U_HSE
      else if src = hdrw p RCC_CPERCKSELR_CSI then osc_frequency s U_CSI
      else 0)"

definition uu_clk_get_parent_rate :: "plat \<Rightarrow> nat \<Rightarrow> clk_state \<Rightarrow> u32" where
  "uu_clk_get_parent_rate p par s =
     (if par = U_CK_MPU then mpu_rate p s
      else if par \<in> {U_ACLK, U_HCLK2, U_HCLK6, U_PCLK4, U_PCLK5} then axi_rate p par s
      else if par \<in> {U_CK_MCU, U_PCLK1, U_PCLK2, U_PCLK3} then mcu_rate p par s
      else if par = U_CK_PER then per_rate p s
      else if par = U_HSI \<or> par = U_HSI_KER then osc_frequency s U_HSI
      else if par = U_CSI \<or> par = U_CSI_KER then osc_frequency s U_CSI
      else if par = U_HSE \<or> par = U_HSE_KER then osc_frequency s U_HSE
      else if par = U_HSE_KER_DIV2 then drop_bit 1 (osc_frequency s U_HSE)
      else if par = U_LSI then osc_frequency s U_LSI
      else if par = U_LSE then osc_frequency s U_LSE
      else if par = U_PLL1_P then stm32mp1_read_pll_freq p U_PLL1 U_DIV_P s
      else if par = U_PLL1_Q then stm32mp1_read_pll_freq p U_PLL1 U_DIV_Q s
      else if par = U_PLL1_R then stm32mp1_read_pll_freq p U_PLL1 U_DIV_R s
      else if par = U_PLL2_P then stm32mp1_read_pll_freq p U_PLL2 U_DIV_P s
      else if par = U_PLL2_Q then stm32mp1_read_pll_freq p U_PLL2 U_DIV_Q s
      else if par = U_PLL2_R then stm32mp1_read_pll_freq p U_PLL2 U_DIV_R s
      else if par = U_PLL3_P then stm32mp1_read_pll_freq p U_PLL3 U_DIV_P s
      else if par = U_PLL3_Q then stm32mp1_read_pll_freq p U_PLL3 U_DIV_Q s
      else if par = U_PLL3_R then stm32mp1_read_pll_freq p U_PLL3 U_DIV_R s
      else if par = U_PLL4_P then stm32mp1_read_pll_freq p U_PLL4 U_DIV_P s
      else if par = U_PLL4_Q then stm32mp1_read_pll_freq p U_PLL4 U_DIV_Q s
      else if par = U_PLL4_R then stm32mp1_read_pll_freq p U_PLL4 U_DIV_R s
      else if par = U_USB_PHY_48 then osc_frequency s U_USB_PHY_48
      else 0)"

text \<open>
  \<open>get_timer_rate\<close>.  Its \<open>long\<close> argument and result and the \<open>unsigned long\<close> rate of
  the caller are 32 bits wide, and the product with the \<open>uint32_t\<close> prescaler is taken
  on 32 bits.
\<close>

definition get_timer_rate :: "plat \<Rightarrow> u32 \<Rightarrow> nat \<Rightarrow> clk_state \<Rightarrow> fatal + u32" where
  "get_timer_rate p parent_rate apb_bus s =
     (case (if apb_bus = 1
            then Inr (io_read32 p s (hdr p RCC_APB1DIVR) AND hdrw p RCC_APBXDIV_MASK,
                      io_read32 p s (hdr p RCC_TIMG1PRER)
                        AND hdrw p RCC_TIMGXPRER_TIMGXPRE)
            else if apb_bus = 2
            then Inr (io_read32 p s (hdr p RCC_APB2DIVR) AND hdrw p RCC_APBXDIV_MASK,
                      io_read32 p s (hdr p RCC_TIMG2PRER)
                        AND hdrw p RCC_TIMGXPRER_TIMGXPRE)
            else Inl Panic) of
        Inl e \<Rightarrow> Inl e
      | Inr (apbxdiv, timgxpre) \<Rightarrow>
          if apbxdiv = 0 then Inr parent_rate
          else Inr (parent_rate * (timgxpre + 1) * 2))"

text \<open>
  \<open>clk_stm32_get_rate\<close>.  The parent is held in a variable of the enumeration type; where
  the test \<open>p < 0\<close> is compiled on an unsigned enumeration it never holds, and
  \<open>__clk_get_parent_rate\<close> then answers 0 for the unknown value, so the rate is 0 either way.
\<close>

definition clk_stm32_get_rate :: "plat \<Rightarrow> nat \<Rightarrow> clk_state \<Rightarrow> fatal + u32" where
  "clk_stm32_get_rate p ident s =
     (case uu_clk_get_parent p ident s of
        Inl e \<Rightarrow> Inl e
      | Inr par \<Rightarrow>
          if par < 0 then Inr 0
          else
            let rate0 = uu_clk_get_parent_rate p (nat par) s in
            (case (if ident \<ge> hdr p TIM2_K \<and> ident \<le> hdr p TIM14_K
                   then get_timer_rate p rate0 1 s else Inr rate0) of
               Inl e \<Rightarrow> Inl e
             | Inr rate1 \<Rightarrow>
                 if ident \<ge> hdr p TIM1_K \<and> ident \<le> hdr p TIM17_K
                 then get_timer_rate p rate1 2 s else Inr rate1))"

text \<open>
  The timer rule in the words of the specification: the parent rate unchanged when the APB
  prescaler field is zero, and otherwise multiplied by (timer prescaler + 1) * 2.
\<close>

definition timer_rule :: "u32 \<Rightarrow> u32 \<Rightarrow> u32 \<Rightarrow> u32" where
  "timer_rule apbxdiv timgxpre rate =
     (if apbxdiv = 0 then rate else rate * (timgxpre + 1) * 2)"

section \<open>PLL programming and operating point switch\<close>

text \<open>\<open>enum stm32mp1_pllcfg\<close>: the cells of a PLL configuration row.\<close>

definition PLLCFG_M :: nat where "PLLCFG_M = 0"
definition PLLCFG_N :: nat where "PLLCFG_N = 1"
definition PLLCFG_P :: nat where "PLLCFG_P = 2"
definition PLLCFG_Q :: nat where "PLLCFG_Q = 3"
definition PLLCFG_R :: nat where "PLLCFG_R = 4"
definition PLLCFG_O :: nat where "PLLCFG_O = 5"
definition PLLCFG_NB :: nat where "PLLCFG_NB = 6"

text \<open>The table \<open>stm32mp1_pll\<close>: \<open>refclk_min\<close>, \<open>refclk_max\<close> (in MHz) and \<open>divn_max\<close>.\<close>

fun pll_refclk_min :: "stm32mp1_plltype \<Rightarrow> u32" where
  "pll_refclk_min PLL_800 = 4"
| "pll_refclk_min PLL_1600 = 8"

fun pll_refclk_max :: "stm32mp1_plltype \<Rightarrow> u32" where
  "pll_refclk_max PLL_800 = 16"
| "pll_refclk_max PLL_1600 = 16"

fun pll_divn_max :: "stm32mp1_plltype \<Rightarrow> u32" where
  "pll_divn_max PLL_800 = 99"
| "pll_divn_max PLL_1600 = 199"

definition CLK_MPU_PLL1P :: u32 where "CLK_MPU_PLL1P = 0x00000202"
definition CLK_MPU_PLL1P_DIV :: u32 where "CLK_MPU_PLL1P_DIV = 0x00000203"

text \<open>
  A bounded wait for a status flag: the loop
  \<open>while (!(io_read32(a) & flag)) if (timeout_elapsed(start)) return -1;\<close>.
  The flag is driven by the hardware and the timeout by the clock; the next entry of
  \<open>hw_ready\<close> tells which came first.  The loop always ends.
\<close>

definition wait_flag :: "plat \<Rightarrow> nat \<Rightarrow> u32 \<Rightarrow> clk_state \<Rightarrow> bool \<times> clk_state" where
  "wait_flag p a flag s =
     (case hw_ready s of
        [] \<Rightarrow> (False, s)
      | b # bs \<Rightarrow> (b, s\<lparr>hw_ready := bs\<rparr>))"

definition pll_start :: "plat \<Rightarrow> stm32mp1_pll_id \<Rightarrow> clk_state \<Rightarrow> clk_state" where
  "pll_start p pll_id s =
     (let cr = pllxcr (pll_ref p pll_id) in
      if io_read32 p s cr AND hdrw p RCC_PLLNCR_PLLON \<noteq> 0 then s
      else io_clrsetbits32 p cr
             (hdrw p RCC_PLLNCR_DIVPEN OR hdrw p RCC_PLLNCR_DIVQEN OR hdrw p RCC_PLLNCR_DIVREN)
             (hdrw p RCC_PLLNCR_PLLON) s)"

definition pll_output ::
  "plat \<Rightarrow> stm32mp1_pll_id \<Rightarrow> u32 \<Rightarrow> clk_state \<Rightarrow> int \<times> clk_state" where
  "pll_output p pll_id output s =
     (let cr = pllxcr (pll_ref p pll_id);
          (ready, s1) = wait_flag p cr (hdrw p RCC_PLLNCR_PLLRDY) s
      in if \<not> ready then (- 1, s1)
         else (0, io_setbits32 p cr (push_bit (hdr p RCC_PLLNCR_DIVEN_SHIFT) output) s1))"

definition pll_stop :: "plat \<Rightarrow> stm32mp1_pll_id \<Rightarrow> clk_state \<Rightarrow> int \<times> clk_state" where
  "pll_stop p pll_id s =
     (let cr = pllxcr (pll_ref p pll_id);
          s1 = io_clrbits32 p cr
                 (hdrw p RCC_PLLNCR_DIVPEN OR hdrw p RCC_PLLNCR_DIVQEN
                    OR hdrw p RCC_PLLNCR_DIVREN) s;
          s2 = io_clrbits32 p cr (hdrw p RCC_PLLNCR_PLLON) s1;
          (ready, s3) = wait_flag p cr (hdrw p RCC_PLLNCR_PLLRDY) s2
      in if \<not> ready then (- 1, s3) else (0, s3))"

definition pll_compute_pllxcfgr2 :: "plat \<Rightarrow> u32 list \<Rightarrow> u32" where
  "pll_compute_pllxcfgr2 p pllcfg =
     ((push_bit (hdr p RCC_PLLNCFGR2_DIVP_SHIFT) (pllcfg ! PLLCFG_P)
         AND hdrw p RCC_PLLNCFGR2_DIVP_MASK)
      OR (push_bit (hdr p RCC_PLLNCFGR2_DIVQ_SHIFT) (pllcfg ! PLLCFG_Q)
         AND hdrw p RCC_PLLNCFGR2_DIVQ_MASK))
     OR (push_bit (hdr p RCC_PLLNCFGR2_DIVR_SHIFT) (pllcfg ! PLLCFG_R)
         AND hdrw p RCC_PLLNCFGR2_DIVR_MASK)"

definition pll_config_output ::
  "plat \<Rightarrow> stm32mp1_pll_id \<Rightarrow> u32 list \<Rightarrow> clk_state \<Rightarrow> clk_state" where
  "pll_config_output p pll_id pllcfg s =
     io_write32 p (pllxcfgr2 (pll_ref p pll_id)) (pll_compute_pllxcfgr2 p pllcfg) s"

text \<open>
  \<open>pll_compute_pllxcfgr1\<close>: the return code and the value stored through \<open>cfgr1\<close>
  (0, the caller's initial value, when nothing is stored).  The divisor
  \<open>pllcfg[PLLCFG_M] + 1U\<close> is a 32-bit sum.
\<close>

definition pll_compute_pllxcfgr1 ::
  "plat \<Rightarrow> clk_pll \<Rightarrow> u32 list \<Rightarrow> clk_state \<Rightarrow> fatal + (int \<times> u32)" where
  "pll_compute_pllxcfgr1 p pll pllcfg s =
     (let src = io_read32 p s (rckxselr pll) AND hdrw p RCC_SELR_REFCLK_SRC_MASK in
      if pllcfg ! PLLCFG_M + 1 = 0 then Inl DivByZero
      else
        let ref_clk = osc_frequency s (refclk pll ! unat src) div (pllcfg ! PLLCFG_M + 1) in
        if ref_clk < pll_refclk_min (plltype pll) * 1000000 \<or>
           ref_clk > pll_refclk_max (plltype pll) * 1000000
        then Inr (- 1, 0)
        else
          let ifrge = (if plltype pll = PLL_800 \<and> ref_clk \<ge> 8000000 then 1 else 0 :: u32)
          in Inr (0,
               ((push_bit (hdr p RCC_PLLNCFGR1_DIVN_SHIFT) (pllcfg ! PLLCFG_N)
                   AND hdrw p RCC_PLLNCFGR1_DIVN_MASK)
                OR (push_bit (hdr p RCC_PLLNCFGR1_DIVM_SHIFT) (pllcfg ! PLLCFG_M)
                   AND hdrw p RCC_PLLNCFGR1_DIVM_MASK))
               OR (push_bit (hdr p RCC_PLLNCFGR1_IFRGE_SHIFT) ifrge
                   AND hdrw p RCC_PLLNCFGR1_IFRGE_MASK)))"

definition pll_config ::
  "plat \<Rightarrow> stm32mp1_pll_id \<Rightarrow> u32 list \<Rightarrow> u32 \<Rightarrow> clk_state \<Rightarrow> fatal + (int \<times> clk_state)"
  where
  "pll_config p pll_id pllcfg fracv s =
     (let pll = pll_ref p pll_id in
      case pll_compute_pllxcfgr1 p pll pllcfg s of
        Inl e \<Rightarrow> Inl e
      | Inr (ret, v) \<Rightarrow>
          if ret \<noteq> 0 then Inr (ret, s)
          else
            let s1 = io_write32 p (pllxcfgr1 pll) v s;
                s2 = io_write32 p (pllxfracr pll) v s1;
                s3 = io_write32 p (pllxfracr pll)
                       (push_bit (hdr p RCC_PLLNFRACR_FRACV_SHIFT) fracv) s2;
                s4 = io_write32 p (pllxfracr pll)
                       (io_read32 p s3 (pllxfracr pll) OR hdrw p RCC_PLLNFRACR_FRACLE) s3
            in Inr (0, pll_config_output p pll_id pllcfg s4))"

text \<open>\<open>stm32mp1_set_clksrc\<close> and \<open>stm32mp1_set_clkdiv\<close>\<close>

definition stm32mp1_set_clksrc :: "plat \<Rightarrow> u32 \<Rightarrow> clk_state \<Rightarrow> int \<times> clk_state" where
  "stm32mp1_set_clksrc p clksrc s =
     (let address = unat (drop_bit 4 clksrc);
          s1 = io_clrsetbits32 p address (hdrw p RCC_SELR_SRC_MASK)
                 (clksrc AND hdrw p RCC_SELR_SRC_MASK) s;
          (ready, s2) = wait_flag p address (hdrw p RCC_SELR_SRCRDY) s1
      in if \<not> ready then (- 1, s2) else (0, s2))"

definition stm32mp1_set_clkdiv :: "plat \<Rightarrow> u32 \<Rightarrow> nat \<Rightarrow> clk_state \<Rightarrow> int \<times> clk_state" where
  "stm32mp1_set_clkdiv p clkdiv address s =
     (let s1 = io_clrsetbits32 p address (hdrw p RCC_DIVR_DIV_MASK)
                 (clkdiv AND hdrw p RCC_DIVR_DIV_MASK) s;
          (ready, s2) = wait_flag p address (hdrw p RCC_DIVR_DIVRDY) s1
      in if \<not> ready then (- 1, s2) else (0, s2))"

text \<open>
  \<open>is_pll_config_on_the_fly\<close>: the return code and the value left in \<open>*result\<close>, which
  the caller initialises to \<open>-1\<close>.
\<close>

definition is_pll_config_on_the_fly ::
  "plat \<Rightarrow> stm32mp1_pll_id \<Rightarrow> u32 list \<Rightarrow> u32 \<Rightarrow> clk_state \<Rightarrow> fatal + (int \<times> int)"
  where
  "is_pll_config_on_the_fly p pll_id pllcfg fracv s =
     (let pll = pll_ref p pll_id in
      case pll_compute_pllxcfgr1 p pll pllcfg s of
        Inl e \<Rightarrow> Inl e
      | Inr (ret, v) \<Rightarrow>
          if ret \<noteq> 0 then Inr (ret, - 1)
          else if io_read32 p s (pllxcfgr1 pll) \<noteq> v then Inr (0, - 1)
          else
            let fracr = push_bit (hdr p RCC_PLLNFRACR_FRACV_SHIFT) fracv
                          OR hdrw p RCC_PLLNFRACR_FRACLE;
                v2 = pll_compute_pllxcfgr2 p pllcfg
            in if io_read32 p s (pllxfracr pll) = fracr \<and> io_read32 p s (pllxcfgr2 pll) = v2
               then Inr (0, 1) else Inr (0, 0))"

text \<open>
  \<open>stm32mp1_get_mpu_div\<close>.  \<open>__builtin_ffs(div) - 1\<close> is written out for the five
  accepted dividers.  A request of 0 kHz divides by zero.
\<close>

definition stm32mp1_get_mpu_div :: "plat \<Rightarrow> u32 \<Rightarrow> clk_state \<Rightarrow> fatal + int" where
  "stm32mp1_get_mpu_div p freq_khz s =
     (let freq_pll1_p = uu_clk_get_parent_rate p U_PLL1_P s div 1000 in
      if freq_khz = 0 then Inl DivByZero
      else if freq_pll1_p mod freq_khz \<noteq> 0 then Inr (- 1)
      else
        let dv = freq_pll1_p div freq_khz in
        if dv = 1 then Inr 0
        else if dv = 2 then Inr 1
        else if dv = 4 then Inr 2
        else if dv = 8 then Inr 3
        else if dv = 16 then Inr 4
        else Inr (- 1))"

text \<open>The search \<open>for (idx = 0; idx < PLAT_MAX_OPP_NB; idx++) if (freq[idx] == freq_khz) break;\<close>\<close>

fun find_opp :: "u32 list \<Rightarrow> u32 \<Rightarrow> nat \<Rightarrow> nat" where
  "find_opp [] freq_khz idx = idx"
| "find_opp (f # fs) freq_khz idx =
     (if f = freq_khz then idx else find_opp fs freq_khz (Suc idx))"

text \<open>
  \<open>pll1_config_from_opp_khz\<close>.  \<open>reconfigure_pll1\<close> is its second half, from the call of
  \<open>is_pll_config_on_the_fly\<close> on.
\<close>

definition reconfigure_pll1 ::
  "plat \<Rightarrow> nat \<Rightarrow> clk_state \<Rightarrow> fatal + (int \<times> clk_state)" where
  "reconfigure_pll1 p idx s =
     (let pllcfg = cfg (pll1_settings s) ! idx;
          fracv = frac (pll1_settings s) ! idx
      in case is_pll_config_on_the_fly p U_PLL1 pllcfg fracv s of
        Inl e \<Rightarrow> Inl e
      | Inr (ret, config_on_the_fly) \<Rightarrow>
          if ret \<noteq> 0 then Inr (ret, s)
          else if config_on_the_fly = 1 then Inr (0, s)
          else
            let (ret1, s1) =
                  (if config_on_the_fly = - 1
                   then let (r, t) = stm32mp1_set_clksrc p (hdrw p CLK_MPU_HSI) s in
                        if r \<noteq> 0 then (r, t) else pll_stop p U_PLL1 t
                   else (0, s))
            in if ret1 \<noteq> 0 then Inr (ret1, s1)
               else
                 (case pll_config p U_PLL1 pllcfg fracv s1 of
                    Inl e \<Rightarrow> Inl e
                  | Inr (ret2, s2) \<Rightarrow>
                      if ret2 \<noteq> 0 then Inr (ret2, s2)
                      else if config_on_the_fly = - 1
                      then
                        let s3 = pll_start p U_PLL1 s2;
                            (ret3, s4) = pll_output p U_PLL1 (pllcfg ! PLLCFG_O) s3
                        in if ret3 \<noteq> 0 then Inr (ret3, s4)
                           else
                             let (ret4, s5) = stm32mp1_set_clksrc p CLK_MPU_PLL1P s4
                             in if ret4 \<noteq> 0 then Inr (ret4, s5) else Inr (0, s5)
                      else Inr (0, s2)))"

definition pll1_config_from_opp_khz ::
  "plat \<Rightarrow> u32 \<Rightarrow> clk_state \<Rightarrow> fatal + (int \<times> clk_state)" where
  "pll1_config_from_opp_khz p freq_khz s =
     (let idx = find_opp (take (hdr p PLAT_MAX_OPP_NB) (freq (pll1_settings s))) freq_khz 0 in
      if idx = hdr p PLAT_MAX_OPP_NB then Inr (- 1, s)
      else
        case stm32mp1_get_mpu_div p freq_khz s of
          Inl e \<Rightarrow> Inl e
        | Inr dv \<Rightarrow>
            if dv = - 1 then reconfigure_pll1 p idx s
            else if dv = 0 then Inr (stm32mp1_set_clksrc p CLK_MPU_PLL1P s)
            else
              let (ret, s1) = stm32mp1_set_clkdiv p (word_of_int dv) (hdr p RCC_MPCKDIVR) s
              in if ret = 0 then Inr (stm32mp1_set_clksrc p CLK_MPU_PLL1P_DIV s1)
                 else Inr (ret, s1))"

text \<open>\<open>stm32mp1_set_opp_khz\<close>\<close>

definition stm32mp1_set_opp_khz ::
  "plat \<Rightarrow> u32 \<Rightarrow> clk_state \<Rightarrow> fatal + (int \<times> clk_state)" where
  "stm32mp1_set_opp_khz p freq_khz s =
     (if freq_khz = current_opp_khz s then Inr (0, s)
      else if \<not> stm32mp1_clk_pll1_settings_are_valid s then Inr (- 1, s)
      else
        let mpu_src = io_read32 p s (hdr p RCC_MPCKSELR) AND hdrw p RCC_SELR_SRC_MASK in
        if mpu_src \<noteq> hdrw p RCC_MPCKSELR_PLL \<and> mpu_src \<noteq> hdrw p RCC_MPCKSELR_PLL_MPUDIV
        then Inr (- 1, s)
        else
          case pll1_config_from_opp_khz p freq_khz s of
            Inl e \<Rightarrow> Inl e
          | Inr (ret, s1) \<Rightarrow>
              if ret \<noteq> 0
              then (case pll1_config_from_opp_khz p (current_opp_khz s1) s1 of
                      Inl e \<Rightarrow> Inl e
                    | Inr (ret2, s2) \<Rightarrow> if ret2 \<noteq> 0 then Inl Panic else Inr (- 1, s2))
              else Inr (0, s1\<lparr>current_opp_khz := freq_khz\<rparr>))"

section \<open>PLL1 settings of an operating point\<close>

text \<open>
  The constants of \<open>clk_compute_pll1_settings\<close>.  \<open>UINT_MAX\<close> is the largest
  \<open>unsigned int\<close> of the 32-bit platform.
\<close>

definition POST_DIVM_MIN :: nat where "POST_DIVM_MIN = 8000000"
definition POST_DIVM_MAX :: nat where "POST_DIVM_MAX = 16000000"
definition DIVM_MIN :: int where "DIVM_MIN = 0"
definition DIVM_MAX :: int where "DIVM_MAX = 63"
definition DIVN_MIN :: int where "DIVN_MIN = 24"
definition DIVN_MAX :: int where "DIVN_MAX = 99"
definition DIVP_MIN :: int where "DIVP_MIN = 0"
definition DIVP_MAX :: int where "DIVP_MAX = 127"
definition FRAC_MAX :: int where "FRAC_MAX = 8192"
definition VCO_MIN :: nat where "VCO_MIN = 800000000"
definition VCO_MAX :: nat where "VCO_MAX = 1600000000"
definition UINT_MAX :: nat where "UINT_MAX = 2 ^ 32 - 1"

text \<open>
  The conversions of C between the types of the function: an \<open>int\<close> taken as
  \<open>unsigned long\<close> (32 bits) or as \<open>unsigned long long\<close> (64 bits), and the cast
  \<open>(int)\<close> of an unsigned value, which keeps the low 32 bits in two's complement.
  Unsigned values are naturals, with the reduction modulo the width of each operation
  written out; \<open>int\<close> values are integers.
\<close>

definition to_ulong :: "int \<Rightarrow> nat" where
  "to_ulong x = nat (x mod 2 ^ 32)"

definition to_ull :: "int \<Rightarrow> nat" where
  "to_ull x = nat (x mod 2 ^ 64)"

definition to_int :: "nat \<Rightarrow> int" where
  "to_int x = (if x mod 2 ^ 32 < 2 ^ 31 then int (x mod 2 ^ 32) else int (x mod 2 ^ 32) - 2 ^ 32)"

text \<open>
  A loop of the search either falls through to the code after it or leaves the function by
  its \<open>return 0\<close>; the search state is the settings structure and \<open>best_diff\<close>.
\<close>

datatype 'a flow = Early_return 'a | Fall_through 'a

fun for_each :: "('i \<Rightarrow> 's \<Rightarrow> 's flow) \<Rightarrow> 'i list \<Rightarrow> 's \<Rightarrow> 's flow" where
  "for_each body [] st = Fall_through st"
| "for_each body (i # is) st =
     (case body i st of
        Early_return r \<Rightarrow> Early_return r
      | Fall_through st1 \<Rightarrow> for_each body is st1)"

text \<open>The four stores of a recorded candidate.\<close>

definition store_cfg :: "nat \<Rightarrow> u32 \<Rightarrow> u32 \<Rightarrow> u32 \<Rightarrow> u32 \<Rightarrow> pll_settings \<Rightarrow> pll_settings" where
  "store_cfg idx m n pp f ps =
     ps\<lparr>cfg := (cfg ps)[idx := (cfg ps ! idx)[PLLCFG_M := m, PLLCFG_N := n, PLLCFG_P := pp]],
        frac := (frac ps)[idx := f]\<rparr>"

text \<open>
  The body of the loop that refines the fractional part, up to its \<open>frac++\<close>: it
  falls through to \<open>frac++\<close> (also by its \<open>continue\<close>) or returns.
\<close>

definition compute_frac_body ::
  "nat \<Rightarrow> nat \<Rightarrow> nat \<Rightarrow> int \<Rightarrow> int \<Rightarrow> int \<Rightarrow> int \<Rightarrow>
   pll_settings \<times> nat \<Rightarrow> (pll_settings \<times> nat) flow" where
  "compute_frac_body idx post_divm output_freq divm divn divp frc st =
     (let vco = ((post_divm * to_ulong (divn + 1)) mod 2 ^ 32 +
                 ((post_divm * to_ull frc) mod 2 ^ 64) div to_ull FRAC_MAX) mod 2 ^ 64
      in if vco < VCO_MIN div 2 \<or> vco > VCO_MAX div 2 then Fall_through st
         else
           let frq = vco div to_ull (divp + 1);
               diff = (if output_freq < frq then (frq - output_freq) mod 2 ^ 32
                       else (output_freq - frq) mod 2 ^ 32)
           in if diff < snd st
              then let ps1 = store_cfg idx (of_int divm) (of_int divn) (of_int divp)
                               (of_int frc) (fst st)
                   in if diff = 0 then Early_return (ps1, snd st)
                      else Fall_through (ps1, diff)
              else Fall_through st)"

text \<open>
  The loop \<open>for (i = 2; i != 0; i--)\<close>; its first argument is \<open>i\<close>, and it ends
  early by the \<open>break\<close> on \<open>frac > FRAC_MAX\<close>.
\<close>

fun compute_frac_loop ::
  "nat \<Rightarrow> (int \<Rightarrow> pll_settings \<times> nat \<Rightarrow> (pll_settings \<times> nat) flow) \<Rightarrow> int \<Rightarrow>
   pll_settings \<times> nat \<Rightarrow> (pll_settings \<times> nat) flow" where
  "compute_frac_loop 0 body frc st = Fall_through st"
| "compute_frac_loop (Suc i) body frc st =
     (if frc > FRAC_MAX then Fall_through st
      else case body frc st of
             Early_return r \<Rightarrow> Early_return r
           | Fall_through st1 \<Rightarrow> compute_frac_loop i body (frc + 1) st1)"

text \<open>
  The body of the loop on \<open>divp\<close>.  The division by \<open>input_freq\<close> is reached only
  behind the test on \<open>post_divm\<close>, which a null \<open>input_freq\<close> fails.
\<close>

definition compute_divp_body ::
  "nat \<Rightarrow> nat \<Rightarrow> nat \<Rightarrow> nat \<Rightarrow> int \<Rightarrow> int \<Rightarrow>
   pll_settings \<times> nat \<Rightarrow> (pll_settings \<times> nat) flow" where
  "compute_divp_body idx input_freq post_divm output_freq divm divp st =
     (let frq = (((output_freq * to_ull (divm + 1)) mod 2 ^ 64) * to_ull (divp + 1)) mod 2 ^ 64;
          divn = to_int ((frq div input_freq + 2 ^ 64 - 1) mod 2 ^ 64)
      in if divn < DIVN_MIN \<or> divn > DIVN_MAX then Fall_through st
         else
           let frc = to_int ((((frq * to_ull FRAC_MAX) mod 2 ^ 64) div input_freq +
                              2 ^ 64 - to_ull ((divn + 1) * FRAC_MAX)) mod 2 ^ 64)
           in compute_frac_loop 2 (compute_frac_body idx post_divm output_freq divm divn divp)
                frc st)"

text \<open>The body of the loop on \<open>divm\<close>.\<close>

definition compute_divm_body ::
  "nat \<Rightarrow> nat \<Rightarrow> nat \<Rightarrow> int \<Rightarrow> pll_settings \<times> nat \<Rightarrow> (pll_settings \<times> nat) flow" where
  "compute_divm_body idx input_freq output_freq divm st =
     (let post_divm = input_freq div to_ulong (divm + 1)
      in if post_divm < POST_DIVM_MIN \<or> post_divm > POST_DIVM_MAX then Fall_through st
         else for_each (compute_divp_body idx input_freq post_divm output_freq divm)
                [DIVP_MIN .. DIVP_MAX] st)"

text \<open>
  \<open>clk_compute_pll1_settings\<close>: \<open>output_freq\<close> is the 32-bit product
  \<open>pll1_settings.freq[idx] * 1000U\<close>; the loop on \<open>divm\<close> runs from \<open>DIVM_MAX\<close> down to
  \<open>DIVM_MIN\<close>.  The result is the returned \<open>int\<close> and the settings structure.
\<close>

definition compute_search ::
  "plat \<Rightarrow> u32 \<Rightarrow> nat \<Rightarrow> pll_settings \<Rightarrow> (pll_settings \<times> nat) flow" where
  "compute_search p input_freq idx ps =
     for_each (compute_divm_body idx (unat input_freq) (unat (freq ps ! idx * 1000)))
       (rev [DIVM_MIN .. DIVM_MAX])
       (ps\<lparr>cfg := (cfg ps)[idx := (cfg ps ! idx)[PLLCFG_Q := 0, PLLCFG_R := 0,
                                                   PLLCFG_O := hdrw p PQR_1_0_0]]\<rparr>,
        UINT_MAX)"

definition clk_compute_pll1_settings ::
  "plat \<Rightarrow> u32 \<Rightarrow> nat \<Rightarrow> pll_settings \<Rightarrow> int \<times> pll_settings" where
  "clk_compute_pll1_settings p input_freq idx ps =
     (case compute_search p input_freq idx ps of
        Early_return st \<Rightarrow> (0, fst st)
      | Fall_through st \<Rightarrow>
          if snd st = UINT_MAX
          then (- 1, (fst st)\<lparr>cfg := (cfg (fst st))[idx := (cfg (fst st) ! idx)[PLLCFG_O := 0]]\<rparr>)
          else (0, fst st))"

text \<open>
  The search as the specification words it.  A candidate is a divider set \<open>M\<close>, \<open>N\<close>,
  \<open>P\<close>, a fractional value and its absolute frequency error.  The candidates are listed
  in the order of the search: \<open>M\<close> from 63 down to 0 where the reference divided by
  \<open>M + 1\<close> lies in the window of 8 to 16 MHz, \<open>P\<close> from 0 up to 127, the \<open>N\<close>
  derived from the target where it lies in 24 to 99, and the two fractional values of the
  refinement where the VCO they give lies in 400 to 800 MHz.
\<close>

datatype cand = Cand (c_M: nat) (c_N: nat) (c_P: nat) (c_frac: nat) (c_diff: nat)

definition spec_frac_candidates :: "nat \<Rightarrow> nat \<Rightarrow> nat \<Rightarrow> nat \<Rightarrow> nat \<Rightarrow> nat \<Rightarrow> cand list" where
  "spec_frac_candidates post target m n pp f =
     (let vco = post * (n + 1) + post * f div 8192
      in if 400000000 \<le> vco \<and> vco \<le> 800000000
         then [Cand m n pp f (if target < vco div (pp + 1) then vco div (pp + 1) - target
                              else target - vco div (pp + 1))]
         else [])"

definition spec_P_candidates :: "nat \<Rightarrow> nat \<Rightarrow> nat \<Rightarrow> nat \<Rightarrow> cand list" where
  "spec_P_candidates input target m pp =
     (let f = target * (m + 1) * (pp + 1);
          n = f div input - 1;
          f0 = f * 8192 div input - (n + 1) * 8192
      in if 24 \<le> n \<and> n \<le> 99
         then spec_frac_candidates (input div (m + 1)) target m n pp f0 @
              spec_frac_candidates (input div (m + 1)) target m n pp (f0 + 1)
         else [])"

definition spec_M_candidates :: "nat \<Rightarrow> nat \<Rightarrow> nat \<Rightarrow> cand list" where
  "spec_M_candidates input target m =
     (if 8000000 \<le> input div (m + 1) \<and> input div (m + 1) \<le> 16000000
      then concat (map (spec_P_candidates input target m) [0 ..< 128])
      else [])"

definition spec_candidates :: "nat \<Rightarrow> nat \<Rightarrow> cand list" where
  "spec_candidates input target = concat (map (spec_M_candidates input target) (rev [0 ..< 64]))"

text \<open>
  The choice among the candidates: a candidate is recorded only when its error is strictly
  less than the error of the best so far, and a candidate without error ends the search.
\<close>

fun spec_search :: "cand option \<Rightarrow> cand list \<Rightarrow> cand option" where
  "spec_search best [] = best"
| "spec_search best (c # cs) =
     (if (case best of None \<Rightarrow> True | Some b \<Rightarrow> c_diff c < c_diff b)
      then (if c_diff c = 0 then Some c else spec_search (Some c) cs)
      else spec_search best cs)"

text \<open>The recording loop of the code run on a list of candidates.\<close>

fun record_loop :: "nat \<Rightarrow> cand list \<Rightarrow> pll_settings \<times> nat \<Rightarrow> (pll_settings \<times> nat) flow" where
  "record_loop idx [] st = Fall_through st"
| "record_loop idx (c # cs) st =
     (if c_diff c < snd st
      then let ps1 = store_cfg idx (of_nat (c_M c)) (of_nat (c_N c)) (of_nat (c_P c))
                       (of_nat (c_frac c)) (fst st)
           in if c_diff c = 0 then Early_return (ps1, snd st)
              else record_loop idx cs (ps1, c_diff c)
      else record_loop idx cs st)"

text \<open>The settings with a candidate recorded for entry \<open>idx\<close>.\<close>

definition recorded :: "nat \<Rightarrow> cand \<Rightarrow> pll_settings \<Rightarrow> pll_settings" where
  "recorded idx c ps =
     store_cfg idx (of_nat (c_M c)) (of_nat (c_N c)) (of_nat (c_P c)) (of_nat (c_frac c)) ps"

text \<open>
  The search state of the code against the best candidate of the specification: the
  initial settings and \<open>UINT_MAX\<close> when there is none yet, and otherwise the settings
  with that candidate recorded and its error, which is neither zero nor \<open>UINT_MAX\<close>.
\<close>

definition search_rel :: "nat \<Rightarrow> pll_settings \<Rightarrow> cand option \<Rightarrow> pll_settings \<times> nat \<Rightarrow> bool" where
  "search_rel idx ps0 b st =
     (case b of None \<Rightarrow> st = (ps0, UINT_MAX)
      | Some c \<Rightarrow> st = (recorded idx c ps0, c_diff c) \<and> 0 < c_diff c \<and> c_diff c < UINT_MAX)"

section \<open>Suspend and resume\<close>

text \<open>\<open>GENMASK_32(h, l)\<close> of util.h: the bits \<open>l\<close> to \<open>h\<close>.\<close>

definition GENMASK_32 :: "nat \<Rightarrow> nat \<Rightarrow> u32" where
  "GENMASK_32 h l = push_bit l (- 1) AND drop_bit (31 - h) (- 1)"

text \<open>
  The backup tables: the register of each entry and, for a mux, its \<open>bit_len\<close>.  The
  saved \<open>value\<close> of entry \<open>i\<close> is cell \<open>i\<close> of the matching list of the state.
\<close>

definition backup_mux0_cfg :: "plat \<Rightarrow> (nat \<times> nat) list" where
  "backup_mux0_cfg p =
     [(hdr p RCC_SDMMC12CKSELR, 3), (hdr p RCC_SPI2S23CKSELR, 3), (hdr p RCC_SPI45CKSELR, 3),
      (hdr p RCC_I2C12CKSELR, 3), (hdr p RCC_I2C35CKSELR, 3), (hdr p RCC_LPTIM23CKSELR, 3),
      (hdr p RCC_LPTIM45CKSELR, 3), (hdr p RCC_UART24CKSELR, 3), (hdr p RCC_UART35CKSELR, 3),
      (hdr p RCC_UART78CKSELR, 3), (hdr p RCC_SAI1CKSELR, 3), (hdr p RCC_ETHCKSELR, 2),
      (hdr p RCC_I2C46CKSELR, 3), (hdr p RCC_RNG2CKSELR, 2), (hdr p RCC_SDMMC3CKSELR, 3),
      (hdr p RCC_FMCCKSELR, 2), (hdr p RCC_QSPICKSELR, 2), (hdr p RCC_USBCKSELR, 2),
      (hdr p RCC_SPDIFCKSELR, 2), (hdr p RCC_SPI2S1CKSELR, 3), (hdr p RCC_CECCKSELR, 2),
      (hdr p RCC_LPTIM1CKSELR, 3), (hdr p RCC_UART6CKSELR, 3), (hdr p RCC_FDCANCKSELR, 2),
      (hdr p RCC_SAI2CKSELR, 3), (hdr p RCC_SAI3CKSELR, 3), (hdr p RCC_SAI4CKSELR, 3),
      (hdr p RCC_ADCCKSELR, 2), (hdr p RCC_DSICKSELR, 1), (hdr p RCC_CPERCKSELR, 2),
      (hdr p RCC_RNG1CKSELR, 2), (hdr p RCC_STGENCKSELR, 2), (hdr p RCC_UART1CKSELR, 3),
      (hdr p RCC_SPI6CKSELR, 3)]"

definition backup_mux4_cfg :: "plat \<Rightarrow> (nat \<times> nat) list" where
  "backup_mux4_cfg p = [(hdr p RCC_USBCKSELR, 1)]"

definition backup_clock_sc_cfg :: "plat \<Rightarrow> nat list" where
  "backup_clock_sc_cfg p =
     [hdr p RCC_MP_APB1ENSETR, hdr p RCC_MP_APB2ENSETR, hdr p RCC_MP_APB3ENSETR,
      hdr p RCC_MP_APB4ENSETR, hdr p RCC_MP_APB5ENSETR, hdr p RCC_MP_AHB2ENSETR,
      hdr p RCC_MP_AHB3ENSETR, hdr p RCC_MP_AHB4ENSETR, hdr p RCC_MP_AHB5ENSETR,
      hdr p RCC_MP_AHB6ENSETR, hdr p RCC_MP_MLAHBENSETR]"

definition backup_clock_cfg :: "plat \<Rightarrow> nat list" where
  "backup_clock_cfg p =
     [hdr p RCC_TZCR, hdr p RCC_MCO1CFGR, hdr p RCC_MCO2CFGR, hdr p RCC_PLL3CR,
      hdr p RCC_PLL4CR, hdr p RCC_PLL4CFGR2, hdr p RCC_MCUDIVR, hdr p RCC_MSSCKSELR]"

text \<open>\<open>restore_pll34_state\<close>\<close>

definition restore_pll34_state :: "plat \<Rightarrow> clk_state \<Rightarrow> fatal + clk_state" where
  "restore_pll34_state p s =
     (let s1 = (if ctx_pll4cr s AND hdrw p RCC_PLLNCR_PLLON \<noteq> 0
                then pll_start p U_PLL4 s else s)
      in case (if ctx_pll3cr s1 AND hdrw p RCC_PLLNCR_PLLON \<noteq> 0
               then let s2 = pll_start p U_PLL3 s1;
                        (r, s3) = pll_output p U_PLL3
                                    (drop_bit (hdr p RCC_PLLNCR_DIVEN_SHIFT) (ctx_pll3cr s2)) s2
                    in if r \<noteq> 0 then Inl Panic else Inr s3
               else Inr s1) of
           Inl e \<Rightarrow> Inl e
         | Inr s4 \<Rightarrow>
             if ctx_pll4cr s4 AND hdrw p RCC_PLLNCR_PLLON \<noteq> 0
             then let (r, s5) = pll_output p U_PLL4
                                  (drop_bit (hdr p RCC_PLLNCR_DIVEN_SHIFT) (ctx_pll4cr s4)) s4
                  in if r \<noteq> 0 then Inl Panic else Inr s5
             else Inr s4)"

text \<open>
  \<open>restore_mux_cfg\<close>, \<open>restore_sc_cfg\<close> and \<open>restore_regular_cfg\<close>: each loop
  \<open>for (i = 0; i < count; i++)\<close> is a left fold over the indices of its table.
\<close>

definition restore_mux0_step :: "plat \<Rightarrow> clk_state \<Rightarrow> nat \<Rightarrow> clk_state" where
  "restore_mux0_step p s i =
     io_clrsetbits32 p (fst (backup_mux0_cfg p ! i))
       (GENMASK_32 (snd (backup_mux0_cfg p ! i) - 1) 0) (backup_mux0_value s ! i) s"

definition restore_mux4_step :: "plat \<Rightarrow> clk_state \<Rightarrow> nat \<Rightarrow> clk_state" where
  "restore_mux4_step p s i =
     io_clrsetbits32 p (fst (backup_mux4_cfg p ! i))
       (GENMASK_32 (4 + snd (backup_mux4_cfg p ! i) - 1) 4) (backup_mux4_value s ! i) s"

definition restore_mux_cfg :: "plat \<Rightarrow> clk_state \<Rightarrow> clk_state" where
  "restore_mux_cfg p s =
     foldl (restore_mux4_step p)
       (foldl (restore_mux0_step p) s [0 ..< length (backup_mux0_cfg p)])
       [0 ..< length (backup_mux4_cfg p)]"

definition restore_sc_step :: "plat \<Rightarrow> clk_state \<Rightarrow> nat \<Rightarrow> clk_state" where
  "restore_sc_step p s i =
     io_write32 p (backup_clock_sc_cfg p ! i + hdr p RCC_MP_ENCLRR_OFFSET)
       (NOT (backup_clock_sc_value s ! i))
       (io_write32 p (backup_clock_sc_cfg p ! i) (backup_clock_sc_value s ! i) s)"

definition restore_sc_cfg :: "plat \<Rightarrow> clk_state \<Rightarrow> clk_state" where
  "restore_sc_cfg p s = foldl (restore_sc_step p) s [0 ..< length (backup_clock_sc_cfg p)]"

definition restore_regular_step :: "plat \<Rightarrow> clk_state \<Rightarrow> nat \<Rightarrow> clk_state" where
  "restore_regular_step p s i =
     io_write32 p (backup_clock_cfg p ! i) (backup_clock_value s ! i) s"

definition restore_regular_cfg :: "plat \<Rightarrow> clk_state \<Rightarrow> clk_state" where
  "restore_regular_cfg p s =
     foldl (restore_regular_step p) s [0 ..< length (backup_clock_cfg p)]"

definition disable_kernel_clocks :: "plat \<Rightarrow> clk_state \<Rightarrow> clk_state" where
  "disable_kernel_clocks p s =
     io_write32 p (hdr p RCC_OCENCLRR)
       (hdrw p RCC_OCENR_HSIKERON OR hdrw p RCC_OCENR_CSIKERON OR hdrw p RCC_OCENR_HSEKERON) s"

text \<open>
  \<open>stm32_clock_resume\<close>: the four restore steps (\<open>resume_restore\<close>), the loop that
  syncs the gates on their reference counters (\<open>resume_sync_gate\<close> is its body), and
  \<open>disable_kernel_clocks\<close>.
\<close>

definition resume_restore :: "plat \<Rightarrow> clk_state \<Rightarrow> fatal + clk_state" where
  "resume_restore p s =
     (case restore_pll34_state p s of
        Inl e \<Rightarrow> Inl e
      | Inr s1 \<Rightarrow> Inr (restore_regular_cfg p (restore_sc_cfg p (restore_mux_cfg p s1))))"

definition resume_sync_gate :: "plat \<Rightarrow> clk_state \<Rightarrow> nat \<Rightarrow> clk_state" where
  "resume_sync_gate p s idx =
     (let gate = gate_ref p idx in
      if gate_is_non_secure p gate then s
      else if gate_refcounts s ! idx \<noteq> 0 then uu_clk_enable p gate s
      else uu_clk_disable p gate s)"

definition stm32_clock_resume :: "plat \<Rightarrow> clk_state \<Rightarrow> fatal + clk_state" where
  "stm32_clock_resume p s =
     (case resume_restore p s of
        Inl e \<Rightarrow> Inl e
      | Inr s1 \<Rightarrow>
          Inr (disable_kernel_clocks p
                 (foldl (resume_sync_gate p) s1 [0 ..< length (stm32mp1_clk_gate p)])))"

text \<open>
  The storage cell behind a register address, and the enable bit of a gate as the hardware
  holds it.
\<close>

definition reg_cell :: "plat \<Rightarrow> nat \<Rightarrow> nat" where
  "reg_cell p a = (case reg_kind p a of RW \<Rightarrow> a | SetOf c \<Rightarrow> c | ClrOf c \<Rightarrow> c)"

definition gate_hw_bit :: "plat \<Rightarrow> clk_gate \<Rightarrow> nat \<times> nat" where
  "gate_hw_bit p gate = (reg_cell p (gate_offset gate), gate_bit gate)"

text \<open>
  The gate table is consistent for the resume sequence: every gate handled as secure agrees
  with the hardware shape of its register, no two of them share an enable bit, and none
  sits on the register cleared by \<open>disable_kernel_clocks\<close>.
\<close>

definition secure_gates_ok :: "plat \<Rightarrow> bool" where
  "secure_gates_ok p =
     (\<forall>i < length (stm32mp1_clk_gate p).
        \<not> gate_is_non_secure p (gate_ref p i) \<longrightarrow>
          gate_hw_ok p (gate_ref p i) \<and>
          reg_cell p (gate_offset (gate_ref p i)) \<noteq> reg_cell p (hdr p RCC_OCENCLRR) \<and>
          (\<forall>j < length (stm32mp1_clk_gate p).
             j \<noteq> i \<and> \<not> gate_is_non_secure p (gate_ref p j) \<longrightarrow>
               gate_hw_bit p (gate_ref p j) \<noteq> gate_hw_bit p (gate_ref p i)))"

text \<open>A gate shares its enable bit with no gate handled as secure, nor with the kernel clocks.\<close>

definition gate_bit_own :: "plat \<Rightarrow> clk_gate \<Rightarrow> bool" where
  "gate_bit_own p gate =
     (reg_cell p (gate_offset gate) \<noteq> reg_cell p (hdr p RCC_OCENCLRR) \<and>
      (\<forall>j < length (stm32mp1_clk_gate p).
         \<not> gate_is_non_secure p (gate_ref p j) \<longrightarrow>
           gate_hw_bit p (gate_ref p j) \<noteq> gate_hw_bit p gate))"

text \<open>
  Entry \<open>k\<close> of \<open>backup_clock_sc_cfg\<close> is the enable register of a gate: the entry is
  the SET sub-register and, \<open>RCC_MP_ENCLRR_OFFSET\<close> further, the CLEAR sub-register of the
  cell of the gate, and neither a later entry nor an entry of \<open>backup_clock_cfg\<close>, which
  are restored after it, lies on that cell.
\<close>

definition sc_entry_restores :: "plat \<Rightarrow> nat \<Rightarrow> clk_gate \<Rightarrow> bool" where
  "sc_entry_restores p k gate =
     (k < length (backup_clock_sc_cfg p) \<and>
      reg_kind p (backup_clock_sc_cfg p ! k) = SetOf (reg_cell p (gate_offset gate)) \<and>
      reg_kind p (backup_clock_sc_cfg p ! k + hdr p RCC_MP_ENCLRR_OFFSET) =
        ClrOf (reg_cell p (gate_offset gate)) \<and>
      (\<forall>j < length (backup_clock_sc_cfg p). k < j \<longrightarrow>
         reg_cell p (backup_clock_sc_cfg p ! j) \<noteq> reg_cell p (gate_offset gate) \<and>
         reg_cell p (backup_clock_sc_cfg p ! j + hdr p RCC_MP_ENCLRR_OFFSET) \<noteq>
           reg_cell p (gate_offset gate)) \<and>
      (\<forall>a \<in> set (backup_clock_cfg p). reg_cell p a \<noteq> reg_cell p (gate_offset gate)))"

text \<open>No step of the restore sequence writes the register of a gate.\<close>

definition not_restored :: "plat \<Rightarrow> clk_gate \<Rightarrow> bool" where
  "not_restored p gate =
     (reg_cell p (pllxcr (pll_ref p U_PLL3)) \<noteq> reg_cell p (gate_offset gate) \<and>
      reg_cell p (pllxcr (pll_ref p U_PLL4)) \<noteq> reg_cell p (gate_offset gate) \<and>
      (\<forall>x \<in> set (backup_mux0_cfg p). reg_cell p (fst x) \<noteq> reg_cell p (gate_offset gate)) \<and>
      (\<forall>x \<in> set (backup_mux4_cfg p). reg_cell p (fst x) \<noteq> reg_cell p (gate_offset gate)) \<and>
      (\<forall>a \<in> set (backup_clock_sc_cfg p).
         reg_cell p a \<noteq> reg_cell p (gate_offset gate) \<and>
         reg_cell p (a + hdr p RCC_MP_ENCLRR_OFFSET) \<noteq> reg_cell p (gate_offset gate)) \<and>
      (\<forall>a \<in> set (backup_clock_cfg p). reg_cell p a \<noteq> reg_cell p (gate_offset gate)))"

section \<open>An example platform and state\<close>

text \<open>
  A small instance used to run the model: header values in the style of the STM32MP15
  headers, a table of two secure gates (a plain register and a set/clear register) and of
  two non-secure timer gates, and a state with all reference counters at zero.
\<close>

text \<open>The example values of the macros, in the order of their declaration.\<close>

definition ex_hdr_values :: "nat list" where
  "ex_hdr_values =
     [0x20, 0x200, 0x200, 0x280, 0x281, 0x2, 0x10, 0x20, 0x40, 4, 0xF, 0x80000000,
      0x2, 0x7F00, 16, 0x7F0000, 0x7F, 3, 0xFFF8, 0x10000, 0x1, 0x3F0000, 0, 0x1FF,
      24, 0x3000000, 0, 0x7F, 8, 1, 2, 0x7, 0x7, 0x7, 0xF, 1, 16, 0, 1, 2, 0, 1, 2, 3,
      0, 0x8A4, 0x7, 0x3, 0x80000000, 0, 1, 2, 3, 0x884, 0x888, 0x88C, 0x890, 0x894,
      0x898, 0x89C, 0x8A0, 0x824, 0x828, 0x82C, 0x830, 0x834, 0x838, 0x83C, 0x880,
      0x98, 0x9C, 0xA0, 0xA4, 0xD0, 0x800, 0x804, 0x820, 0x40, 0x48, 0x80, 0x84, 0x88,
      0x8C, 0x90, 0x94, 0x0C, 0x10, 0x20, 0x24, 0x28, 0x2C, 0x30, 0x3C, 194, 195, 196,
      197, 205, 206, 210, 0x0, 4, 2, 1, 180, 189, 190, 191, 193, 0x408, 0x8F4, 0x8DC,
      0x8E0, 0x8C0, 0x8C4, 0x930, 0x92C, 0x8E8, 0x8EC, 0x8F0, 0x8C8, 0x8FC, 0xC0,
      0x920, 0x8F8, 0x904, 0x900, 0x91C, 0x914, 0x8D8, 0x918, 0x934, 0x8E4, 0x90C,
      0x8CC, 0x8D0, 0x8D4, 0x928, 0x924, 0xCC, 0xD4, 0xC8, 0xC4, 0xA00, 0xA08, 0xA10,
      0x200, 0x208, 0xA18, 0xA20, 0xA28, 0x210, 0x218, 0xA38]"

fun ex_hdr :: "macro \<Rightarrow> nat" where
  "ex_hdr (Macro k) = ex_hdr_values ! k"

definition ex_gates :: "clk_gate list" where
  "ex_gates =
     [\<lparr>gate_offset = 0xD8, gate_bit = 0, gate_clock_id = 220, gate_set_clr = 0,
       gate_secure = 1, gate_sel = 0xff, gate_fixed = 23\<rparr>,
      \<lparr>gate_offset = 0x208, gate_bit = 11, gate_clock_id = 61, gate_set_clr = 1,
       gate_secure = 1, gate_sel = 0xff, gate_fixed = 28\<rparr>,
      \<lparr>gate_offset = 0xA00, gate_bit = 6, gate_clock_id = 203, gate_set_clr = 1,
       gate_secure = 0, gate_sel = 0xff, gate_fixed = 24\<rparr>,
      \<lparr>gate_offset = 0xA08, gate_bit = 2, gate_clock_id = 208, gate_set_clr = 1,
       gate_secure = 0, gate_sel = 0xff, gate_fixed = 25\<rparr>]"

definition ex_set_regs :: "nat list" where
  "ex_set_regs = [0x0C, 0x200, 0x208, 0x210, 0x218, 0xA00, 0xA08, 0xA10, 0xA18, 0xA20,
                  0xA28, 0xA38]"

definition ex_reg_kind :: "nat \<Rightarrow> reg_kind" where
  "ex_reg_kind a =
     (if a \<in> set ex_set_regs then SetOf a
      else if 4 \<le> a \<and> a - 4 \<in> set ex_set_regs then ClrOf (a - 4)
      else RW)"

definition ex_plat :: plat where
  "ex_plat = \<lparr>hdr = ex_hdr, stm32mp1_clk_gate = ex_gates, stm32mp1_clk_sel = [],
              stm32_rcc_is_secure = True, reg_kind = ex_reg_kind\<rparr>"

definition ex_settings :: pll_settings where
  "ex_settings = \<lparr>valid_id = PLL1_SETTINGS_VALID_ID, freq = [650000, 800000],
                  volt = [1200, 1350], cfg = [[2, 80, 0, 0, 0, 1], [2, 99, 0, 0, 0, 1]],
                  frac = [2048, 0]\<rparr>"

definition ex_state :: clk_state where
  "ex_state = \<lparr>rcc = (\<lambda>a. 0), wlog = [], hw_ready = [],
               stm32mp1_osc = [64000000, 24000000, 4000000, 32000, 32768, 0, 48000000],
               gate_refcounts = [0, 0, 0, 0], pll1_settings = ex_settings,
               current_opp_khz = 650000, ctx_pll3cr = 0, ctx_pll4cr = 0,
               ctx_mssckselr = 0, ctx_mcudivr = 0, backup_mux0_value = [],
               backup_mux4_value = [], backup_clock_sc_value = [],
               backup_clock_value = []\<rparr>"

text \<open>
  States for the PLL engine: PLL1 fed by a 25 MHz HSE with DIVM = 1, DIVN = 49 and no
  fraction; PLL1 fed by the 64 MHz HSI with DIVM = 7, DIVN = 99 and no fraction; PLL1 fed
  by the HSI with DIVM = 0, DIVN = 99 and the fraction enabled with value 0.
\<close>

definition ex_fvco_state :: clk_state where
  "ex_fvco_state =
     ex_state\<lparr>rcc := (\<lambda>a. if a = 0x28 then 1 else if a = 0x84 then 0x10031 else 0),
              stm32mp1_osc := [64000000, 25000000, 4000000, 32000, 32768, 0, 48000000]\<rparr>"

definition ex_hsi_state :: clk_state where
  "ex_hsi_state = ex_state\<lparr>rcc := (\<lambda>a. if a = 0x84 then 0x70063 else 0)\<rparr>"

definition ex_frac_state :: clk_state where
  "ex_frac_state =
     ex_state\<lparr>rcc := (\<lambda>a. if a = 0x84 then 0x63 else if a = 0x8C then 0x10000 else 0)\<rparr>"

text \<open>A state for the timers: the APB1 prescaler divides by two.\<close>

definition ex_tim_state :: clk_state where
  "ex_tim_state = ex_state\<lparr>rcc := (\<lambda>a. if a = 0x834 then 1 else 0)\<rparr>"

text \<open>
  A state for the operating point switch: the CPU runs from PLL1 (leg P, no divider), PLL1
  is fed by the 24 MHz HSE with DIVM = 2, DIVN = 80 and a fraction of 2048, which gives
  650 MHz, and the hardware will raise the next status flag in time.
\<close>

definition ex_opp_state :: clk_state where
  "ex_opp_state =
     ex_state\<lparr>rcc := (\<lambda>a. if a = 0x20 then 2 else if a = 0x28 then 1
                          else if a = 0x84 then 0x20050 else if a = 0x8C then 0x14000 else 0),
              hw_ready := [True]\<rparr>"

text \<open>
  A state for the resume sequence: the first secure gate is held by one consumer while its
  hardware bit is off, the second secure gate is held by nobody while its hardware bit and
  its saved bit are on, the saved bit of the first timer gate is on, PLL3 and PLL4 were
  off at suspend.  And the example platform with the RCC interface left non-secure, with a
  state where every register and every reference counter is zero.
\<close>

definition ex_pm_state :: clk_state where
  "ex_pm_state =
     ex_state\<lparr>rcc := (\<lambda>a. if a = 0x208 then 0x800 else 0),
              gate_refcounts := [1, 0, 0, 0],
              backup_mux0_value := replicate 34 0, backup_mux4_value := [0],
              backup_clock_sc_value := [0x40, 0, 0, 0, 0x800, 0, 0, 0, 0, 0, 0],
              backup_clock_value := replicate 8 0\<rparr>"

definition ex_ns_plat :: plat where
  "ex_ns_plat = ex_plat\<lparr>stm32_rcc_is_secure := False\<rparr>"

definition ex_pm_idle_state :: clk_state where
  "ex_pm_idle_state =
     ex_state\<lparr>backup_mux0_value := replicate 34 0, backup_mux4_value := [0],
              backup_clock_sc_value := replicate 11 0, backup_clock_value := replicate 8 0\<rparr>"

text \<open>Settings with the two operating points of the example and nothing computed yet.\<close>

definition ex_blank_settings :: pll_settings where
  "ex_blank_settings = ex_settings\<lparr>cfg := [[0, 0, 0, 0, 0, 0], [0, 0, 0, 0, 0, 0]], frac := [0, 0]\<rparr>"

section \<open>Gate controller: proofs\<close>

lemma BIT_nonzero: "n < 32 \<Longrightarrow> BIT n \<noteq> 0"
proof -
  assume "n < 32"
  then have "bit (BIT n) n" by (simp add: BIT_def bit_push_bit_iff bit_exp_iff)
  then show ?thesis by auto
qed

lemma or_and_same: "((x::u32) OR b) AND b = b"
  by (simp add: bit_eq_iff bit_and_iff bit_or_iff) 

lemma andnot_and_same: "((x::u32) AND NOT b) AND b = 0"
  by (simp add: bit_eq_iff bit_and_iff bit_not_iff)

lemma get_gated_id_loop_range:
  "get_gated_id_loop gs ident i = r \<Longrightarrow>
     r = - 1 \<or> (int i \<le> r \<and> nat r - i < length gs \<and> gate_clock_id (gs ! (nat r - i)) = ident)"
proof (induction gs arbitrary: i)
  case Nil
  then show ?case by simp
next
  case (Cons g gs)
  show ?case
  proof (cases "gate_clock_id g = ident")
    case True
    with Cons.prems show ?thesis by auto
  next
    case False
    with Cons.prems have "get_gated_id_loop gs ident (Suc i) = r" by simp
    from Cons.IH[OF this] show ?thesis
      by (auto simp: Suc_diff_le nat_le_iff)
  qed
qed

lemma get_gated_id_loop_none:
  "(get_gated_id_loop gs ident i < 0) = (ident \<notin> gate_clock_id ` set gs)"
  by (induction gs arbitrary: i) auto

lemma gated_id_none:
  "(stm32mp1_clk_get_gated_id p ident < 0) =
     (ident \<notin> gate_clock_id ` set (stm32mp1_clk_gate p))"
  by (simp add: stm32mp1_clk_get_gated_id_def get_gated_id_loop_none)

lemma gated_id_some:
  "stm32mp1_clk_get_gated_id p ident = int i \<Longrightarrow>
     i < length (stm32mp1_clk_gate p) \<and> gate_clock_id (gate_ref p i) = ident"
  using get_gated_id_loop_range[of "stm32mp1_clk_gate p" ident 0 "int i"]
  by (auto simp: stm32mp1_clk_get_gated_id_def gate_ref_def)

lemma enabled_after_enable:
  "gate_hw_ok p g \<Longrightarrow> uu_clk_is_enabled p g (uu_clk_enable p g s)"
  by (auto simp: gate_hw_ok_def uu_clk_is_enabled_def uu_clk_enable_def io_read32_def
      io_write32_def io_setbits32_def or_and_same BIT_nonzero split: reg_kind.splits if_splits)

lemma disabled_after_disable:
  "gate_hw_ok p g \<Longrightarrow> \<not> uu_clk_is_enabled p g (uu_clk_disable p g s)"
  by (auto simp: gate_hw_ok_def uu_clk_is_enabled_def uu_clk_disable_def io_read32_def
      io_write32_def io_clrbits32_def andnot_and_same split: reg_kind.splits if_splits)

lemma refcounts_io_write32 [simp]: "gate_refcounts (io_write32 p a v s) = gate_refcounts s"
  by (simp add: io_write32_def)

lemma refcounts_clk_enable [simp]: "gate_refcounts (uu_clk_enable p g s) = gate_refcounts s"
  by (simp add: uu_clk_enable_def io_setbits32_def)

lemma refcounts_clk_disable [simp]: "gate_refcounts (uu_clk_disable p g s) = gate_refcounts s"
  by (simp add: uu_clk_disable_def io_clrbits32_def)

lemma io_read32_refcounts [simp]:
  "io_read32 p (s\<lparr>gate_refcounts := rc\<rparr>) a = io_read32 p s a"
  by (simp add: io_read32_def split: reg_kind.split)

lemma io_write32_refcounts_commute:
  "io_write32 p a v (s\<lparr>gate_refcounts := rc\<rparr>) = (io_write32 p a v s)\<lparr>gate_refcounts := rc\<rparr>"
  by (simp add: io_write32_def split: reg_kind.split)

lemma is_enabled_refcounts [simp]:
  "uu_clk_is_enabled p g (s\<lparr>gate_refcounts := rc\<rparr>) = uu_clk_is_enabled p g s"
  by (simp add: uu_clk_is_enabled_def)

lemma clk_enable_refcounts_commute:
  "uu_clk_enable p g (s\<lparr>gate_refcounts := rc\<rparr>) = (uu_clk_enable p g s)\<lparr>gate_refcounts := rc\<rparr>"
  by (simp add: uu_clk_enable_def io_setbits32_def io_write32_refcounts_commute)

lemma clk_disable_refcounts_commute:
  "uu_clk_disable p g (s\<lparr>gate_refcounts := rc\<rparr>) = (uu_clk_disable p g s)\<lparr>gate_refcounts := rc\<rparr>"
  by (simp add: uu_clk_disable_def io_clrbits32_def io_write32_refcounts_commute)

lemma enable_secure:
  assumes "\<not> clock_is_always_on p ident" "stm32mp1_clk_get_gated_id p ident = int i"
    "\<not> gate_is_non_secure p (gate_ref p i)"
  shows "clk_stm32_enable p ident s =
     Inr (TEE_SUCCESS,
          (if gate_refcounts s ! i = 0 then uu_clk_enable p (gate_ref p i) s else s)
            \<lparr>gate_refcounts := (gate_refcounts s)[i := gate_refcounts s ! i + 1]\<rparr>)"
  using assms by (simp add: clk_stm32_enable_def Let_def)

lemma disable_secure:
  assumes "\<not> clock_is_always_on p ident" "stm32mp1_clk_get_gated_id p ident = int i"
    "\<not> gate_is_non_secure p (gate_ref p i)" "i < length (gate_refcounts s)"
  shows "clk_stm32_disable p ident s =
     (if gate_refcounts s ! i = 0 then Inl AssertFailed
      else Inr ((if gate_refcounts s ! i = 1
                 then uu_clk_disable p (gate_ref p i) s else s)
                \<lparr>gate_refcounts := (gate_refcounts s)[i := gate_refcounts s ! i - 1]\<rparr>))"
  using assms by (simp add: clk_stm32_disable_def Let_def clk_disable_refcounts_commute)

lemma of_nat_u32_nonzero: "0 < m \<Longrightarrow> m < 2 ^ 32 \<Longrightarrow> (of_nat m :: u32) \<noteq> 0"
  by (simp add: of_nat_neq_0)

lemma of_nat_u32_eq_1: "m < 2 ^ 32 \<Longrightarrow> ((of_nat m :: u32) = 1) = (m = 1)"
proof
  assume b: "m < 2 ^ 32" and e: "(of_nat m :: u32) = 1"
  then have "unat (of_nat m :: u32) = 1" by simp
  with b show "m = 1" by (simp add: unat_of_nat)
qed simp

lemma enable_n_from_nonzero:
  assumes "\<not> clock_is_always_on p ident" "stm32mp1_clk_get_gated_id p ident = int i"
    "\<not> gate_is_non_secure p (gate_ref p i)"
  shows "i < length (gate_refcounts s) \<Longrightarrow> gate_refcounts s ! i = of_nat m \<Longrightarrow>
     0 < m \<Longrightarrow> m + n < 2 ^ 32 \<Longrightarrow>
     enable_n p ident n s =
       Inr (s\<lparr>gate_refcounts := (gate_refcounts s)[i := of_nat (m + n)]\<rparr>)"
proof (induction n arbitrary: s m)
  case 0
  then have "(gate_refcounts s)[i := of_nat m] = gate_refcounts s"
    by (metis list_update_id)
  then show ?case by simp
next
  case (Suc n)
  have nz: "(of_nat m :: u32) \<noteq> 0" using Suc.prems by (simp add: of_nat_u32_nonzero)
  let ?s' = "s\<lparr>gate_refcounts := (gate_refcounts s)[i := of_nat (Suc m)]\<rparr>"
  have step: "clk_stm32_enable p ident s = Inr (TEE_SUCCESS, ?s')"
    using enable_secure[OF assms, of s] Suc.prems nz by (simp add: add.commute)
  have len: "i < length (gate_refcounts ?s')" using Suc.prems by simp
  have cnt: "gate_refcounts ?s' ! i = of_nat (Suc m)" using Suc.prems by simp
  have b: "0 < Suc m" "Suc m + n < 2 ^ 32" using Suc.prems by simp_all
  have "enable_n p ident n ?s' =
       Inr (?s'\<lparr>gate_refcounts := (gate_refcounts ?s')[i := of_nat (Suc m + n)]\<rparr>)"
    by (rule Suc.IH[OF len cnt b])
  with step show ?case by simp
qed

lemma disable_n_secure:
  assumes "\<not> clock_is_always_on p ident" "stm32mp1_clk_get_gated_id p ident = int i"
    "\<not> gate_is_non_secure p (gate_ref p i)"
  shows "i < length (gate_refcounts s) \<Longrightarrow> gate_refcounts s ! i = of_nat m \<Longrightarrow>
     m < 2 ^ 32 \<Longrightarrow> k \<le> m \<Longrightarrow>
     disable_n p ident k s =
       Inr ((if k = m \<and> 0 < k then uu_clk_disable p (gate_ref p i) s else s)
              \<lparr>gate_refcounts := (gate_refcounts s)[i := of_nat (m - k)]\<rparr>)"
proof (induction k arbitrary: s m)
  case 0
  then have "(gate_refcounts s)[i := of_nat m] = gate_refcounts s"
    by (metis list_update_id)
  then show ?case by simp
next
  case (Suc k)
  have nz: "(of_nat m :: u32) \<noteq> 0" using Suc.prems by (simp add: of_nat_u32_nonzero)
  have dec: "(of_nat m :: u32) - 1 = of_nat (m - 1)" using Suc.prems by simp
  note ds = disable_secure[OF assms Suc.prems(1)]
  show ?case
  proof (cases "m = 1")
    case True
    with Suc.prems have k0: "k = 0" by simp
    have "clk_stm32_disable p ident s =
        Inr ((uu_clk_disable p (gate_ref p i) s)\<lparr>gate_refcounts := (gate_refcounts s)[i := 0]\<rparr>)"
      using ds Suc.prems(2) True by simp
    with k0 True show ?thesis by simp
  next
    case False
    let ?s' = "s\<lparr>gate_refcounts := (gate_refcounts s)[i := of_nat (m - 1)]\<rparr>"
    have ne1: "(of_nat m :: u32) \<noteq> 1" using False Suc.prems by (simp add: of_nat_u32_eq_1)
    have step: "clk_stm32_disable p ident s = Inr ?s'"
      using ds Suc.prems(2) nz ne1 dec by simp
    have len: "i < length (gate_refcounts ?s')" using Suc.prems by simp
    have cnt: "gate_refcounts ?s' ! i = of_nat (m - 1)" using Suc.prems by simp
    have b: "m - 1 < 2 ^ 32" "k \<le> m - 1" using Suc.prems by simp_all
    have ih: "disable_n p ident k ?s' =
       Inr ((if k = m - 1 \<and> 0 < k then uu_clk_disable p (gate_ref p i) ?s' else ?s')
              \<lparr>gate_refcounts := (gate_refcounts ?s')[i := of_nat (m - 1 - k)]\<rparr>)"
      by (rule Suc.IH[OF len cnt b])
    have kpos: "0 < k" if "k = m - 1" using that False Suc.prems by simp
    have eqk: "(k = m - 1) = (Suc k = m)" using Suc.prems by auto
    have "disable_n p ident (Suc k) s = disable_n p ident k ?s'"
      using step by simp
    also have "\<dots> = Inr ((if Suc k = m \<and> 0 < Suc k then uu_clk_disable p (gate_ref p i) s else s)
              \<lparr>gate_refcounts := (gate_refcounts s)[i := of_nat (m - Suc k)]\<rparr>)"
    proof (cases "Suc k = m")
      case True
      then have "k = m - 1" "0 < k" using kpos eqk by auto
      with ih True show ?thesis by (simp add: clk_disable_refcounts_commute)
    next
      case False
      then have "k \<noteq> m - 1" using eqk by simp
      with ih False show ?thesis by simp
    qed
    finally show ?thesis .
  qed
qed

lemmas macro_defs =
  RCC_OCENR_CSIKERON_def RCC_OCENR_HSEKERON_def CLK_MPU_HSI_def CLK_PLL12_HSI_def CLK_PLL12_HSE_def
  RCC_PLLNCR_PLLRDY_def RCC_PLLNCR_DIVPEN_def RCC_PLLNCR_DIVQEN_def RCC_PLLNCR_DIVREN_def RCC_PLLNCR_DIVEN_SHIFT_def
  RCC_DIVR_DIV_MASK_def RCC_DIVR_DIVRDY_def RCC_OCENR_HSIKERON_def RCC_PLLNCFGR2_DIVQ_MASK_def RCC_PLLNCFGR2_DIVR_SHIFT_def
  RCC_PLLNCFGR2_DIVR_MASK_def RCC_PLLNCFGR2_DIVX_MASK_def RCC_PLLNFRACR_FRACV_SHIFT_def RCC_PLLNFRACR_FRACV_MASK_def RCC_PLLNFRACR_FRACLE_def
  RCC_PLLNCR_PLLON_def RCC_PLLNCFGR1_DIVM_MASK_def RCC_PLLNCFGR1_DIVN_SHIFT_def RCC_PLLNCFGR1_DIVN_MASK_def RCC_PLLNCFGR1_IFRGE_SHIFT_def
  RCC_PLLNCFGR1_IFRGE_MASK_def RCC_PLLNCFGR2_DIVP_SHIFT_def RCC_PLLNCFGR2_DIVP_MASK_def RCC_PLLNCFGR2_DIVQ_SHIFT_def RCC_CPERCKSELR_CSI_def
  RCC_CPERCKSELR_HSE_def RCC_MPUDIV_MASK_def RCC_AXIDIV_MASK_def RCC_APBXDIV_MASK_def RCC_MCUDIV_MASK_def
  RCC_TIMGXPRER_TIMGXPRE_def RCC_PLLNCFGR1_DIVM_SHIFT_def RCC_ASSCKSELR_HSI_def RCC_ASSCKSELR_HSE_def RCC_ASSCKSELR_PLL_def
  RCC_MSSCKSELR_HSI_def RCC_MSSCKSELR_HSE_def RCC_MSSCKSELR_CSI_def RCC_MSSCKSELR_PLL_def RCC_CPERCKSELR_HSI_def
  RCC_PLL4CSGR_def RCC_SELR_SRC_MASK_def RCC_SELR_REFCLK_SRC_MASK_def RCC_SELR_SRCRDY_def RCC_MPCKSELR_HSI_def
  RCC_MPCKSELR_HSE_def RCC_MPCKSELR_PLL_def RCC_MPCKSELR_PLL_MPUDIV_def RCC_PLL3CFGR1_def RCC_PLL3CFGR2_def
  RCC_PLL3FRACR_def RCC_PLL3CSGR_def RCC_PLL4CR_def RCC_PLL4CFGR1_def RCC_PLL4CFGR2_def
  RCC_PLL4FRACR_def RCC_RCK4SELR_def RCC_TIMG1PRER_def RCC_TIMG2PRER_def RCC_MCUDIVR_def
  RCC_APB1DIVR_def RCC_APB2DIVR_def RCC_APB3DIVR_def RCC_PLL3CR_def RCC_PLL2CFGR1_def
  RCC_PLL2CFGR2_def RCC_PLL2FRACR_def RCC_PLL2CSGR_def RCC_CPERCKSELR_def RCC_MCO1CFGR_def
  RCC_MCO2CFGR_def RCC_RCK3SELR_def RCC_APB5DIVR_def RCC_MSSCKSELR_def RCC_PLL1CR_def
  RCC_PLL1CFGR1_def RCC_PLL1CFGR2_def RCC_PLL1FRACR_def RCC_PLL1CSGR_def RCC_PLL2CR_def
  RCC_OCENSETR_def RCC_OCENCLRR_def RCC_MPCKSELR_def RCC_ASSCKSELR_def RCC_RCK12SELR_def
  RCC_MPCKDIVR_def RCC_AXIDIVR_def RCC_APB4DIVR_def CK_MPU_def CK_AXI_def
  CK_MCU_def TIM2_K_def TIM14_K_def TIM1_K_def TIM17_K_def
  RCC_TZCR_def RCC_MP_ENCLRR_OFFSET_def PLAT_MAX_OPP_NB_def PQR_1_0_0_def PLL1_P_def
  PLL4_P_def PLL4_Q_def PLL4_R_def CK_PER_def RCC_MP_RSTSCLRR_def
  RCC_SDMMC12CKSELR_def RCC_SPI2S23CKSELR_def RCC_SPI45CKSELR_def RCC_I2C12CKSELR_def RCC_I2C35CKSELR_def
  RCC_LPTIM23CKSELR_def RCC_LPTIM45CKSELR_def RCC_UART24CKSELR_def RCC_UART35CKSELR_def RCC_UART78CKSELR_def
  RCC_SAI1CKSELR_def RCC_ETHCKSELR_def RCC_I2C46CKSELR_def RCC_RNG2CKSELR_def RCC_SDMMC3CKSELR_def
  RCC_FMCCKSELR_def RCC_QSPICKSELR_def RCC_USBCKSELR_def RCC_SPDIFCKSELR_def RCC_SPI2S1CKSELR_def
  RCC_CECCKSELR_def RCC_LPTIM1CKSELR_def RCC_UART6CKSELR_def RCC_FDCANCKSELR_def RCC_SAI2CKSELR_def
  RCC_SAI3CKSELR_def RCC_SAI4CKSELR_def RCC_ADCCKSELR_def RCC_DSICKSELR_def RCC_RNG1CKSELR_def
  RCC_STGENCKSELR_def RCC_UART1CKSELR_def RCC_SPI6CKSELR_def RCC_MP_APB1ENSETR_def RCC_MP_APB2ENSETR_def
  RCC_MP_APB3ENSETR_def RCC_MP_APB4ENSETR_def RCC_MP_APB5ENSETR_def RCC_MP_AHB2ENSETR_def RCC_MP_AHB3ENSETR_def
  RCC_MP_AHB4ENSETR_def RCC_MP_AHB5ENSETR_def RCC_MP_AHB6ENSETR_def RCC_MP_MLAHBENSETR_def

lemmas ex_hdr_defs = ex_hdr_values_def macro_defs

lemmas ex_defs = ex_plat_def ex_hdr_defs ex_gates_def ex_reg_kind_def ex_set_regs_def ex_state_def
  ex_settings_def

text \<open>
  Claim C5.  For a clock id of the always-on set (an id up to \<open>CK_HSE_DIV2\<close>, a PLL
  leg from \<open>PLL1_P\<close> to \<open>PLL3_R\<close>, \<open>CK_AXI\<close>, \<open>CK_MPU\<close>, \<open>CK_MCU\<close>),
  enable returns success, disable returns, is_enabled answers true, and the state (reference
  counters, registers, trace of register writes) is unchanged, whatever the gate table
  holds.
\<close>

theorem always_on_clock_is_never_gated:
  assumes "ident \<le> CK_HSE_DIV2 \<or> (hdr p PLL1_P \<le> ident \<and> ident \<le> PLL3_R p) \<or>
           ident = hdr p CK_AXI \<or> ident = hdr p CK_MPU \<or> ident = hdr p CK_MCU"
  shows "clock_is_always_on p ident \<and>
         clk_stm32_enable p ident s = Inr (TEE_SUCCESS, s) \<and>
         clk_stm32_disable p ident s = Inr s \<and>
         clk_stm32_is_enabled p ident s = Inr True"
proof -
  from assms have on: "clock_is_always_on p ident"
    by (auto simp: clock_is_always_on_def)
  then show ?thesis
    by (simp add: clk_stm32_enable_def clk_stm32_disable_def clk_stm32_is_enabled_def)
qed

theorem always_on_clock_witness:
  "clock_is_always_on ex_plat 194 \<and>
   clk_stm32_enable ex_plat 194 ex_state = Inr (TEE_SUCCESS, ex_state) \<and>
   clk_stm32_disable ex_plat 194 ex_state = Inr ex_state \<and>
   clk_stm32_is_enabled ex_plat 194 ex_state = Inr True"
proof -
  have "194 = hdr ex_plat CK_MPU" by (simp add: ex_plat_def ex_hdr_defs)
  then show ?thesis using always_on_clock_is_never_gated[of 194 ex_plat ex_state] by blast
qed

text \<open>
  Claim C6, as amended.  For a clock id that is not always-on and has no entry in the gate
  table, enable and disable panic; is_enabled does not: it answers false.
\<close>

theorem unknown_clock_id_outcomes:
  assumes "\<not> clock_is_always_on p ident"
    and "ident \<notin> gate_clock_id ` set (stm32mp1_clk_gate p)"
  shows "clk_stm32_enable p ident s = Inl Panic \<and>
         clk_stm32_disable p ident s = Inl Panic \<and>
         clk_stm32_is_enabled p ident s = Inr False"
proof -
  from assms(2) have "stm32mp1_clk_get_gated_id p ident < 0" by (simp add: gated_id_none)
  with assms(1) show ?thesis
    by (simp add: clk_stm32_enable_def clk_stm32_disable_def clk_stm32_is_enabled_def)
qed

lemma ex_999_unknown:
  "\<not> clock_is_always_on ex_plat 999 \<and> 999 \<notin> gate_clock_id ` set (stm32mp1_clk_gate ex_plat)"
  by (simp add: clock_is_always_on_def ex_plat_def ex_hdr_defs ex_gates_def CK_HSE_DIV2_def
       PLL3_R_def)

theorem unknown_clock_id_witness:
  "clk_stm32_enable ex_plat 999 ex_state = Inl Panic \<and>
   clk_stm32_disable ex_plat 999 ex_state = Inl Panic \<and>
   clk_stm32_is_enabled ex_plat 999 ex_state = Inr False"
  using unknown_clock_id_outcomes[of ex_plat 999 ex_state] ex_999_unknown by blast

text \<open>
  Claim C6 as stated (each of the three operations aborts) fails for is_enabled.
\<close>

theorem unknown_clock_id_is_enabled_returns:
  "\<not> (\<forall>p ident s. \<not> clock_is_always_on p ident \<and>
          ident \<notin> gate_clock_id ` set (stm32mp1_clk_gate p) \<longrightarrow>
          (\<exists>e. clk_stm32_is_enabled p ident s = Inl e))"
proof
  assume "\<forall>p ident s. \<not> clock_is_always_on p ident \<and>
          ident \<notin> gate_clock_id ` set (stm32mp1_clk_gate p) \<longrightarrow>
          (\<exists>e. clk_stm32_is_enabled p ident s = Inl e)"
  with ex_999_unknown obtain e where "clk_stm32_is_enabled ex_plat 999 ex_state = Inl e"
    by blast
  moreover have "stm32mp1_clk_get_gated_id ex_plat 999 < 0"
    using ex_999_unknown by (simp add: gated_id_none)
  ultimately show False using ex_999_unknown
    by (simp add: clk_stm32_is_enabled_def)
qed

lemma wlog_clk_enable:
  "\<exists>v. wlog (uu_clk_enable p g s) = (gate_offset g, v) # wlog s \<and>
       v AND BIT (gate_bit g) = BIT (gate_bit g)"
  by (simp add: uu_clk_enable_def io_setbits32_def io_write32_def or_and_same)

text \<open>
  Claim C7.  For a gate of the non-secure class, and for any gate when the RCC interface
  is non-secure, enable performs the hardware write of \<open>__clk_enable\<close> whatever the
  reference counters hold and leaves them unchanged (one register write, on the gate's
  register, with the gate's bit set in the written value; the bit then reads as enabled
  where the table agrees with the hardware), and disable returns the state unchanged.
\<close>

theorem non_secure_gate_enable_disable:
  assumes "\<not> clock_is_always_on p ident"
    and "stm32mp1_clk_get_gated_id p ident = int i"
    and "gate_secure (gate_ref p i) = N_S \<or> \<not> stm32_rcc_is_secure p"
  shows "clk_stm32_enable p ident s = Inr (TEE_SUCCESS, uu_clk_enable p (gate_ref p i) s) \<and>
         (\<forall>rc. clk_stm32_enable p ident (s\<lparr>gate_refcounts := rc\<rparr>) =
                 Inr (TEE_SUCCESS, (uu_clk_enable p (gate_ref p i) s)\<lparr>gate_refcounts := rc\<rparr>)) \<and>
         gate_refcounts (uu_clk_enable p (gate_ref p i) s) = gate_refcounts s \<and>
         (\<exists>v. wlog (uu_clk_enable p (gate_ref p i) s) = (gate_offset (gate_ref p i), v) # wlog s \<and>
              v AND BIT (gate_bit (gate_ref p i)) = BIT (gate_bit (gate_ref p i))) \<and>
         (gate_hw_ok p (gate_ref p i) \<longrightarrow>
            uu_clk_is_enabled p (gate_ref p i) (uu_clk_enable p (gate_ref p i) s)) \<and>
         clk_stm32_disable p ident s = Inr s \<and>
         (\<forall>rc. clk_stm32_disable p ident (s\<lparr>gate_refcounts := rc\<rparr>) =
                 Inr (s\<lparr>gate_refcounts := rc\<rparr>))"
proof -
  from assms(3) have ns: "gate_is_non_secure p (gate_ref p i)"
    by (simp add: gate_is_non_secure_def)
  have en: "clk_stm32_enable p ident t = Inr (TEE_SUCCESS, uu_clk_enable p (gate_ref p i) t)"
    for t using assms(1,2) ns by (simp add: clk_stm32_enable_def)
  have dis: "clk_stm32_disable p ident t = Inr t" for t
    using assms(1,2) ns by (simp add: clk_stm32_disable_def)
  show ?thesis
    using en dis wlog_clk_enable[of p "gate_ref p i" s] enabled_after_enable[of p "gate_ref p i" s]
    by (simp add: clk_enable_refcounts_commute)
qed

lemma ex_203_gate:
  "\<not> clock_is_always_on ex_plat 203 \<and> stm32mp1_clk_get_gated_id ex_plat 203 = int 2 \<and>
   gate_secure (gate_ref ex_plat 2) = N_S"
  by (simp add: clock_is_always_on_def ex_plat_def ex_hdr_defs ex_gates_def CK_HSE_DIV2_def
       PLL3_R_def stm32mp1_clk_get_gated_id_def gate_ref_def N_S_def)

theorem non_secure_gate_witness:
  "clk_stm32_enable ex_plat 203 ex_state =
     Inr (TEE_SUCCESS, ex_state\<lparr>rcc := (rcc ex_state)(0xA00 := 0x40),
                                 wlog := [(0xA00, 0x40)]\<rparr>) \<and>
   clk_stm32_disable ex_plat 203 ex_state = Inr ex_state"
proof -
  have "uu_clk_enable ex_plat (gate_ref ex_plat 2) ex_state =
          ex_state\<lparr>rcc := (rcc ex_state)(0xA00 := 0x40), wlog := [(0xA00, 0x40)]\<rparr>"
    by (simp add: uu_clk_enable_def io_write32_def gate_ref_def BIT_def ex_plat_def
        ex_gates_def ex_reg_kind_def ex_set_regs_def ex_state_def)
  then show ?thesis
    using non_secure_gate_enable_disable[of ex_plat 203 2 ex_state] ex_203_gate by simp
qed

text \<open>
  Claim C1.  For a clock id that maps to a gate of the secure class while the RCC interface
  is secure: enable increments the gate's counter and performs the hardware write only
  when the counter was zero; disable fails its assertion when the counter is zero, and
  otherwise decrements it and performs the hardware clear only when it was one.  Hence,
  from a counter at zero, after \<open>N\<close> enables (\<open>N\<close> within the range of the 32-bit
  counter) is_enabled is true after fewer than \<open>N\<close> disables, false after the
  \<open>N\<close>-th, and one more disable fails the assertion.
\<close>

theorem secure_gate_refcounting:
  assumes "\<not> clock_is_always_on p ident"
    and "stm32mp1_clk_get_gated_id p ident = int i"
    and "gate_secure (gate_ref p i) = SEC"
    and "stm32_rcc_is_secure p"
    and "i < length (gate_refcounts s)"
  shows "clk_stm32_enable p ident s =
           Inr (TEE_SUCCESS,
                (if gate_refcounts s ! i = 0 then uu_clk_enable p (gate_ref p i) s else s)
                  \<lparr>gate_refcounts := (gate_refcounts s)[i := gate_refcounts s ! i + 1]\<rparr>) \<and>
         clk_stm32_disable p ident s =
           (if gate_refcounts s ! i = 0 then Inl AssertFailed
            else Inr ((if gate_refcounts s ! i = 1
                       then uu_clk_disable p (gate_ref p i) s else s)
                      \<lparr>gate_refcounts := (gate_refcounts s)[i := gate_refcounts s ! i - 1]\<rparr>)) \<and>
         (gate_hw_ok p (gate_ref p i) \<and> gate_refcounts s ! i = 0 \<and> 0 < N \<and> N < 2 ^ 32 \<longrightarrow>
            (\<exists>s1. enable_n p ident N s = Inr s1 \<and>
               (\<forall>k<N. \<exists>s2. disable_n p ident k s1 = Inr s2 \<and>
                             clk_stm32_is_enabled p ident s2 = Inr True) \<and>
               (\<exists>s3. disable_n p ident N s1 = Inr s3 \<and>
                      clk_stm32_is_enabled p ident s3 = Inr False \<and>
                      clk_stm32_disable p ident s3 = Inl AssertFailed)))"
proof -
  have sec: "\<not> gate_is_non_secure p (gate_ref p i)"
    using assms(3,4) by (simp add: gate_is_non_secure_def SEC_def N_S_def)
  note en = enable_secure[OF assms(1,2) sec]
  note dis = disable_secure[OF assms(1,2) sec]
  have ie: "clk_stm32_is_enabled p ident t = Inr (uu_clk_is_enabled p (gate_ref p i) t)" for t
    using assms(1,2) by (simp add: clk_stm32_is_enabled_def)
  have nested: "\<exists>s1. enable_n p ident N s = Inr s1 \<and>
               (\<forall>k<N. \<exists>s2. disable_n p ident k s1 = Inr s2 \<and>
                             clk_stm32_is_enabled p ident s2 = Inr True) \<and>
               (\<exists>s3. disable_n p ident N s1 = Inr s3 \<and>
                      clk_stm32_is_enabled p ident s3 = Inr False \<and>
                      clk_stm32_disable p ident s3 = Inl AssertFailed)"
    if ok: "gate_hw_ok p (gate_ref p i)" and z: "gate_refcounts s ! i = 0"
      and n0: "0 < N" and nb: "N < 2 ^ 32"
  proof -
    let ?g = "gate_ref p i"
    let ?on = "uu_clk_enable p ?g s"
    let ?t = "?on\<lparr>gate_refcounts := (gate_refcounts s)[i := 1]\<rparr>"
    let ?s1 = "?on\<lparr>gate_refcounts := (gate_refcounts s)[i := of_nat N]\<rparr>"
    obtain M where M: "N = Suc M" using n0 by (cases N) auto
    have first: "clk_stm32_enable p ident s = Inr (TEE_SUCCESS, ?t)"
      using en[of s] z by simp
    have tl: "i < length (gate_refcounts ?t)" using assms(5) by simp
    have tc: "gate_refcounts ?t ! i = of_nat 1" using assms(5) by simp
    have "enable_n p ident M ?t =
            Inr (?t\<lparr>gate_refcounts := (gate_refcounts ?t)[i := of_nat (1 + M)]\<rparr>)"
      by (rule enable_n_from_nonzero[OF assms(1,2) sec tl tc]) (use nb M in simp_all)
    with first M have e1: "enable_n p ident N s = Inr ?s1" by simp
    have l1: "i < length (gate_refcounts ?s1)" using assms(5) by simp
    have c1: "gate_refcounts ?s1 ! i = of_nat N" using assms(5) by simp
    have dk: "disable_n p ident k ?s1 =
       Inr ((if k = N \<and> 0 < k then uu_clk_disable p ?g ?s1 else ?s1)
              \<lparr>gate_refcounts := (gate_refcounts ?s1)[i := of_nat (N - k)]\<rparr>)"
      if "k \<le> N" for k
      by (rule disable_n_secure[OF assms(1,2) sec l1 c1 nb that])
    have on: "uu_clk_is_enabled p ?g ?on" using ok by (rule enabled_after_enable)
    have part1: "\<forall>k<N. \<exists>s2. disable_n p ident k ?s1 = Inr s2 \<and>
                             clk_stm32_is_enabled p ident s2 = Inr True"
    proof (intro allI impI)
      fix k assume "k < N"
      then have "disable_n p ident k ?s1 =
          Inr (?s1\<lparr>gate_refcounts := (gate_refcounts ?s1)[i := of_nat (N - k)]\<rparr>)"
        using dk[of k] by simp
      moreover have "clk_stm32_is_enabled p ident
          (?s1\<lparr>gate_refcounts := (gate_refcounts ?s1)[i := of_nat (N - k)]\<rparr>) = Inr True"
        using on by (simp add: ie)
      ultimately show "\<exists>s2. disable_n p ident k ?s1 = Inr s2 \<and>
                             clk_stm32_is_enabled p ident s2 = Inr True" by blast
    qed
    let ?s3 = "(uu_clk_disable p ?g ?s1)
                 \<lparr>gate_refcounts := (gate_refcounts ?s1)[i := of_nat (N - N)]\<rparr>"
    have d3: "disable_n p ident N ?s1 = Inr ?s3" using dk[of N] n0 by simp
    have off: "clk_stm32_is_enabled p ident ?s3 = Inr False"
      using disabled_after_disable[OF ok, of ?s1] by (simp add: ie)
    have l3: "i < length (gate_refcounts ?s3)" using assms(5) by simp
    have c3: "gate_refcounts ?s3 ! i = 0" using assms(5) by simp
    have under: "clk_stm32_disable p ident ?s3 = Inl AssertFailed"
      using dis[OF l3] c3 by simp
    from e1 part1 d3 off under show ?thesis by blast
  qed
  show ?thesis using en[of s] dis[OF assms(5)] nested by blast
qed

lemma ex_61_gate:
  "\<not> clock_is_always_on ex_plat 61 \<and> stm32mp1_clk_get_gated_id ex_plat 61 = int 1 \<and>
   gate_secure (gate_ref ex_plat 1) = SEC \<and> stm32_rcc_is_secure ex_plat \<and>
   1 < length (gate_refcounts ex_state) \<and> gate_hw_ok ex_plat (gate_ref ex_plat 1) \<and>
   gate_refcounts ex_state ! 1 = 0"
  by (simp add: clock_is_always_on_def ex_plat_def ex_hdr_defs ex_gates_def CK_HSE_DIV2_def
       PLL3_R_def stm32mp1_clk_get_gated_id_def gate_ref_def SEC_def
      gate_hw_ok_def ex_reg_kind_def ex_set_regs_def ex_state_def)

theorem secure_gate_refcounting_witness:
  "clk_stm32_disable ex_plat 61 ex_state = Inl AssertFailed \<and>
   (\<exists>s1. enable_n ex_plat 61 3 ex_state = Inr s1 \<and>
      (\<exists>s2. disable_n ex_plat 61 2 s1 = Inr s2 \<and>
             clk_stm32_is_enabled ex_plat 61 s2 = Inr True) \<and>
      (\<exists>s3. disable_n ex_plat 61 3 s1 = Inr s3 \<and>
             clk_stm32_is_enabled ex_plat 61 s3 = Inr False \<and>
             clk_stm32_disable ex_plat 61 s3 = Inl AssertFailed))"
proof -
  have "(2::nat) < 3" "(0::nat) < 3" "(3::nat) < 2 ^ 32" by simp_all
  then show ?thesis
    using secure_gate_refcounting[of ex_plat 61 1 ex_state 3] ex_61_gate by fastforce
qed

section \<open>Rounding a request: proofs\<close>

lemma round_opp_fold_indices:
  "foldl (round_opp_step fs x) r [0 ..< length fs] =
   foldl (\<lambda>r f. if f \<le> x \<and> f > r then f else r) r fs"
proof -
  have st: "round_opp_step fs x = (\<lambda>r i. (\<lambda>r f. if f \<le> x \<and> f > r then f else r) r (fs ! i))"
    by (rule ext)+ (simp add: round_opp_step_def)
  have "foldl (round_opp_step fs x) r [0 ..< length fs] =
        foldl (\<lambda>r f. if f \<le> x \<and> f > r then f else r) r (map ((!) fs) [0 ..< length fs])"
    unfolding st foldl_map ..
  then show ?thesis by (simp add: map_nth)
qed

lemma Max_insert_absorb:
  fixes r :: u32
  assumes "finite T" "a \<in> T" "r \<le> a"
  shows "Max (insert r T) = Max T"
proof -
  have ne: "T \<noteq> {}" using assms(2) by auto
  have "Max (insert r T) = max r (Max T)" using assms(1) ne by (rule Max_insert)
  moreover have "a \<le> Max T" using assms(1,2) by (rule Max_ge)
  then have "r \<le> Max T" using assms(3) by (rule order_trans[rotated])
  ultimately show ?thesis by (simp add: max_absorb2)
qed

lemma round_opp_fold_Max:
  "foldl (\<lambda>r f. if f \<le> x \<and> f > r then f else r) r fs =
   Max (insert r {f \<in> set fs. f \<le> (x::u32)})"
proof (induction fs arbitrary: r)
  case Nil
  then show ?case by simp
next
  case (Cons a fs)
  let ?S = "{f \<in> set fs. f \<le> x}"
  have fin: "finite ?S" by simp
  show ?case
  proof (cases "a \<le> x")
    case False
    then have "{f \<in> set (a # fs). f \<le> x} = ?S" by auto
    with False Cons.IH[of r] show ?thesis by simp
  next
    case ax: True
    then have split: "{f \<in> set (a # fs). f \<le> x} = insert a ?S" by auto
    show ?thesis
    proof (cases "a > r")
      case True
      have "Max (insert r (insert a ?S)) = Max (insert a ?S)"
        by (rule Max_insert_absorb[where a = a]) (use True fin in simp_all)
      with True ax Cons.IH[of a] split show ?thesis by simp
    next
      case False
      have "Max (insert a (insert r ?S)) = Max (insert r ?S)"
        by (rule Max_insert_absorb[where a = r]) (use False fin in simp_all)
      then have "Max (insert r (insert a ?S)) = Max (insert r ?S)"
        by (simp add: insert_commute)
      with False ax Cons.IH[of r] split show ?thesis by simp
    qed
  qed
qed

lemma round_opp_valid:
  assumes "length (freq (pll1_settings s)) = hdr p PLAT_MAX_OPP_NB"
    and "stm32mp1_clk_pll1_settings_are_valid s"
  shows "stm32mp1_round_opp_khz p s x = (0, Max (round_set (freq (pll1_settings s)) x))"
  using assms round_opp_fold_indices[of "freq (pll1_settings s)" x 0]
  by (simp add: stm32mp1_round_opp_khz_def round_opp_fold_Max round_set_def)

lemma round_set_Max_le: "Max (round_set fs x) \<le> x"
  by (simp add: round_set_def)

lemma round_set_Max_in: "Max (round_set fs x) \<in> round_set fs x"
  by (rule Max_in) (simp_all add: round_set_def)

lemma round_set_mono: "x1 \<le> x2 \<Longrightarrow> Max (round_set fs x1) \<le> Max (round_set fs x2)"
  by (rule Max_mono) (auto simp: round_set_def)

lemma round_set_idem: "Max (round_set fs (Max (round_set fs x))) = Max (round_set fs x)"
proof (rule antisym)
  show "Max (round_set fs (Max (round_set fs x))) \<le> Max (round_set fs x)"
    by (rule round_set_Max_le)
  have "Max (round_set fs x) \<in> round_set fs (Max (round_set fs x))"
    using round_set_Max_in[of fs x] by (auto simp: round_set_def)
  then show "Max (round_set fs x) \<le> Max (round_set fs (Max (round_set fs x)))"
    by (intro Max_ge) (simp_all add: round_set_def)
qed

text \<open>
  Claim C9.  \<open>stm32mp1_round_opp_khz\<close> returns 0 and leaves in \<open>*freq_khz\<close>: with a
  valid settings table, the largest table frequency not above the request when there is
  one (and 0 when every table frequency is above the request); without a valid table, the
  current operating point.  The rounding is idempotent and monotonic.
\<close>

theorem round_opp_largest_idempotent_monotonic:
  assumes "length (freq (pll1_settings s)) = hdr p PLAT_MAX_OPP_NB"
  shows "fst (stm32mp1_round_opp_khz p s x) = 0 \<and>
    (stm32mp1_clk_pll1_settings_are_valid s \<longrightarrow>
       ((\<exists>f \<in> set (freq (pll1_settings s)). f \<le> x) \<longrightarrow>
          snd (stm32mp1_round_opp_khz p s x) \<in> set (freq (pll1_settings s)) \<and>
          snd (stm32mp1_round_opp_khz p s x) \<le> x \<and>
          (\<forall>f \<in> set (freq (pll1_settings s)). f \<le> x \<longrightarrow>
               f \<le> snd (stm32mp1_round_opp_khz p s x))) \<and>
       ((\<forall>f \<in> set (freq (pll1_settings s)). x < f) \<longrightarrow>
          snd (stm32mp1_round_opp_khz p s x) = 0)) \<and>
    (\<not> stm32mp1_clk_pll1_settings_are_valid s \<longrightarrow>
       snd (stm32mp1_round_opp_khz p s x) = current_opp_khz s) \<and>
    snd (stm32mp1_round_opp_khz p s (snd (stm32mp1_round_opp_khz p s x))) =
      snd (stm32mp1_round_opp_khz p s x) \<and>
    (x \<le> y \<longrightarrow> snd (stm32mp1_round_opp_khz p s x) \<le> snd (stm32mp1_round_opp_khz p s y))"
proof (cases "stm32mp1_clk_pll1_settings_are_valid s")
  case False
  then show ?thesis by (simp add: stm32mp1_round_opp_khz_def)
next
  case True
  let ?fs = "freq (pll1_settings s)"
  note r = round_opp_valid[OF assms True]
  have in_tab: "Max (round_set ?fs x) \<in> set ?fs" if "\<exists>f \<in> set ?fs. f \<le> x"
  proof (cases "Max (round_set ?fs x) = 0")
    case True
    from that obtain f where f: "f \<in> set ?fs" "f \<le> x" by blast
    then have "f \<le> Max (round_set ?fs x)" by (intro Max_ge) (simp_all add: round_set_def)
    with True have "f = 0" by simp
    with f True show ?thesis by simp
  next
    case False
    with round_set_Max_in[of ?fs x] show ?thesis by (auto simp: round_set_def)
  qed
  have ub: "f \<le> Max (round_set ?fs x)" if "f \<in> set ?fs" "f \<le> x" for f
    using that by (intro Max_ge) (simp_all add: round_set_def)
  have none: "Max (round_set ?fs x) = 0" if "\<forall>f \<in> set ?fs. x < f"
  proof -
    from that have "{f \<in> set ?fs. f \<le> x} = {}" by (auto dest: leD)
    then have "round_set ?fs x = {0}" by (simp only: round_set_def)
    then show ?thesis by simp
  qed
  show ?thesis
    using True in_tab ub none round_set_Max_le[of ?fs x] round_set_idem[of ?fs x]
      round_set_mono[of x y ?fs]
    by (simp add: r)
qed

theorem round_opp_witness:
  "stm32mp1_round_opp_khz ex_plat ex_state 700000 = (0, 650000)"
proof -
  have len: "length (freq (pll1_settings ex_state)) = hdr ex_plat PLAT_MAX_OPP_NB"
    by (simp add: ex_state_def ex_settings_def ex_plat_def ex_hdr_defs)
  have v: "stm32mp1_clk_pll1_settings_are_valid ex_state"
    by (simp add: stm32mp1_clk_pll1_settings_are_valid_def ex_state_def ex_settings_def)
  have tab: "set (freq (pll1_settings ex_state)) = {650000, 800000}"
    by (simp add: ex_state_def ex_settings_def)
  have ex: "\<exists>f \<in> set (freq (pll1_settings ex_state)). f \<le> 700000"
    by (simp add: tab)
  from round_opp_largest_idempotent_monotonic[OF len, of 700000] v ex
  have "fst (stm32mp1_round_opp_khz ex_plat ex_state 700000) = 0"
    and "snd (stm32mp1_round_opp_khz ex_plat ex_state 700000) \<in> {650000, 800000}"
    and "snd (stm32mp1_round_opp_khz ex_plat ex_state 700000) \<le> 700000"
    by (simp_all add: tab)
  then show ?thesis by (cases "stm32mp1_round_opp_khz ex_plat ex_state 700000") auto
qed

section \<open>PLL frequency and rates: proofs\<close>

lemma len64: "LENGTH(64) = 64"
  by simp

lemma unat_u32_bound: "unat (w::u32) < 2 ^ 32"
proof -
  have "unat w < 2 ^ LENGTH(32)" by (rule unsigned_less)
  then show ?thesis by simp
qed

lemma unat_ucast_up: "unat (ucast (w::u32) :: u64) = unat w"
proof -
  have "unat w < 2 ^ 32" by (rule unat_u32_bound)
  then have "unat w < 2 ^ 64" by simp
  then show ?thesis by (simp only: unsigned_ucast_eq take_bit_nat_eq_self len64)
qed

lemma unat_ucast_down: "unat (ucast (w::u64) :: u32) = unat w mod 2 ^ 32"
  by (simp add: unsigned_ucast_eq take_bit_eq_mod)

lemma unat_push_bit_13:
  fixes x :: u64
  assumes "unat x < 2 ^ 51"
  shows "unat (push_bit 13 x) = unat x * 2 ^ 13"
proof -
  have "unat x * 2 ^ 13 < 2 ^ 64" using assms by simp
  then show ?thesis by (simp add: push_bit_eq_mult unat_word_ariths)
qed

lemma unat_ucast_succ:
  fixes w :: u32
  shows "unat ((ucast w :: u64) + 1) = unat w + 1"
proof -
  have "unat w < 2 ^ 32" by (rule unat_u32_bound)
  then have "unat w + 1 < 2 ^ 64" by simp
  then show ?thesis by (simp add: unat_word_ariths unat_ucast_up)
qed

lemma fvco_frac_unat:
  fixes rf dm dn fv :: u32
  assumes "unat rf * ((unat dn + 1) * 2 ^ 13 + unat fv) < 2 ^ 64"
  shows "unat (ucast (((ucast rf :: u64) * (push_bit 13 ((ucast dn :: u64) + 1) + ucast fv))
                 div push_bit 13 ((ucast dm :: u64) + 1)) :: u32) =
         (unat rf * ((unat dn + 1) * 2 ^ 13 + unat fv) div ((unat dm + 1) * 2 ^ 13)) mod 2 ^ 32"
proof -
  have bn: "unat dn < 2 ^ 32" "unat dm < 2 ^ 32" "unat fv < 2 ^ 32" "unat rf < 2 ^ 32"
    by (rule unat_u32_bound)+
  have n2: "unat (push_bit 13 ((ucast dn :: u64) + 1)) = (unat dn + 1) * 2 ^ 13"
    using bn(1) by (subst unat_push_bit_13) (simp_all add: unat_ucast_succ)
  have m2: "unat (push_bit 13 ((ucast dm :: u64) + 1)) = (unat dm + 1) * 2 ^ 13"
    using bn(2) by (subst unat_push_bit_13) (simp_all add: unat_ucast_succ)
  have "(unat dn + 1) * 2 ^ 13 + unat fv < 2 ^ 64" using bn by simp
  then have n3: "unat (push_bit 13 ((ucast dn :: u64) + 1) + (ucast fv :: u64)) =
            (unat dn + 1) * 2 ^ 13 + unat fv"
    by (simp only: unat_word_ariths(1) n2 unat_ucast_up len64 mod_less)
  have n4: "unat ((ucast rf :: u64) * (push_bit 13 ((ucast dn :: u64) + 1) + ucast fv)) =
            unat rf * ((unat dn + 1) * 2 ^ 13 + unat fv)"
    using assms by (simp only: unat_word_ariths(2) n3 unat_ucast_up len64 mod_less)
  show ?thesis
    by (simp only: unat_ucast_down unat_div n4 m2)
qed

lemma fvco_nofrac_unat:
  fixes rf dm dn :: u32
  assumes "unat rf * (unat dn + 1) < 2 ^ 32" "unat dm + 1 < 2 ^ 32"
  shows "unat (rf * (dn + 1) div (dm + 1)) = unat rf * (unat dn + 1) div (unat dm + 1)"
proof -
  have m1: "unat (dm + 1) = unat dm + 1" using assms(2) by (simp add: unat_word_ariths)
  have "unat (rf * (dn + 1)) = (unat rf * ((unat dn + 1) mod 2 ^ 32)) mod 2 ^ 32"
    by (simp add: unat_word_ariths)
  also have "\<dots> = (unat rf * (unat dn + 1)) mod 2 ^ 32"
    by (simp add: mod_mult_right_eq)
  also have "\<dots> = unat rf * (unat dn + 1)" using assms(1) by simp
  finally show ?thesis by (simp add: unat_div m1)
qed

text \<open>
  Claim C4, as amended.  With FRACLE set, and the product
  \<open>refclk * ((divn + 1) * 2^13 + fracv)\<close> within 64 bits (it is for a 9-bit DIVN and a
  13-bit FRACV), the result is that product divided by \<open>(divm + 1) * 2^13\<close>, reduced
  to the 32 bits of \<open>unsigned long\<close>.  With FRACLE clear, and \<open>refclk * (divn + 1)\<close>
  within 32 bits, the result is \<open>refclk * (divn + 1) div (divm + 1)\<close>.  For
  refclk = 25,000,000, divm = 1, divn = 49 and the fraction disabled it is 625,000,000.
\<close>

theorem pll_get_fvco_value:
  "(pll_fracle p pll s \<longrightarrow>
      unat (stm32mp1_pll_get_fref p pll s) *
        ((unat (pll_divn p pll s) + 1) * 2 ^ 13 + unat (pll_fracv p pll s)) < 2 ^ 64 \<longrightarrow>
      unat (stm32mp1_pll_get_fvco p pll s) =
        (unat (stm32mp1_pll_get_fref p pll s) *
           ((unat (pll_divn p pll s) + 1) * 2 ^ 13 + unat (pll_fracv p pll s))
         div ((unat (pll_divm p pll s) + 1) * 2 ^ 13)) mod 2 ^ 32) \<and>
   (\<not> pll_fracle p pll s \<longrightarrow>
      unat (stm32mp1_pll_get_fref p pll s) * (unat (pll_divn p pll s) + 1) < 2 ^ 32 \<longrightarrow>
      unat (pll_divm p pll s) + 1 < 2 ^ 32 \<longrightarrow>
      unat (stm32mp1_pll_get_fvco p pll s) =
        unat (stm32mp1_pll_get_fref p pll s) * (unat (pll_divn p pll s) + 1)
        div (unat (pll_divm p pll s) + 1)) \<and>
   (\<not> pll_fracle p pll s \<longrightarrow> stm32mp1_pll_get_fref p pll s = 25000000 \<longrightarrow>
      pll_divm p pll s = 1 \<longrightarrow> pll_divn p pll s = 49 \<longrightarrow>
      stm32mp1_pll_get_fvco p pll s = 625000000)"
proof (intro conjI impI)
  assume "pll_fracle p pll s"
    and "unat (stm32mp1_pll_get_fref p pll s) *
        ((unat (pll_divn p pll s) + 1) * 2 ^ 13 + unat (pll_fracv p pll s)) < 2 ^ 64"
  then show "unat (stm32mp1_pll_get_fvco p pll s) =
        (unat (stm32mp1_pll_get_fref p pll s) *
           ((unat (pll_divn p pll s) + 1) * 2 ^ 13 + unat (pll_fracv p pll s))
         div ((unat (pll_divm p pll s) + 1) * 2 ^ 13)) mod 2 ^ 32"
    using fvco_frac_unat[of "stm32mp1_pll_get_fref p pll s" "pll_divn p pll s"
        "pll_fracv p pll s" "pll_divm p pll s"]
    by (simp add: stm32mp1_pll_get_fvco_def Let_def)
next
  assume "\<not> pll_fracle p pll s"
    and "unat (stm32mp1_pll_get_fref p pll s) * (unat (pll_divn p pll s) + 1) < 2 ^ 32"
    and "unat (pll_divm p pll s) + 1 < 2 ^ 32"
  then show "unat (stm32mp1_pll_get_fvco p pll s) =
        unat (stm32mp1_pll_get_fref p pll s) * (unat (pll_divn p pll s) + 1)
        div (unat (pll_divm p pll s) + 1)"
    using fvco_nofrac_unat[of "stm32mp1_pll_get_fref p pll s" "pll_divn p pll s"
        "pll_divm p pll s"]
    by (simp add: stm32mp1_pll_get_fvco_def Let_def)
next
  assume "\<not> pll_fracle p pll s" "stm32mp1_pll_get_fref p pll s = 25000000"
    "pll_divm p pll s = 1" "pll_divn p pll s = 49"
  then show "stm32mp1_pll_get_fvco p pll s = 625000000"
    by (simp add: stm32mp1_pll_get_fvco_def Let_def)
qed

lemma ex_hdr_pll1:
  "hdr ex_plat RCC_RCK12SELR = 0x28" "hdr ex_plat RCC_PLL1CFGR1 = 0x84"
  "hdr ex_plat RCC_PLL1CFGR2 = 0x88" "hdr ex_plat RCC_PLL1FRACR = 0x8C"
  "hdr ex_plat RCC_PLL1CR = 0x80" "hdr ex_plat RCC_PLL1CSGR = 0x90"
  "hdr ex_plat RCC_PLLNCFGR1_DIVM_SHIFT = 16"
  "hdr ex_plat RCC_PLLNFRACR_FRACV_SHIFT = 3"
  "hdrw ex_plat RCC_SELR_REFCLK_SRC_MASK = 3"
  "hdrw ex_plat RCC_PLLNCFGR1_DIVM_MASK = 0x3F0000"
  "hdrw ex_plat RCC_PLLNCFGR1_DIVN_MASK = 0x1FF"
  "hdrw ex_plat RCC_PLLNFRACR_FRACV_MASK = 0xFFF8"
  "hdrw ex_plat RCC_PLLNFRACR_FRACLE = 0x10000"
  by (simp_all add: hdrw_def ex_plat_def ex_hdr_defs)

lemma ex_reg_kind_rw:
  "reg_kind ex_plat 0x28 = RW" "reg_kind ex_plat 0x84 = RW" "reg_kind ex_plat 0x8C = RW"
  "reg_kind ex_plat 0x88 = RW"
  by (simp_all add: ex_plat_def ex_reg_kind_def ex_set_regs_def)

lemma ex_fvco_fields:
  "stm32mp1_pll_get_fref ex_plat (pll_ref ex_plat U_PLL1) ex_fvco_state = 25000000"
  "pll_divm ex_plat (pll_ref ex_plat U_PLL1) ex_fvco_state = 1"
  "pll_divn ex_plat (pll_ref ex_plat U_PLL1) ex_fvco_state = 49"
  "\<not> pll_fracle ex_plat (pll_ref ex_plat U_PLL1) ex_fvco_state"
  by (simp_all add: stm32mp1_pll_get_fref_def pll_divm_def pll_divn_def pll_fracle_def
      io_read32_def ex_hdr_pll1 ex_reg_kind_rw ex_fvco_state_def ex_state_def
      osc_frequency_def NB_OSC_def U_HSI_def U_HSE_def U_UNKNOWN_OSC_ID_def)

theorem pll_get_fvco_witness:
  "stm32mp1_pll_get_fvco ex_plat (pll_ref ex_plat U_PLL1) ex_fvco_state = 625000000"
  using pll_get_fvco_value[of ex_plat "pll_ref ex_plat U_PLL1" ex_fvco_state] ex_fvco_fields
  by blast

lemma ex_hsi_fields:
  "stm32mp1_pll_get_fref ex_plat (pll_ref ex_plat U_PLL1) ex_hsi_state = 64000000"
  "pll_divm ex_plat (pll_ref ex_plat U_PLL1) ex_hsi_state = 7"
  "pll_divn ex_plat (pll_ref ex_plat U_PLL1) ex_hsi_state = 99"
  "\<not> pll_fracle ex_plat (pll_ref ex_plat U_PLL1) ex_hsi_state"
  by (simp_all add: stm32mp1_pll_get_fref_def pll_divm_def pll_divn_def pll_fracle_def
      io_read32_def ex_hdr_pll1 ex_reg_kind_rw ex_hsi_state_def ex_state_def
      osc_frequency_def NB_OSC_def U_HSI_def U_HSE_def U_UNKNOWN_OSC_ID_def)

lemma ex_frac_fields:
  "stm32mp1_pll_get_fref ex_plat (pll_ref ex_plat U_PLL1) ex_frac_state = 64000000"
  "pll_divm ex_plat (pll_ref ex_plat U_PLL1) ex_frac_state = 0"
  "pll_divn ex_plat (pll_ref ex_plat U_PLL1) ex_frac_state = 99"
  "pll_fracle ex_plat (pll_ref ex_plat U_PLL1) ex_frac_state"
  "pll_fracv ex_plat (pll_ref ex_plat U_PLL1) ex_frac_state = 0"
  by (simp_all add: stm32mp1_pll_get_fref_def pll_divm_def pll_divn_def pll_fracle_def
      pll_fracv_def
      io_read32_def ex_hdr_pll1 ex_reg_kind_rw ex_frac_state_def ex_state_def
      osc_frequency_def NB_OSC_def U_HSI_def U_HSE_def U_UNKNOWN_OSC_ID_def)

text \<open>
  Claim C4 as stated (the exact quotient in both branches) fails: with the 64 MHz HSI,
  DIVM = 0, DIVN = 99 and a fraction of 0 enabled, the exact quotient is 6,400,000,000 and
  the function returns 2,105,032,704, its low 32 bits.
\<close>

theorem pll_get_fvco_wraps:
  "\<not> (\<forall>p pll s.
        (pll_fracle p pll s \<longrightarrow>
           unat (stm32mp1_pll_get_fvco p pll s) =
             unat (stm32mp1_pll_get_fref p pll s) *
               ((unat (pll_divn p pll s) + 1) * 2 ^ 13 + unat (pll_fracv p pll s))
             div ((unat (pll_divm p pll s) + 1) * 2 ^ 13)) \<and>
        (\<not> pll_fracle p pll s \<longrightarrow>
           unat (stm32mp1_pll_get_fvco p pll s) =
             unat (stm32mp1_pll_get_fref p pll s) * (unat (pll_divn p pll s) + 1)
             div (unat (pll_divm p pll s) + 1)))"
proof
  assume a: "\<forall>p pll s.
        (pll_fracle p pll s \<longrightarrow>
           unat (stm32mp1_pll_get_fvco p pll s) =
             unat (stm32mp1_pll_get_fref p pll s) *
               ((unat (pll_divn p pll s) + 1) * 2 ^ 13 + unat (pll_fracv p pll s))
             div ((unat (pll_divm p pll s) + 1) * 2 ^ 13)) \<and>
        (\<not> pll_fracle p pll s \<longrightarrow>
           unat (stm32mp1_pll_get_fvco p pll s) =
             unat (stm32mp1_pll_get_fref p pll s) * (unat (pll_divn p pll s) + 1)
             div (unat (pll_divm p pll s) + 1))"
  have v: "stm32mp1_pll_get_fvco ex_plat (pll_ref ex_plat U_PLL1) ex_frac_state = 2105032704"
    by (simp del: pll_ref.simps add: stm32mp1_pll_get_fvco_def Let_def ex_frac_fields)
  from a have "pll_fracle ex_plat (pll_ref ex_plat U_PLL1) ex_frac_state \<longrightarrow>
           unat (stm32mp1_pll_get_fvco ex_plat (pll_ref ex_plat U_PLL1) ex_frac_state) =
             unat (stm32mp1_pll_get_fref ex_plat (pll_ref ex_plat U_PLL1) ex_frac_state) *
               ((unat (pll_divn ex_plat (pll_ref ex_plat U_PLL1) ex_frac_state) + 1) * 2 ^ 13 +
                unat (pll_fracv ex_plat (pll_ref ex_plat U_PLL1) ex_frac_state))
             div ((unat (pll_divm ex_plat (pll_ref ex_plat U_PLL1) ex_frac_state) + 1) * 2 ^ 13)"
    by blast
  then show False
    by (simp del: pll_ref.simps add: v ex_frac_fields)
qed

text \<open>
  Without the fraction the product \<open>refclk * (divn + 1)\<close> itself is taken on 32 bits:
  with the 64 MHz HSI, DIVM = 7 and DIVN = 99 the function returns 263,129,088 where
  64,000,000 * 100 div 8 is 800,000,000.
\<close>

theorem pll_get_fvco_32_bit_product:
  "stm32mp1_pll_get_fref ex_plat (pll_ref ex_plat U_PLL1) ex_hsi_state = 64000000 \<and>
   pll_divm ex_plat (pll_ref ex_plat U_PLL1) ex_hsi_state = 7 \<and>
   pll_divn ex_plat (pll_ref ex_plat U_PLL1) ex_hsi_state = 99 \<and>
   \<not> pll_fracle ex_plat (pll_ref ex_plat U_PLL1) ex_hsi_state \<and>
   stm32mp1_pll_get_fvco ex_plat (pll_ref ex_plat U_PLL1) ex_hsi_state = 263129088 \<and>
   (64000000 * (99 + 1) div (7 + 1) :: nat) = 800000000"
  by (simp del: pll_ref.simps add: stm32mp1_pll_get_fvco_def Let_def ex_hsi_fields)

lemma get_rate_timer1:
  assumes "hdr p TIM14_K < hdr p TIM1_K" "hdr p TIM2_K \<le> ident \<and> ident \<le> hdr p TIM14_K"
  shows "clk_stm32_get_rate p ident s =
          (case uu_clk_get_parent p ident s of
             Inl e \<Rightarrow> Inl e
           | Inr par \<Rightarrow>
               Inr (timer_rule (io_read32 p s (hdr p RCC_APB1DIVR) AND hdrw p RCC_APBXDIV_MASK)
                      (io_read32 p s (hdr p RCC_TIMG1PRER) AND hdrw p RCC_TIMGXPRER_TIMGXPRE)
                      (if par < 0 then 0 else uu_clk_get_parent_rate p (nat par) s)))"
proof -
  from assms(2) have c1: "(hdr p TIM2_K \<le> ident \<and> ident \<le> hdr p TIM14_K) = True" by simp
  from assms have c2: "(hdr p TIM1_K \<le> ident \<and> ident \<le> hdr p TIM17_K) = False" by simp
  show ?thesis
    by (simp add: clk_stm32_get_rate_def get_timer_rate_def timer_rule_def Let_def c1 c2
        split: sum.split)
qed

lemma get_rate_timer2:
  assumes "hdr p TIM14_K < hdr p TIM1_K" "hdr p TIM1_K \<le> ident \<and> ident \<le> hdr p TIM17_K"
  shows "clk_stm32_get_rate p ident s =
          (case uu_clk_get_parent p ident s of
             Inl e \<Rightarrow> Inl e
           | Inr par \<Rightarrow>
               Inr (timer_rule (io_read32 p s (hdr p RCC_APB2DIVR) AND hdrw p RCC_APBXDIV_MASK)
                      (io_read32 p s (hdr p RCC_TIMG2PRER) AND hdrw p RCC_TIMGXPRER_TIMGXPRE)
                      (if par < 0 then 0 else uu_clk_get_parent_rate p (nat par) s)))"
proof -
  from assms(2) have c2: "(hdr p TIM1_K \<le> ident \<and> ident \<le> hdr p TIM17_K) = True" by simp
  from assms have c1: "(hdr p TIM2_K \<le> ident \<and> ident \<le> hdr p TIM14_K) = False" by simp
  show ?thesis
    by (simp add: clk_stm32_get_rate_def get_timer_rate_def timer_rule_def Let_def c1 c2
        split: sum.split)
qed

lemma get_parent_returns:
  "(\<exists>par. uu_clk_get_parent p ident s = Inr par) =
     (clock_id2parent_id p ident \<noteq> U_UNKNOWN_ID \<or>
      (0 \<le> stm32mp1_clk_get_gated_id p ident \<and>
       (gate_fixed (gate_ref p (nat (stm32mp1_clk_get_gated_id p ident))) < U_PARENT_NB \<or>
        gate_sel (gate_ref p (nat (stm32mp1_clk_get_gated_id p ident))) = U_UNKNOWN_SEL \<or>
        gate_sel (gate_ref p (nat (stm32mp1_clk_get_gated_id p ident))) < U_PARENT_SEL_NB)))"
  by (auto simp: uu_clk_get_parent_def Let_def)

text \<open>
  Claim C10, as amended.  For a clock id in the APB1 timer range \<open>TIM2_K\<close> .. \<open>TIM14_K\<close>,
  or in the APB2 timer range \<open>TIM1_K\<close> .. \<open>TIM17_K\<close> (the first range lying below the
  second, as in the header), \<open>clk_stm32_get_rate\<close> first resolves the parent, and aborts
  where that aborts; where it returns, the rate is the timer rule of that bus applied to
  the resolved parent rate (0 when no parent is selected): the parent rate when the field
  APBxDIV of the bus is zero, and otherwise the parent rate times (TIMGxPRE + 1) * 2, where
  TIMGxPRE is the timer prescaler bit of the bus.  The parent resolution returns exactly
  for an id that is a parent clock or has an entry in the gate table with a fixed parent,
  no selector, or a selector of the table; for an id that is neither a parent clock nor in
  the gate table, \<open>clk_stm32_get_rate\<close> panics.  The product is taken on 32 bits; it is
  the exact product whenever that fits 32 bits.
\<close>

theorem timer_clock_rate:
  assumes "hdr p TIM14_K < hdr p TIM1_K"
  shows
    "(hdr p TIM2_K \<le> ident \<and> ident \<le> hdr p TIM14_K \<longrightarrow>
        clk_stm32_get_rate p ident s =
          (case uu_clk_get_parent p ident s of
             Inl e \<Rightarrow> Inl e
           | Inr par \<Rightarrow>
               Inr (timer_rule (io_read32 p s (hdr p RCC_APB1DIVR) AND hdrw p RCC_APBXDIV_MASK)
                      (io_read32 p s (hdr p RCC_TIMG1PRER) AND hdrw p RCC_TIMGXPRER_TIMGXPRE)
                      (if par < 0 then 0 else uu_clk_get_parent_rate p (nat par) s)))) \<and>
     (hdr p TIM1_K \<le> ident \<and> ident \<le> hdr p TIM17_K \<longrightarrow>
        clk_stm32_get_rate p ident s =
          (case uu_clk_get_parent p ident s of
             Inl e \<Rightarrow> Inl e
           | Inr par \<Rightarrow>
               Inr (timer_rule (io_read32 p s (hdr p RCC_APB2DIVR) AND hdrw p RCC_APBXDIV_MASK)
                      (io_read32 p s (hdr p RCC_TIMG2PRER) AND hdrw p RCC_TIMGXPRER_TIMGXPRE)
                      (if par < 0 then 0 else uu_clk_get_parent_rate p (nat par) s)))) \<and>
     ((\<exists>par. uu_clk_get_parent p ident s = Inr par) =
        (clock_id2parent_id p ident \<noteq> U_UNKNOWN_ID \<or>
         (0 \<le> stm32mp1_clk_get_gated_id p ident \<and>
          (gate_fixed (gate_ref p (nat (stm32mp1_clk_get_gated_id p ident))) < U_PARENT_NB \<or>
           gate_sel (gate_ref p (nat (stm32mp1_clk_get_gated_id p ident))) = U_UNKNOWN_SEL \<or>
           gate_sel (gate_ref p (nat (stm32mp1_clk_get_gated_id p ident))) < U_PARENT_SEL_NB)))) \<and>
     (clock_id2parent_id p ident = U_UNKNOWN_ID \<and> stm32mp1_clk_get_gated_id p ident < 0 \<longrightarrow>
        clk_stm32_get_rate p ident s = Inl Panic) \<and>
     (unat rate * (unat pre + 1) * 2 < 2 ^ 32 \<longrightarrow>
        unat (timer_rule d pre rate) =
          (if d = 0 then unat rate else unat rate * (unat pre + 1) * 2))"
proof (intro conjI impI)
  assume "hdr p TIM2_K \<le> ident \<and> ident \<le> hdr p TIM14_K"
  with assms show "clk_stm32_get_rate p ident s =
          (case uu_clk_get_parent p ident s of
             Inl e \<Rightarrow> Inl e
           | Inr par \<Rightarrow>
               Inr (timer_rule (io_read32 p s (hdr p RCC_APB1DIVR) AND hdrw p RCC_APBXDIV_MASK)
                      (io_read32 p s (hdr p RCC_TIMG1PRER) AND hdrw p RCC_TIMGXPRER_TIMGXPRE)
                      (if par < 0 then 0 else uu_clk_get_parent_rate p (nat par) s)))"
    by (rule get_rate_timer1)
next
  assume "hdr p TIM1_K \<le> ident \<and> ident \<le> hdr p TIM17_K"
  with assms show "clk_stm32_get_rate p ident s =
          (case uu_clk_get_parent p ident s of
             Inl e \<Rightarrow> Inl e
           | Inr par \<Rightarrow>
               Inr (timer_rule (io_read32 p s (hdr p RCC_APB2DIVR) AND hdrw p RCC_APBXDIV_MASK)
                      (io_read32 p s (hdr p RCC_TIMG2PRER) AND hdrw p RCC_TIMGXPRER_TIMGXPRE)
                      (if par < 0 then 0 else uu_clk_get_parent_rate p (nat par) s)))"
    by (rule get_rate_timer2)
next
  show "(\<exists>par. uu_clk_get_parent p ident s = Inr par) =
        (clock_id2parent_id p ident \<noteq> U_UNKNOWN_ID \<or>
         (0 \<le> stm32mp1_clk_get_gated_id p ident \<and>
          (gate_fixed (gate_ref p (nat (stm32mp1_clk_get_gated_id p ident))) < U_PARENT_NB \<or>
           gate_sel (gate_ref p (nat (stm32mp1_clk_get_gated_id p ident))) = U_UNKNOWN_SEL \<or>
           gate_sel (gate_ref p (nat (stm32mp1_clk_get_gated_id p ident))) < U_PARENT_SEL_NB)))"
    by (rule get_parent_returns)
next
  assume "clock_id2parent_id p ident = U_UNKNOWN_ID \<and> stm32mp1_clk_get_gated_id p ident < 0"
  then show "clk_stm32_get_rate p ident s = Inl Panic"
    by (simp add: clk_stm32_get_rate_def uu_clk_get_parent_def Let_def)
next
  assume b: "unat rate * (unat pre + 1) * 2 < 2 ^ 32"
  show "unat (timer_rule d pre rate) =
          (if d = 0 then unat rate else unat rate * (unat pre + 1) * 2)"
  proof (cases "unat rate = 0")
    case True
    then have "rate = 0" by (simp add: unat_eq_0)
    then show ?thesis by (simp add: timer_rule_def)
  next
    case False
    then have pos: "0 < unat rate" by simp
    have "1 * ((unat pre + 1) * 2) \<le> unat rate * ((unat pre + 1) * 2)"
      by (rule mult_le_mono1) (use pos in simp)
    then have "(unat pre + 1) * 2 \<le> unat rate * (unat pre + 1) * 2"
      by (simp only: mult_1 mult.assoc)
    then have q: "(unat pre + 1) * 2 < 2 ^ 32" using b by (rule le_less_trans)
    then have p1: "unat (pre + 1) = unat pre + 1" by (simp add: unat_word_ariths)
    have "unat rate * unat (pre + 1) < 2 ^ LENGTH(32)" using b p1 by simp
    then have m1: "unat (rate * (pre + 1)) = unat rate * (unat pre + 1)"
      using p1 by (simp add: unat_mult_lem[THEN iffD1])
    have "unat (rate * (pre + 1)) * unat (2::u32) < 2 ^ LENGTH(32)" using b m1 by simp
    then have "unat (rate * (pre + 1) * 2) = unat (rate * (pre + 1)) * unat (2::u32)"
      by (rule unat_mult_lem[THEN iffD1])
    with m1 show ?thesis by (simp add: timer_rule_def)
  qed
qed

lemma ex_203_parent: "uu_clk_get_parent ex_plat 203 ex_tim_state = Inr 24"
  by (simp add: uu_clk_get_parent_def clock_id2parent_id_def parent_id_clock_id_def
      stm32mp1_clk_get_gated_id_def gate_ref_def Let_def
      CK_HSI_def CK_HSE_def CK_CSI_def CK_LSI_def CK_LSE_def CK_HSE_DIV2_def
      PLL1_Q_def PLL1_R_def PLL2_P_def PLL2_Q_def PLL2_R_def PLL3_P_def PLL3_Q_def PLL3_R_def
      U_UNKNOWN_ID_def U_PARENT_NB_def ex_plat_def ex_gates_def ex_hdr_defs)

lemma ex_pclk1_rate: "uu_clk_get_parent_rate ex_plat 24 ex_tim_state = 32000000"
  by (simp add: uu_clk_get_parent_rate_def mcu_rate_def apbx_shift_def io_read32_def
      osc_frequency_def hdrw_def Let_def stm32mp1_mcu_div_def stm32mp1_mpu_apbx_div_def
      U_CK_MPU_def U_ACLK_def U_HCLK2_def U_HCLK6_def U_PCLK4_def U_PCLK5_def
      U_CK_MCU_def U_PCLK1_def U_PCLK2_def U_PCLK3_def U_HSI_def NB_OSC_def
      ex_plat_def ex_reg_kind_def ex_set_regs_def ex_tim_state_def ex_state_def ex_hdr_defs)

theorem timer_clock_rate_witness:
  "clk_stm32_get_rate ex_plat 203 ex_tim_state = Inr 64000000"
proof -
  have h: "hdr ex_plat TIM14_K < hdr ex_plat TIM1_K"
    "hdr ex_plat TIM2_K \<le> 203 \<and> 203 \<le> hdr ex_plat TIM14_K"
    by (simp_all add: ex_plat_def ex_hdr_defs)
  have regs: "io_read32 ex_plat ex_tim_state (hdr ex_plat RCC_APB1DIVR)
                AND hdrw ex_plat RCC_APBXDIV_MASK = 1"
    "io_read32 ex_plat ex_tim_state (hdr ex_plat RCC_TIMG1PRER)
                AND hdrw ex_plat RCC_TIMGXPRER_TIMGXPRE = 0"
    by (simp_all add: io_read32_def hdrw_def ex_plat_def ex_reg_kind_def ex_set_regs_def ex_tim_state_def
        ex_state_def ex_hdr_defs)
  from timer_clock_rate[OF h(1), of 203 ex_tim_state] h(2)
  have "clk_stm32_get_rate ex_plat 203 ex_tim_state =
          (case uu_clk_get_parent ex_plat 203 ex_tim_state of
             Inl e \<Rightarrow> Inl e
           | Inr par \<Rightarrow>
               Inr (timer_rule (io_read32 ex_plat ex_tim_state (hdr ex_plat RCC_APB1DIVR)
                                  AND hdrw ex_plat RCC_APBXDIV_MASK)
                      (io_read32 ex_plat ex_tim_state (hdr ex_plat RCC_TIMG1PRER)
                         AND hdrw ex_plat RCC_TIMGXPRER_TIMGXPRE)
                      (if par < 0 then 0
                       else uu_clk_get_parent_rate ex_plat (nat par) ex_tim_state)))"
    by blast
  then show ?thesis
    by (simp only: regs ex_203_parent) (simp add: ex_pclk1_rate timer_rule_def)
qed

text \<open>
  Claim C10 as worded fails for a timer id without an entry in the gate table: the table
  of the example holds \<open>TIM12_K\<close> (203) and \<open>TIM15_K\<close> (208) as the table of the driver
  does, and the rate of 197, the first id of the APB1 timer range, is a panic.
\<close>

theorem timer_without_gate_panics:
  "hdr ex_plat TIM2_K \<le> 197 \<and> 197 \<le> hdr ex_plat TIM14_K \<and>
   clk_stm32_get_rate ex_plat 197 ex_tim_state = Inl Panic"
  by (simp add: clk_stm32_get_rate_def uu_clk_get_parent_def clock_id2parent_id_def
      parent_id_clock_id_def stm32mp1_clk_get_gated_id_def gate_ref_def Let_def
      CK_HSI_def CK_HSE_def CK_CSI_def CK_LSI_def CK_LSE_def CK_HSE_DIV2_def
      PLL1_Q_def PLL1_R_def PLL2_P_def PLL2_Q_def PLL2_R_def PLL3_P_def PLL3_Q_def PLL3_R_def
      U_UNKNOWN_ID_def U_PARENT_NB_def ex_plat_def ex_gates_def ex_hdr_defs)

section \<open>Operating point switch: proofs\<close>

text \<open>
  Claim C3.  \<open>stm32mp1_set_opp_khz\<close> returns 0 and leaves the state as it is (no register
  write is traced) when the request is the current operating point.  For any other request
  it returns -1 and leaves the state as it is when the settings table is not valid, and
  when the MPU source field is neither PLL1 nor PLL1 with divider.  Otherwise it runs
  \<open>pll1_config_from_opp_khz\<close> for the request: a return code of 0 makes the request the
  current operating point and the result 0; any other return code makes it run the same
  procedure for the current operating point, and the result is -1 when that returns 0 and
  a panic when it does not.
\<close>

theorem set_opp_outcomes:
  "(freq_khz = current_opp_khz s \<longrightarrow> stm32mp1_set_opp_khz p freq_khz s = Inr (0, s)) \<and>
   (freq_khz \<noteq> current_opp_khz s \<and> \<not> stm32mp1_clk_pll1_settings_are_valid s \<longrightarrow>
      stm32mp1_set_opp_khz p freq_khz s = Inr (- 1, s)) \<and>
   (freq_khz \<noteq> current_opp_khz s \<and>
    io_read32 p s (hdr p RCC_MPCKSELR) AND hdrw p RCC_SELR_SRC_MASK \<noteq> hdrw p RCC_MPCKSELR_PLL \<and>
    io_read32 p s (hdr p RCC_MPCKSELR) AND hdrw p RCC_SELR_SRC_MASK
      \<noteq> hdrw p RCC_MPCKSELR_PLL_MPUDIV \<longrightarrow>
      stm32mp1_set_opp_khz p freq_khz s = Inr (- 1, s)) \<and>
   (freq_khz \<noteq> current_opp_khz s \<and> stm32mp1_clk_pll1_settings_are_valid s \<and>
    (io_read32 p s (hdr p RCC_MPCKSELR) AND hdrw p RCC_SELR_SRC_MASK = hdrw p RCC_MPCKSELR_PLL \<or>
     io_read32 p s (hdr p RCC_MPCKSELR) AND hdrw p RCC_SELR_SRC_MASK
       = hdrw p RCC_MPCKSELR_PLL_MPUDIV) \<longrightarrow>
      stm32mp1_set_opp_khz p freq_khz s =
        (case pll1_config_from_opp_khz p freq_khz s of
           Inl e \<Rightarrow> Inl e
         | Inr (ret, s1) \<Rightarrow>
             if ret = 0 then Inr (0, s1\<lparr>current_opp_khz := freq_khz\<rparr>)
             else (case pll1_config_from_opp_khz p (current_opp_khz s1) s1 of
                     Inl e \<Rightarrow> Inl e
                   | Inr (ret2, s2) \<Rightarrow> if ret2 = 0 then Inr (- 1, s2) else Inl Panic)))"
  by (auto simp: stm32mp1_set_opp_khz_def Let_def split: sum.splits prod.splits)

lemma ex_opp_basics:
  "current_opp_khz ex_opp_state = 650000"
  "stm32mp1_clk_pll1_settings_are_valid ex_opp_state"
  "io_read32 ex_plat ex_opp_state (hdr ex_plat RCC_MPCKSELR) AND hdrw ex_plat RCC_SELR_SRC_MASK
     = hdrw ex_plat RCC_MPCKSELR_PLL"
  by (simp_all add: ex_opp_state_def ex_state_def ex_settings_def
      stm32mp1_clk_pll1_settings_are_valid_def io_read32_def hdrw_def ex_plat_def
      ex_reg_kind_def ex_set_regs_def ex_hdr_defs)

lemma ex_opp_not_found:
  "pll1_config_from_opp_khz ex_plat 700000 s = Inr (- 1, s)"
  if "freq (pll1_settings s) = [650000, 800000]"
  using that by (simp add: pll1_config_from_opp_khz_def ex_plat_def ex_hdr_defs)

lemma ex_opp_pll1_p:
  "uu_clk_get_parent_rate ex_plat U_PLL1_P ex_opp_state = 650000000"
  by (simp add: uu_clk_get_parent_rate_def stm32mp1_read_pll_freq_def
      stm32mp1_pll_get_fvco_def stm32mp1_pll_get_fref_def pll_divm_def pll_divn_def
      pll_fracle_def pll_fracv_def osc_frequency_def io_read32_def hdrw_def Let_def
      U_CK_MPU_def U_ACLK_def U_HCLK2_def U_HCLK6_def U_PCLK4_def U_PCLK5_def
      U_CK_MCU_def U_PCLK1_def U_PCLK2_def U_PCLK3_def U_CK_PER_def U_HSI_def U_HSI_KER_def
      U_CSI_def U_CSI_KER_def U_HSE_def U_HSE_KER_def U_HSE_KER_DIV2_def U_LSI_def U_LSE_def
      U_PLL1_P_def U_UNKNOWN_OSC_ID_def NB_OSC_def
      ex_opp_state_def ex_state_def ex_plat_def ex_reg_kind_def ex_set_regs_def ex_hdr_defs)


lemma ex_opp_mpu_div: "stm32mp1_get_mpu_div ex_plat 650000 (ex_opp_state\<lparr>hw_ready := h\<rparr>) = Inr 0"
proof -
  have "uu_clk_get_parent_rate ex_plat U_PLL1_P (ex_opp_state\<lparr>hw_ready := h\<rparr>) =
        uu_clk_get_parent_rate ex_plat U_PLL1_P ex_opp_state"
    by (simp add: uu_clk_get_parent_rate_def stm32mp1_read_pll_freq_def
      stm32mp1_pll_get_fvco_def stm32mp1_pll_get_fref_def pll_divm_def pll_divn_def
      pll_fracle_def pll_fracv_def osc_frequency_def io_read32_def hdrw_def Let_def
      U_CK_MPU_def U_ACLK_def U_HCLK2_def U_HCLK6_def U_PCLK4_def U_PCLK5_def
      U_CK_MCU_def U_PCLK1_def U_PCLK2_def U_PCLK3_def U_CK_PER_def U_HSI_def U_HSI_KER_def
      U_CSI_def U_CSI_KER_def U_HSE_def U_HSE_KER_def U_HSE_KER_DIV2_def U_LSI_def U_LSE_def
      U_PLL1_P_def U_UNKNOWN_OSC_ID_def NB_OSC_def
      ex_opp_state_def ex_state_def ex_plat_def ex_reg_kind_def ex_set_regs_def ex_hdr_defs)
  then show ?thesis by (simp add: stm32mp1_get_mpu_div_def ex_opp_pll1_p)
qed

lemma ex_opp_clksrc:
  "stm32mp1_set_clksrc ex_plat CLK_MPU_PLL1P (ex_opp_state\<lparr>hw_ready := h\<rparr>) =
     (case h of [] \<Rightarrow> - 1 | b # bs \<Rightarrow> if b then 0 else - 1,
      ex_opp_state\<lparr>rcc := (rcc ex_opp_state)(0x20 := 2), wlog := [(0x20, 2)],
                    hw_ready := tl h\<rparr>)"
  by (cases h)
     (simp_all add: stm32mp1_set_clksrc_def CLK_MPU_PLL1P_def io_clrsetbits32_def
      io_write32_def io_read32_def wait_flag_def hdrw_def Let_def
      ex_opp_state_def ex_state_def ex_plat_def ex_reg_kind_def ex_set_regs_def ex_hdr_defs)

lemma ex_opp_restore:
  "pll1_config_from_opp_khz ex_plat 650000 (ex_opp_state\<lparr>hw_ready := h\<rparr>) =
     Inr (case h of [] \<Rightarrow> - 1 | b # bs \<Rightarrow> if b then 0 else - 1,
          ex_opp_state\<lparr>rcc := (rcc ex_opp_state)(0x20 := 2), wlog := [(0x20, 2)],
                        hw_ready := tl h\<rparr>)"
proof -
  have idx: "find_opp (take 2 (freq (pll1_settings ex_opp_state))) 650000 0 = 0"
    "hdr ex_plat PLAT_MAX_OPP_NB = 2"
    by (simp_all add: ex_opp_state_def ex_state_def ex_settings_def ex_plat_def ex_hdr_defs)
  show ?thesis
    by (simp add: pll1_config_from_opp_khz_def Let_def idx ex_opp_mpu_div ex_opp_clksrc)
qed

theorem set_opp_witness:
  "stm32mp1_set_opp_khz ex_plat 650000 ex_opp_state = Inr (0, ex_opp_state) \<and>
   (case stm32mp1_set_opp_khz ex_plat 700000 ex_opp_state of
      Inl e \<Rightarrow> False
    | Inr (r, s') \<Rightarrow> r = - 1 \<and> wlog s' = [(0x20, 2)] \<and> current_opp_khz s' = 650000) \<and>
   stm32mp1_set_opp_khz ex_plat 700000 (ex_opp_state\<lparr>hw_ready := []\<rparr>) = Inl Panic"
proof -
  have tab: "freq (pll1_settings (ex_opp_state\<lparr>hw_ready := h\<rparr>)) = [650000, 800000]" for h
    by (simp add: ex_opp_state_def ex_state_def ex_settings_def)
  have st: "ex_opp_state\<lparr>hw_ready := [True]\<rparr> = ex_opp_state"
    by (simp add: ex_opp_state_def)
  have b2: "current_opp_khz (ex_opp_state\<lparr>hw_ready := h\<rparr>) = 650000"
    "stm32mp1_clk_pll1_settings_are_valid (ex_opp_state\<lparr>hw_ready := h\<rparr>)"
    "io_read32 ex_plat (ex_opp_state\<lparr>hw_ready := h\<rparr>) (hdr ex_plat RCC_MPCKSELR)
       AND hdrw ex_plat RCC_SELR_SRC_MASK = hdrw ex_plat RCC_MPCKSELR_PLL" for h
    using ex_opp_basics
    by (simp_all add: stm32mp1_clk_pll1_settings_are_valid_def io_read32_def
        split: reg_kind.splits)
  have one: "stm32mp1_set_opp_khz ex_plat 650000 ex_opp_state = Inr (0, ex_opp_state)"
    using set_opp_outcomes[of 650000 ex_opp_state ex_plat] ex_opp_basics(1) by simp
  have two: "stm32mp1_set_opp_khz ex_plat 700000 (ex_opp_state\<lparr>hw_ready := h\<rparr>) =
      (case pll1_config_from_opp_khz ex_plat 650000 (ex_opp_state\<lparr>hw_ready := h\<rparr>) of
         Inl e \<Rightarrow> Inl e
       | Inr (ret2, s2) \<Rightarrow> if ret2 = 0 then Inr (- 1, s2) else Inl Panic)" for h
    using set_opp_outcomes[of 700000 "ex_opp_state\<lparr>hw_ready := h\<rparr>" ex_plat]
    by (simp add: b2 ex_opp_not_found[OF tab])
  let ?S = "ex_opp_state\<lparr>rcc := (rcc ex_opp_state)(0x20 := 2), wlog := [(0x20, 2)],
                        hw_ready := []\<rparr>"
  have r1: "pll1_config_from_opp_khz ex_plat 650000 ex_opp_state = Inr (0, ?S)"
    using ex_opp_restore[of "[True]"] by (simp add: st)
  have "stm32mp1_set_opp_khz ex_plat 700000 ex_opp_state = Inr (- 1, ?S)"
    using two[of "[True]"] by (simp add: st r1)
  then have p2: "(case stm32mp1_set_opp_khz ex_plat 700000 ex_opp_state of
      Inl e \<Rightarrow> False
    | Inr (r, s') \<Rightarrow> r = - 1 \<and> wlog s' = [(0x20, 2)] \<and> current_opp_khz s' = 650000)"
    by (simp add: ex_opp_basics(1))
  have p3: "stm32mp1_set_opp_khz ex_plat 700000 (ex_opp_state\<lparr>hw_ready := []\<rparr>) = Inl Panic"
    using two[of "[]"] by (simp add: ex_opp_restore[of "[]"])
  from one p2 p3 show ?thesis by blast
qed

section \<open>PLL1 settings: the search and its specification\<close>

lemma record_loop_append:
  "record_loop idx (xs @ ys) st =
     (case record_loop idx xs st of
        Early_return r \<Rightarrow> Early_return r
      | Fall_through st1 \<Rightarrow> record_loop idx ys st1)"
  by (induction xs arbitrary: st) (simp_all add: Let_def)

lemma for_each_record_loop:
  assumes "\<And>x st. x \<in> set xs \<Longrightarrow> body (g x) st = record_loop idx (f x) st"
  shows "for_each body (map g xs) st = record_loop idx (concat (map f xs)) st"
  using assms
proof (induction xs arbitrary: st)
  case Nil
  then show ?case by simp
next
  case (Cons x xs)
  have "body (g x) st = record_loop idx (f x) st" using Cons.prems by simp
  moreover have "for_each body (map g xs) t = record_loop idx (concat (map f xs)) t" for t
    using Cons.prems by (intro Cons.IH) simp
  ultimately show ?case by (simp add: record_loop_append split: flow.split)
qed

lemma spec_search_None: "(spec_search b cs = None) = (b = None \<and> cs = [])"
  by (induction cs arbitrary: b) (auto split: option.splits)

lemma spec_search_earliest:
  "spec_search b cs = Some c \<Longrightarrow>
     (b = Some c \<and> (\<forall>x \<in> set cs. c_diff c \<le> c_diff x)) \<or>
     (\<exists>pre post. cs = pre @ c # post \<and> (\<forall>x \<in> set pre. c_diff c < c_diff x) \<and>
        (\<forall>x \<in> set post. c_diff c \<le> c_diff x) \<and>
        (case b of None \<Rightarrow> True | Some b' \<Rightarrow> c_diff c < c_diff b'))"
proof (induction cs arbitrary: b)
  case Nil
  then show ?case by simp
next
  case (Cons c0 cs)
  let ?imp = "case b of None \<Rightarrow> True | Some b' \<Rightarrow> c_diff c0 < c_diff b'"
  show ?case
  proof (cases ?imp)
    case True
    show ?thesis
    proof (cases "c_diff c0 = 0")
      case z: True
      with True Cons.prems have "c = c0" by simp
      with z True have "c0 # cs = [] @ c # cs \<and> (\<forall>x \<in> set []. c_diff c < c_diff x) \<and>
        (\<forall>x \<in> set cs. c_diff c \<le> c_diff x) \<and>
        (case b of None \<Rightarrow> True | Some b' \<Rightarrow> c_diff c < c_diff b')"
        by (auto split: option.splits)
      then show ?thesis by blast
    next
      case nz: False
      with True Cons.prems have s: "spec_search (Some c0) cs = Some c" by simp
      from Cons.IH[OF s] show ?thesis
      proof
        assume a: "Some c0 = Some c \<and> (\<forall>x \<in> set cs. c_diff c \<le> c_diff x)"
        with True have "c0 # cs = [] @ c # cs \<and> (\<forall>x \<in> set []. c_diff c < c_diff x) \<and>
          (\<forall>x \<in> set cs. c_diff c \<le> c_diff x) \<and>
          (case b of None \<Rightarrow> True | Some b' \<Rightarrow> c_diff c < c_diff b')"
          by (auto split: option.splits)
        then show ?thesis by blast
      next
        assume "\<exists>pre post. cs = pre @ c # post \<and> (\<forall>x \<in> set pre. c_diff c < c_diff x) \<and>
          (\<forall>x \<in> set post. c_diff c \<le> c_diff x) \<and>
          (case Some c0 of None \<Rightarrow> True | Some b' \<Rightarrow> c_diff c < c_diff b')"
        then obtain pre post where p: "cs = pre @ c # post"
          "\<forall>x \<in> set pre. c_diff c < c_diff x" "\<forall>x \<in> set post. c_diff c \<le> c_diff x"
          "c_diff c < c_diff c0" by auto
        with True have "c0 # cs = (c0 # pre) @ c # post \<and>
          (\<forall>x \<in> set (c0 # pre). c_diff c < c_diff x) \<and>
          (\<forall>x \<in> set post. c_diff c \<le> c_diff x) \<and>
          (case b of None \<Rightarrow> True | Some b' \<Rightarrow> c_diff c < c_diff b')"
          by (auto split: option.splits)
        then show ?thesis by blast
      qed
    qed
  next
    case False
    then obtain b' where b: "b = Some b'" "c_diff b' \<le> c_diff c0"
      by (auto split: option.splits)
    from False Cons.prems have s: "spec_search b cs = Some c" by simp
    from Cons.IH[OF s] show ?thesis
    proof
      assume "b = Some c \<and> (\<forall>x \<in> set cs. c_diff c \<le> c_diff x)"
      with b show ?thesis by auto
    next
      assume "\<exists>pre post. cs = pre @ c # post \<and> (\<forall>x \<in> set pre. c_diff c < c_diff x) \<and>
        (\<forall>x \<in> set post. c_diff c \<le> c_diff x) \<and>
        (case b of None \<Rightarrow> True | Some b' \<Rightarrow> c_diff c < c_diff b')"
      then obtain pre post where p: "cs = pre @ c # post"
        "\<forall>x \<in> set pre. c_diff c < c_diff x" "\<forall>x \<in> set post. c_diff c \<le> c_diff x"
        "c_diff c < c_diff b'" using b by auto
      with b have "c0 # cs = (c0 # pre) @ c # post \<and>
        (\<forall>x \<in> set (c0 # pre). c_diff c < c_diff x) \<and>
        (\<forall>x \<in> set post. c_diff c \<le> c_diff x) \<and>
        (case b of None \<Rightarrow> True | Some b' \<Rightarrow> c_diff c < c_diff b')"
        by auto
      then show ?thesis by blast
    qed
  qed
qed

lemma store_cfg_overwrite:
  assumes "idx < length (cfg ps)"
  shows "store_cfg idx a b c d (store_cfg idx a' b' c' d' ps) = store_cfg idx a b c d ps"
proof -
  have "xs[PLLCFG_M := a', PLLCFG_N := b', PLLCFG_P := c', PLLCFG_M := a, PLLCFG_N := b,
           PLLCFG_P := c] = xs[PLLCFG_M := a, PLLCFG_N := b, PLLCFG_P := c]" for xs :: "u32 list"
    unfolding PLLCFG_M_def PLLCFG_N_def PLLCFG_P_def numeral_2_eq_2
    by (cases xs; cases "tl xs"; cases "tl (tl xs)") auto
  with assms show ?thesis by (simp add: store_cfg_def)
qed

lemma store_cfg_length [simp]: "length (cfg (store_cfg idx a b c d ps)) = length (cfg ps)"
  by (simp add: store_cfg_def)

lemma record_loop_spec_search:
  assumes "\<forall>c \<in> set cs. c_diff c < UINT_MAX" and "idx < length (cfg ps0)"
    and "search_rel idx ps0 b st"
  shows "case record_loop idx cs st of
           Early_return st1 \<Rightarrow>
             (\<exists>c. spec_search b cs = Some c \<and> c_diff c = 0 \<and> fst st1 = recorded idx c ps0)
         | Fall_through st1 \<Rightarrow> search_rel idx ps0 (spec_search b cs) st1"
  using assms(1,3)
proof (induction cs arbitrary: b st)
  case Nil
  then show ?case by simp
next
  case (Cons c cs)
  have lt: "c_diff c < UINT_MAX" and rest: "\<forall>c \<in> set cs. c_diff c < UINT_MAX"
    using Cons.prems(1) by simp_all
  have fst_st: "recorded idx c (fst st) = recorded idx c ps0"
    using Cons.prems(2) assms(2)
    by (auto simp: search_rel_def recorded_def store_cfg_overwrite split: option.splits)
  have imp: "(c_diff c < snd st) = (case b of None \<Rightarrow> True | Some b' \<Rightarrow> c_diff c < c_diff b')"
    using Cons.prems(2) lt by (auto simp: search_rel_def split: option.splits)
  show ?case
  proof (cases "c_diff c < snd st")
    case False
    with imp Cons.IH[OF rest Cons.prems(2)] show ?thesis
      by (auto split: flow.splits option.splits)
  next
    case True
    show ?thesis
    proof (cases "c_diff c = 0")
      case z: True
      with True imp fst_st show ?thesis
        by (auto simp: recorded_def split: flow.splits option.splits)
    next
      case nz: False
      have rel: "search_rel idx ps0 (Some c) (recorded idx c (fst st), c_diff c)"
        using nz lt fst_st by (simp add: search_rel_def)
      from Cons.IH[OF rest rel] True imp nz show ?thesis
        by (auto simp: recorded_def split: flow.splits option.splits)
    qed
  qed
qed

lemma to_ull_int: "n < 2 ^ 64 \<Longrightarrow> to_ull (int n) = n"
proof -
  assume a: "n < 2 ^ 64"
  have "to_ull (int n) = nat (int (n mod 2 ^ 64))"
    unfolding to_ull_def by (simp add: zmod_int)
  with a show ?thesis by simp
qed

lemma to_ull_int_Suc: "n + 1 < 2 ^ 64 \<Longrightarrow> to_ull (int n + 1) = n + 1"
  using to_ull_int[of "n + 1"] by (simp add: add.commute)

lemma to_ulong_int_Suc: "n + 1 < 2 ^ 32 \<Longrightarrow> to_ulong (int n + 1) = n + 1"
proof -
  assume a: "n + 1 < 2 ^ 32"
  have "to_ulong (int (n + 1)) = nat (int ((n + 1) mod 2 ^ 32))"
    unfolding to_ulong_def by (simp add: zmod_int)
  with a have "to_ulong (int (n + 1)) = n + 1" by simp
  then show ?thesis by (simp add: add.commute)
qed

lemma to_ull_FRAC_MAX: "to_ull FRAC_MAX = 8192"
  by (simp add: to_ull_def FRAC_MAX_def)

lemma to_int_small: "n < 2 ^ 31 \<Longrightarrow> to_int n = int n"
  by (simp add: to_int_def)

lemma to_int_pred: "q < 2 ^ 31 \<Longrightarrow> to_int ((q + 2 ^ 64 - 1) mod 2 ^ 64) = int q - 1"
proof (cases "q = 0")
  case True
  then show ?thesis by (simp add: to_int_def)
next
  case False
  assume a: "q < 2 ^ 31"
  from False obtain r where r: "q = Suc r" by (cases q) auto
  have "(q + 2 ^ 64 - 1) mod 2 ^ 64 = r"
    using a r by simp
  then show ?thesis using a r by (simp add: to_int_small)
qed

lemma frac_body_spec:
  assumes post: "post \<le> 16000000" and n: "n \<le> 99" and f: "f \<le> 8192"
    and out: "out < 2 ^ 32" and pp: "pp \<le> 127"
  shows "compute_frac_body idx post out (int m) (int n) (int pp) (int f) st =
         record_loop idx (spec_frac_candidates post out m n pp f) st"
proof -
  define vco where "vco = post * (n + 1) + post * f div 8192"
  have a: "post * (n + 1) \<le> 16000000 * 100" using post n by (intro mult_le_mono) simp_all
  have b: "post * f \<le> 16000000 * 8192" using post f by (intro mult_le_mono) simp_all
  have c1: "to_ulong (int n + 1) = n + 1" using n by (simp add: to_ulong_int_Suc)
  have c2: "to_ull (int f) = f" using f by (simp add: to_ull_int)
  have c3: "to_ull (int pp + 1) = pp + 1" using pp by (simp add: to_ull_int_Suc)
  have m1: "(post * (n + 1)) mod 2 ^ 32 = post * (n + 1)" using a by simp
  have m2: "(post * f) mod 2 ^ 64 = post * f" using b by simp
  have "post * f div 8192 \<le> post * f" by simp
  with a b have v: "vco < 2 ^ 64" unfolding vco_def by simp
  have vco_eq: "((post * to_ulong (int n + 1)) mod 2 ^ 32 +
      ((post * to_ull (int f)) mod 2 ^ 64) div to_ull FRAC_MAX) mod 2 ^ 64 = vco"
    using v unfolding c1 c2 m1 m2 to_ull_FRAC_MAX vco_def by simp
  show ?thesis
  proof (cases "400000000 \<le> vco \<and> vco \<le> 800000000")
    case False
    then show ?thesis
      unfolding compute_frac_body_def spec_frac_candidates_def Let_def vco_eq
      by (auto simp: vco_def VCO_MIN_def VCO_MAX_def)
  next
    case True
    define frq where "frq = vco div (pp + 1)"
    have "frq \<le> vco" unfolding frq_def by simp
    with True have fr: "frq \<le> 800000000" by simp
    have d1: "(frq - out) mod 2 ^ 32 = frq - out" using fr by simp
    have d2: "(out - frq) mod 2 ^ 32 = out - frq" using out by simp
    have cands: "spec_frac_candidates post out m n pp f =
        [Cand m n pp f (if out < frq then frq - out else out - frq)]"
      using True by (simp add: spec_frac_candidates_def vco_def frq_def)
    have body: "compute_frac_body idx post out (int m) (int n) (int pp) (int f) st =
        (let diff = (if out < frq then frq - out else out - frq)
         in if diff < snd st
            then let ps1 = store_cfg idx (of_nat m) (of_nat n) (of_nat pp) (of_nat f) (fst st)
                 in if diff = 0 then Early_return (ps1, snd st) else Fall_through (ps1, diff)
            else Fall_through st)"
      using True
      unfolding compute_frac_body_def Let_def vco_eq c3 frq_def[symmetric] d1 d2
      by (simp add: VCO_MIN_def VCO_MAX_def)
    show ?thesis unfolding body cands by (simp add: Let_def)
  qed
qed

lemma frac_loop_spec:
  assumes post: "post \<le> 16000000" and n: "n \<le> 99" and f: "f \<le> 8191"
    and out: "out < 2 ^ 32" and pp: "pp \<le> 127"
  shows "compute_frac_loop 2 (compute_frac_body idx post out (int m) (int n) (int pp))
           (int f) st =
         record_loop idx (spec_frac_candidates post out m n pp f @
                          spec_frac_candidates post out m n pp (f + 1)) st"
proof -
  have b0: "compute_frac_body idx post out (int m) (int n) (int pp) (int f) t =
      record_loop idx (spec_frac_candidates post out m n pp f) t" for t
    using assms by (intro frac_body_spec) simp_all
  have "compute_frac_body idx post out (int m) (int n) (int pp) (int (f + 1)) t =
      record_loop idx (spec_frac_candidates post out m n pp (f + 1)) t" for t
    using assms by (intro frac_body_spec) simp_all
  then have b1: "compute_frac_body idx post out (int m) (int n) (int pp) (int f + 1) t =
      record_loop idx (spec_frac_candidates post out m n pp (f + 1)) t" for t
    by (simp add: add.commute)
  have le: "\<not> FRAC_MAX < int f" "\<not> FRAC_MAX \<le> int f"
    using f by (simp_all add: FRAC_MAX_def)
  show ?thesis
    unfolding numeral_2_eq_2 record_loop_append
    by (simp add: le b0 b1 split: flow.split)
qed

lemma divp_body_spec:
  assumes input: "input < 2 ^ 32" and out: "out < 2 ^ 32" and m: "m \<le> 63" and pp: "pp \<le> 127"
    and lo: "8000000 \<le> input div (m + 1)" and hi: "input div (m + 1) \<le> 16000000"
  shows "compute_divp_body idx input (input div (m + 1)) out (int m) (int pp) st =
         record_loop idx (spec_P_candidates input out m pp) st"
proof -
  define f where "f = out * (m + 1) * (pp + 1)"
  define q where "q = f div input"
  define a where "a = f * 8192 div input"
  have in8: "8000000 \<le> input" by (rule order_trans[OF lo]) simp
  then have inpos: "0 < input" by simp
  have s1: "out * (m + 1) \<le> 2 ^ 32 * 64" using out m by (intro mult_le_mono) simp_all
  have s2: "pp + 1 \<le> 128" using pp by simp
  have fb: "f \<le> 2 ^ 32 * 64 * 128" unfolding f_def by (rule mult_le_mono[OF s1 s2])
  have c1: "to_ull (int m + 1) = m + 1" using m by (simp add: to_ull_int_Suc)
  have c2: "to_ull (int pp + 1) = pp + 1" using pp by (simp add: to_ull_int_Suc)
  have "out * (m + 1) \<le> f" by (simp add: f_def)
  with fb have m1: "(out * (m + 1)) mod 2 ^ 64 = out * (m + 1)" by simp
  have m2: "f mod 2 ^ 64 = f" using fb by simp
  have frq: "(((out * to_ull (int m + 1)) mod 2 ^ 64) * to_ull (int pp + 1)) mod 2 ^ 64 = f"
    unfolding c1 c2 m1 using m2 by (simp add: f_def)
  have "q \<le> f div 8000000" unfolding q_def using in8 by (intro div_le_mono2) simp_all
  also have "\<dots> \<le> (2 ^ 32 * 64 * 128) div 8000000" using fb by (rule div_le_mono)
  finally have qb: "q < 2 ^ 31" by simp
  have divn: "to_int ((f div input + 2 ^ 64 - 1) mod 2 ^ 64) = int q - 1"
    using qb unfolding q_def by (rule to_int_pred)
  have guard: "(int q - 1 < DIVN_MIN \<or> int q - 1 > DIVN_MAX) =
      (\<not> (24 \<le> q - 1 \<and> q - 1 \<le> 99))"
    by (auto simp: DIVN_MIN_def DIVN_MAX_def)
  show ?thesis
  proof (cases "24 \<le> q - 1 \<and> q - 1 \<le> 99")
    case False
    have spec: "spec_P_candidates input out m pp = []"
      using False
      unfolding spec_P_candidates_def Let_def f_def[symmetric] q_def[symmetric] by auto
    have "compute_divp_body idx input (input div (m + 1)) out (int m) (int pp) st =
        Fall_through st"
      using False
      unfolding compute_divp_body_def Let_def frq divn guard by auto
    then show ?thesis by (simp add: spec)
  next
    case True
    define n where "n = q - 1"
    have qn: "q = n + 1" using True unfolding n_def by linarith
    have nb: "n \<le> 99" using True by (simp add: n_def)
    have dn: "int q - 1 = int n" by (simp add: qn)
    have g2: "\<not> int n < DIVN_MIN" "\<not> DIVN_MAX < int n"
      using True by (simp_all add: n_def DIVN_MIN_def DIVN_MAX_def)
    have m3: "(f * 8192) mod 2 ^ 64 = f * 8192" using fb by simp
    have c3: "to_ull ((int n + 1) * FRAC_MAX) = (n + 1) * 8192"
    proof -
      have "(int n + 1) * FRAC_MAX = int ((n + 1) * 8192)" by (simp add: FRAC_MAX_def)
      moreover have "(n + 1) * 8192 < 2 ^ 64" using nb by simp
      ultimately show ?thesis by (simp only: to_ull_int)
    qed
    have "q * input \<le> f" unfolding q_def by simp
    then have "(q * input) * 8192 \<le> f * 8192" by simp
    also have "(q * input) * 8192 = q * 8192 * input"
      by (simp only: mult.assoc mult.commute[of input])
    finally have "q * 8192 * input \<le> f * 8192" .
    then have lo_a: "q * 8192 \<le> a" unfolding a_def using inpos
      by (simp add: less_eq_div_iff_mult_less_eq)
    have "f < (q + 1) * input" unfolding q_def using inpos
      by (metis Suc_eq_plus1 dividend_less_div_times mult.commute mult_Suc)
    then have "f * 8192 < ((q + 1) * input) * 8192" by (simp del: add_mult_distrib)
    also have "\<dots> = (q + 1) * 8192 * input" by (simp only: mult.assoc mult.commute[of input])
    finally have "f * 8192 < (q + 1) * 8192 * input" .
    then have hi_a: "a < (q + 1) * 8192" unfolding a_def using inpos
      by (simp add: div_less_iff_less_mult)
    define f0 where "f0 = a - (n + 1) * 8192"
    have f0b: "f0 \<le> 8191" using hi_a lo_a unfolding f0_def qn by simp
    have ale: "(n + 1) * 8192 \<le> a" using lo_a by (simp add: qn)
    have "a \<le> f * 8192" unfolding a_def by simp
    with fb have ab: "a < 2 ^ 64" by simp
    have "(a + 2 ^ 64 - (n + 1) * 8192) mod 2 ^ 64 = (f0 + 2 ^ 64) mod 2 ^ 64"
      using ale unfolding f0_def by simp
    also have "\<dots> = f0" using f0b by simp
    finally have sub: "(a + 2 ^ 64 - (n + 1) * 8192) mod 2 ^ 64 = f0" .
    have frc: "to_int ((((f * to_ull FRAC_MAX) mod 2 ^ 64) div input +
        2 ^ 64 - to_ull ((int n + 1) * FRAC_MAX)) mod 2 ^ 64) = int f0"
      unfolding to_ull_FRAC_MAX m3 c3 a_def[symmetric] sub using f0b by (simp add: to_int_small)
    have spec: "spec_P_candidates input out m pp =
        spec_frac_candidates (input div (m + 1)) out m n pp f0 @
        spec_frac_candidates (input div (m + 1)) out m n pp (f0 + 1)"
      using True
      unfolding spec_P_candidates_def Let_def f_def[symmetric] q_def[symmetric]
        a_def[symmetric] n_def[symmetric] f0_def[symmetric] by simp
    have "compute_divp_body idx input (input div (m + 1)) out (int m) (int pp) st =
        compute_frac_loop 2
          (compute_frac_body idx (input div (m + 1)) out (int m) (int n) (int pp)) (int f0) st"
      using g2
      unfolding compute_divp_body_def Let_def frq divn dn frc
      by simp
    also have "\<dots> = record_loop idx (spec_frac_candidates (input div (m + 1)) out m n pp f0 @
        spec_frac_candidates (input div (m + 1)) out m n pp (f0 + 1)) st"
      using hi nb f0b out pp by (rule frac_loop_spec)
    finally show ?thesis by (simp add: spec)
  qed
qed

lemma upto_DIVP: "[DIVP_MIN .. DIVP_MAX] = map int [0 ..< 128]"
  unfolding DIVP_MIN_def DIVP_MAX_def by code_simp

lemma upto_DIVM: "rev [DIVM_MIN .. DIVM_MAX] = map int (rev [0 ..< 64])"
  unfolding DIVM_MIN_def DIVM_MAX_def by code_simp

lemma divm_body_spec:
  assumes input: "input < 2 ^ 32" and out: "out < 2 ^ 32" and m: "m \<le> 63"
  shows "compute_divm_body idx input out (int m) st =
         record_loop idx (spec_M_candidates input out m) st"
proof -
  have c1: "to_ulong (int m + 1) = m + 1" using m by (simp add: to_ulong_int_Suc)
  show ?thesis
  proof (cases "8000000 \<le> input div (m + 1) \<and> input div (m + 1) \<le> 16000000")
    case False
    then show ?thesis
      unfolding compute_divm_body_def spec_M_candidates_def Let_def c1
      by (auto simp: POST_DIVM_MIN_def POST_DIVM_MAX_def)
  next
    case True
    have "for_each (compute_divp_body idx input (input div (m + 1)) out (int m))
            (map int [0 ..< 128]) st =
          record_loop idx (concat (map (spec_P_candidates input out m) [0 ..< 128])) st"
    proof (rule for_each_record_loop)
      fix x t
      assume "x \<in> set [0 ..< (128::nat)]"
      then have "x \<le> 127" by simp
      with input out m True
      show "compute_divp_body idx input (input div (m + 1)) out (int m) (int x) t =
            record_loop idx (spec_P_candidates input out m x) t"
        by (intro divp_body_spec) simp_all
    qed
    with True show ?thesis
      unfolding compute_divm_body_def spec_M_candidates_def Let_def c1 upto_DIVP
      by (simp add: POST_DIVM_MIN_def POST_DIVM_MAX_def)
  qed
qed

lemma unat_u32_lt: "unat (x::u32) < 2 ^ 32"
  using unsigned_less[of x, where 'a = nat] by simp

lemma compute_search_spec:
  "compute_search p input_freq idx ps =
     record_loop idx (spec_candidates (unat input_freq) (unat (freq ps ! idx * 1000)))
       (ps\<lparr>cfg := (cfg ps)[idx := (cfg ps ! idx)[PLLCFG_Q := 0, PLLCFG_R := 0,
                                                   PLLCFG_O := hdrw p PQR_1_0_0]]\<rparr>,
        UINT_MAX)"
  unfolding compute_search_def spec_candidates_def upto_DIVM
proof (rule for_each_record_loop)
  fix x t
  assume "x \<in> set (rev [0 ..< (64::nat)])"
  then have "x \<le> 63" by simp
  then show "compute_divm_body idx (unat input_freq) (unat (freq ps ! idx * 1000)) (int x) t =
      record_loop idx (spec_M_candidates (unat input_freq) (unat (freq ps ! idx * 1000)) x) t"
    by (intro divm_body_spec unat_u32_lt)
qed

lemma spec_frac_candidates_diff:
  assumes "c \<in> set (spec_frac_candidates post target m n pp f)" "target < 2 ^ 32" "pp \<le> 127"
  shows "c_diff c < UINT_MAX"
proof -
  define vco where "vco = post * (n + 1) + post * f div 8192"
  from assms(1) have v: "400000000 \<le> vco" "vco \<le> 800000000"
    and c: "c_diff c = (if target < vco div (pp + 1) then vco div (pp + 1) - target
                        else target - vco div (pp + 1))"
    by (auto simp: spec_frac_candidates_def Let_def vco_def split: if_splits)
  have up: "vco div (pp + 1) \<le> 800000000" by (rule order_trans[OF _ v(2)]) simp
  have "400000000 div 128 \<le> vco div 128" using v(1) by (rule div_le_mono)
  also have "\<dots> \<le> vco div (pp + 1)" using assms(3) by (intro div_le_mono2) simp_all
  finally have low: "3125000 \<le> vco div (pp + 1)" by simp
  show ?thesis using up low assms(2) unfolding c UINT_MAX_def by auto
qed

lemma spec_candidates_diff:
  assumes "c \<in> set (spec_candidates input target)" "target < 2 ^ 32"
  shows "c_diff c < UINT_MAX"
  using assms
  by (auto simp: spec_candidates_def spec_M_candidates_def spec_P_candidates_def Let_def
      split: if_splits intro: spec_frac_candidates_diff)

lemma spec_search_min:
  assumes "spec_search None cs = Some c"
  shows "c \<in> set cs \<and> (\<forall>x \<in> set cs. c_diff c \<le> c_diff x)"
proof -
  from spec_search_earliest[OF assms] obtain pre post where
    "cs = pre @ c # post" "\<forall>x \<in> set pre. c_diff c < c_diff x"
    "\<forall>x \<in> set post. c_diff c \<le> c_diff x" by auto
  then show ?thesis by (auto simp: less_imp_le)
qed

text \<open>
  Claim C2.  \<open>clk_compute_pll1_settings\<close> for entry \<open>idx\<close> gives what the search
  of the specification gives on the list of candidates, taken in the order \<open>M\<close> from
  63 down to 0 (where the reference divided by \<open>M + 1\<close> lies in 8 to 16 MHz), \<open>P\<close>
  from 0 up to 127, \<open>N\<close> derived from the target (kept in 24 to 99), and the two
  fractional values of the refinement (kept where the VCO lies in 400 to 800 MHz): it
  returns 0 with the chosen candidate recorded, and \<open>Q\<close>, \<open>R\<close> null and the output
  enable set, or, when there is no candidate at all, returns -1 with the output enable
  zeroed.  The chosen candidate is the earliest one of least error: every candidate before
  it has a strictly larger error, every candidate after it an error at least as large.  The
  loops leave by the \<open>return 0\<close> in their body exactly when a candidate has a null
  error.  The target is the 32-bit product \<open>pll1_settings.freq[idx] * 1000U\<close>, which is
  the frequency in Hz of the entry whenever that is below \<open>2 ^ 32\<close>.
\<close>

theorem compute_pll1_settings_search:
  assumes "idx < length (cfg ps)"
  shows
    "(let cs = spec_candidates (unat input_freq) (unat (freq ps ! idx * 1000));
          ps0 = ps\<lparr>cfg := (cfg ps)[idx := (cfg ps ! idx)[PLLCFG_Q := 0, PLLCFG_R := 0,
                                                      PLLCFG_O := hdrw p PQR_1_0_0]]\<rparr>
      in clk_compute_pll1_settings p input_freq idx ps =
           (case spec_search None cs of
              None \<Rightarrow> (- 1, ps\<lparr>cfg := (cfg ps)[idx := (cfg ps ! idx)[PLLCFG_Q := 0,
                                      PLLCFG_R := 0, PLLCFG_O := 0]]\<rparr>)
            | Some c \<Rightarrow> (0, recorded idx c ps0)) \<and>
         ((spec_search None cs = None) = (cs = [])) \<and>
         (\<forall>c. spec_search None cs = Some c \<longrightarrow>
            (\<exists>pre post. cs = pre @ c # post \<and> (\<forall>x \<in> set pre. c_diff c < c_diff x) \<and>
               (\<forall>x \<in> set post. c_diff c \<le> c_diff x))) \<and>
         ((\<exists>st. compute_search p input_freq idx ps = Early_return st) =
            (\<exists>c \<in> set cs. c_diff c = 0)) \<and>
         (unat (freq ps ! idx) * 1000 < 2 ^ 32 \<longrightarrow>
            unat (freq ps ! idx * 1000) = unat (freq ps ! idx) * 1000))"
proof -
  define cs where "cs = spec_candidates (unat input_freq) (unat (freq ps ! idx * 1000))"
  define ps0 where "ps0 = ps\<lparr>cfg := (cfg ps)[idx := (cfg ps ! idx)[PLLCFG_Q := 0,
      PLLCFG_R := 0, PLLCFG_O := hdrw p PQR_1_0_0]]\<rparr>"
  have cs_lt: "\<forall>c \<in> set cs. c_diff c < UINT_MAX"
    unfolding cs_def by (auto intro: spec_candidates_diff unat_u32_lt)
  have len0: "idx < length (cfg ps0)" using assms by (simp add: ps0_def)
  have rel0: "search_rel idx ps0 None (ps0, UINT_MAX)" by (simp add: search_rel_def)
  note main = record_loop_spec_search[OF cs_lt len0 rel0]
  have search: "compute_search p input_freq idx ps = record_loop idx cs (ps0, UINT_MAX)"
    unfolding cs_def ps0_def by (rule compute_search_spec)
  have inval: "ps0\<lparr>cfg := (cfg ps0)[idx := (cfg ps0 ! idx)[PLLCFG_O := 0]]\<rparr> =
      ps\<lparr>cfg := (cfg ps)[idx := (cfg ps ! idx)[PLLCFG_Q := 0, PLLCFG_R := 0, PLLCFG_O := 0]]\<rparr>"
    using assms by (simp add: ps0_def)
  have res: "clk_compute_pll1_settings p input_freq idx ps =
      (case spec_search None cs of
         None \<Rightarrow> (- 1, ps\<lparr>cfg := (cfg ps)[idx := (cfg ps ! idx)[PLLCFG_Q := 0,
                                 PLLCFG_R := 0, PLLCFG_O := 0]]\<rparr>)
       | Some c \<Rightarrow> (0, recorded idx c ps0))"
  proof (cases "record_loop idx cs (ps0, UINT_MAX)")
    case (Early_return st1)
    with main obtain c where "spec_search None cs = Some c" "fst st1 = recorded idx c ps0"
      by auto
    with Early_return show ?thesis
      by (simp add: clk_compute_pll1_settings_def search)
  next
    case (Fall_through st1)
    with main have rel: "search_rel idx ps0 (spec_search None cs) st1" by simp
    show ?thesis
    proof (cases "spec_search None cs")
      case None
      with rel have "st1 = (ps0, UINT_MAX)" by (simp add: search_rel_def)
      with None Fall_through show ?thesis
        by (simp add: clk_compute_pll1_settings_def search inval)
    next
      case (Some c)
      with rel have "st1 = (recorded idx c ps0, c_diff c)" "c_diff c < UINT_MAX"
        by (simp_all add: search_rel_def)
      with Some Fall_through show ?thesis
        by (simp add: clk_compute_pll1_settings_def search)
    qed
  qed
  have none: "(spec_search None cs = None) = (cs = [])" by (simp add: spec_search_None)
  have earliest: "\<exists>pre post. cs = pre @ c # post \<and> (\<forall>x \<in> set pre. c_diff c < c_diff x) \<and>
      (\<forall>x \<in> set post. c_diff c \<le> c_diff x)" if "spec_search None cs = Some c" for c
    using spec_search_earliest[OF that] by auto
  have early: "(\<exists>st. compute_search p input_freq idx ps = Early_return st) =
      (\<exists>c \<in> set cs. c_diff c = 0)"
  proof
    assume "\<exists>st. compute_search p input_freq idx ps = Early_return st"
    then obtain st where "record_loop idx cs (ps0, UINT_MAX) = Early_return st"
      by (auto simp: search)
    with main obtain c where "spec_search None cs = Some c" "c_diff c = 0" by auto
    with spec_search_min[of cs c] show "\<exists>c \<in> set cs. c_diff c = 0" by auto
  next
    assume "\<exists>c \<in> set cs. c_diff c = 0"
    then obtain c where c: "c \<in> set cs" "c_diff c = 0" by auto
    show "\<exists>st. compute_search p input_freq idx ps = Early_return st"
    proof (cases "record_loop idx cs (ps0, UINT_MAX)")
      case (Early_return st1)
      then show ?thesis by (simp add: search)
    next
      case (Fall_through st1)
      with main have rel: "search_rel idx ps0 (spec_search None cs) st1" by simp
      from c(1) have "cs \<noteq> []" by auto
      with none obtain c' where c': "spec_search None cs = Some c'" by auto
      with rel have "0 < c_diff c'" by (simp add: search_rel_def)
      moreover from spec_search_min[OF c'] c have "c_diff c' \<le> 0" by auto
      ultimately show ?thesis by simp
    qed
  qed
  have hz: "unat (freq ps ! idx * 1000) = unat (freq ps ! idx) * 1000"
    if "unat (freq ps ! idx) * 1000 < 2 ^ 32"
  proof -
    have "unat (freq ps ! idx) * unat (1000::u32) < 2 ^ LENGTH(32)" using that by simp
    then have "unat (freq ps ! idx * 1000) = unat (freq ps ! idx) * unat (1000::u32)"
      by (rule unat_mult_lem[THEN iffD1])
    then show ?thesis by simp
  qed
  from res none earliest early hz show ?thesis
    unfolding Let_def cs_def[symmetric] ps0_def[symmetric] by blast
qed

lemma concat_map_empty: "(\<And>x. x \<in> set xs \<Longrightarrow> f x = []) \<Longrightarrow> concat (map f xs) = []"
  by (induction xs) simp_all

lemma spec_M_candidates_window:
  assumes "input div (m + 1) < 8000000 \<or> 16000000 < input div (m + 1)"
  shows "spec_M_candidates input target m = []"
  using assms by (auto simp: spec_M_candidates_def)

lemma spec_P_candidates_high:
  assumes "101 \<le> target * (m + 1) * 2 div input" and "1 \<le> pp"
  shows "spec_P_candidates input target m pp = []"
proof -
  have "target * (m + 1) * 2 \<le> target * (m + 1) * (pp + 1)"
    using assms(2) by (intro mult_le_mono) simp_all
  then have "target * (m + 1) * 2 div input \<le> target * (m + 1) * (pp + 1) div input"
    by (rule div_le_mono)
  with assms(1) have "101 \<le> target * (m + 1) * (pp + 1) div input" by simp
  then show ?thesis unfolding spec_P_candidates_def Let_def by auto
qed

lemma spec_M_candidates_first:
  assumes "101 \<le> target * (m + 1) * 2 div input"
    and "8000000 \<le> input div (m + 1)" "input div (m + 1) \<le> 16000000"
  shows "spec_M_candidates input target m = spec_P_candidates input target m 0"
proof -
  have s: "[0 ..< 128] = 0 # [1 ..< 128]" by (simp add: upt_conv_Cons)
  have "concat (map (spec_P_candidates input target m) [1 ..< 128]) = []"
    by (rule concat_map_empty) (simp add: spec_P_candidates_high[OF assms(1)])
  with assms(2,3) show ?thesis by (simp add: spec_M_candidates_def s)
qed

lemma spec_candidates_24MHz:
  assumes "101 \<le> target * 3 * 2 div 24000000" "101 \<le> target * 2 * 2 div 24000000"
  shows "spec_candidates 24000000 target =
           spec_P_candidates 24000000 target 2 0 @ spec_P_candidates 24000000 target 1 0"
proof -
  have s: "rev [0 ..< 64] = rev [3 ..< 64] @ [2, 1, 0]"
  proof -
    have "[0 ..< 64] = [0, 1, 2] @ [3 ..< 64]" by (simp add: upt_conv_Cons)
    then show ?thesis by simp
  qed
  have hi: "concat (map (spec_M_candidates 24000000 target) (rev [3 ..< 64])) = []"
  proof (rule concat_map_empty)
    fix m
    assume "m \<in> set (rev [3 ..< (64::nat)])"
    then have "3 \<le> m \<and> m < 64" by (simp only: set_rev set_upt atLeastLessThan_iff)
    then have "4 \<le> m + 1" by simp
    then have "24000000 div (m + 1) \<le> 24000000 div 4" by (intro div_le_mono2) simp_all
    then show "spec_M_candidates 24000000 target m = []"
      by (intro spec_M_candidates_window) simp
  qed
  have m0: "spec_M_candidates 24000000 target 0 = []"
    by (rule spec_M_candidates_window) simp
  have m2: "spec_M_candidates 24000000 target 2 = spec_P_candidates 24000000 target 2 0"
    using assms(1) by (intro spec_M_candidates_first) simp_all
  have m1: "spec_M_candidates 24000000 target 1 = spec_P_candidates 24000000 target 1 0"
    using assms(2) by (intro spec_M_candidates_first) (simp_all del: One_nat_def)
  show ?thesis
    unfolding spec_candidates_def s map_append concat_append hi
    by (simp add: m0 m1 m2 del: One_nat_def)
qed

lemma spec_candidates_low_target:
  assumes "target * 64 * 128 < input"
  shows "spec_candidates input target = []"
proof -
  have "spec_P_candidates input target m pp = []" if "m \<le> 63" "pp \<le> 127" for m pp
  proof -
    have m1: "m + 1 \<le> 64" and p1: "pp + 1 \<le> 128" using that by simp_all
    have "target * (m + 1) \<le> target * 64" by (rule mult_le_mono[OF le_refl m1])
    then have "target * (m + 1) * (pp + 1) \<le> target * 64 * 128"
      using p1 by (rule mult_le_mono)
    then have "target * (m + 1) * (pp + 1) < input" using assms by (rule le_less_trans)
    then have "target * (m + 1) * (pp + 1) div input = 0" by (rule div_less)
    then show ?thesis unfolding spec_P_candidates_def Let_def by simp
  qed
  then have "spec_M_candidates input target m = []" if "m \<le> 63" for m
    using that by (auto simp: spec_M_candidates_def intro!: concat_map_empty)
  moreover have "m \<le> 63" if "m \<in> set (rev [0 ..< (64::nat)])" for m
    using that by (simp only: set_rev set_upt atLeastLessThan_iff) simp
  ultimately show ?thesis
    unfolding spec_candidates_def by (intro concat_map_empty) blast
qed

lemma ex_candidates_650:
  "spec_candidates 24000000 650000000 =
     [Cand 2 80 0 2048 0, Cand 2 80 0 2049 976, Cand 1 53 0 1365 489, Cand 1 53 0 1366 976]"
proof -
  have "spec_P_candidates 24000000 650000000 2 0 = [Cand 2 80 0 2048 0, Cand 2 80 0 2049 976]"
    by (simp add: spec_P_candidates_def spec_frac_candidates_def Let_def del: One_nat_def)
  moreover have "spec_P_candidates 24000000 650000000 1 0 =
      [Cand 1 53 0 1365 489, Cand 1 53 0 1366 976]"
    by (simp add: spec_P_candidates_def spec_frac_candidates_def Let_def del: One_nat_def)
  ultimately show ?thesis by (simp add: spec_candidates_24MHz)
qed

lemma ex_candidates_651:
  "spec_candidates 24000000 651234000 =
     [Cand 2 80 0 3311 602, Cand 2 80 0 3312 375, Cand 1 53 0 2207 1090, Cand 1 53 0 2208 375]"
proof -
  have "spec_P_candidates 24000000 651234000 2 0 =
      [Cand 2 80 0 3311 602, Cand 2 80 0 3312 375]"
    by (simp add: spec_P_candidates_def spec_frac_candidates_def Let_def del: One_nat_def)
  moreover have "spec_P_candidates 24000000 651234000 1 0 =
      [Cand 1 53 0 2207 1090, Cand 1 53 0 2208 375]"
    by (simp add: spec_P_candidates_def spec_frac_candidates_def Let_def del: One_nat_def)
  ultimately show ?thesis by (simp add: spec_candidates_24MHz)
qed

lemma ex_candidates_none: "spec_candidates 24000000 1000 = []"
  by (rule spec_candidates_low_target) simp

lemma ex_compute_args:
  "unat (24000000::u32) = 24000000 \<and>
   unat (freq ex_blank_settings ! 0 * 1000) = 650000000 \<and>
   unat (freq (ex_blank_settings\<lparr>freq := [651234, 800000]\<rparr>) ! 0 * 1000) = 651234000 \<and>
   unat (freq (ex_settings\<lparr>freq := [1, 800000]\<rparr>) ! 0 * 1000) = 1000 \<and>
   0 < length (cfg ex_blank_settings) \<and>
   0 < length (cfg (ex_blank_settings\<lparr>freq := [651234, 800000]\<rparr>)) \<and>
   0 < length (cfg (ex_settings\<lparr>freq := [1, 800000]\<rparr>)) \<and>
   hdrw ex_plat PQR_1_0_0 = 1"
  by (simp add: ex_blank_settings_def ex_settings_def hdrw_def ex_plat_def ex_hdr_defs)

text \<open>
  The theorem on the example, with the 24 MHz reference: 650 MHz is met without error by
  the first candidate, where the search returns at once; 651.234 MHz has two candidates of
  least error 375 Hz, and the earlier one is kept; 1 kHz has no candidate, and the entry is
  marked invalid.
\<close>

theorem compute_pll1_settings_witness:
  "clk_compute_pll1_settings ex_plat 24000000 0 ex_blank_settings =
     (0, ex_blank_settings\<lparr>cfg := [[2, 80, 0, 0, 0, 1], [0, 0, 0, 0, 0, 0]],
                            frac := [2048, 0]\<rparr>) \<and>
   (\<exists>st. compute_search ex_plat 24000000 0 ex_blank_settings = Early_return st) \<and>
   clk_compute_pll1_settings ex_plat 24000000 0
       (ex_blank_settings\<lparr>freq := [651234, 800000]\<rparr>) =
     (0, ex_blank_settings\<lparr>freq := [651234, 800000],
                            cfg := [[2, 80, 0, 0, 0, 1], [0, 0, 0, 0, 0, 0]],
                            frac := [3312, 0]\<rparr>) \<and>
   \<not> (\<exists>st. compute_search ex_plat 24000000 0
               (ex_blank_settings\<lparr>freq := [651234, 800000]\<rparr>) = Early_return st) \<and>
   clk_compute_pll1_settings ex_plat 24000000 0 (ex_settings\<lparr>freq := [1, 800000]\<rparr>) =
     (- 1, ex_settings\<lparr>freq := [1, 800000],
                        cfg := [[2, 80, 0, 0, 0, 0], [2, 99, 0, 0, 0, 1]]\<rparr>)"
proof -
  note a = ex_compute_args
  have s650: "spec_search None (spec_candidates 24000000 650000000) = Some (Cand 2 80 0 2048 0)"
    by (simp add: ex_candidates_650)
  have s651: "spec_search None (spec_candidates 24000000 651234000) = Some (Cand 2 80 0 3312 375)"
    by (simp add: ex_candidates_651)
  have snone: "spec_search None (spec_candidates 24000000 1000) = None"
    by (simp add: ex_candidates_none)
  have z650: "\<exists>c \<in> set (spec_candidates 24000000 650000000). c_diff c = 0"
    by (simp add: ex_candidates_650)
  have z651: "\<not> (\<exists>c \<in> set (spec_candidates 24000000 651234000). c_diff c = 0)"
    by (simp add: ex_candidates_651)
  have t1: "clk_compute_pll1_settings ex_plat 24000000 0 ex_blank_settings =
      (0, recorded 0 (Cand 2 80 0 2048 0)
            (ex_blank_settings\<lparr>cfg := (cfg ex_blank_settings)[0 :=
               (cfg ex_blank_settings ! 0)[PLLCFG_Q := 0, PLLCFG_R := 0, PLLCFG_O := 1]]\<rparr>)) \<and>
      (\<exists>st. compute_search ex_plat 24000000 0 ex_blank_settings = Early_return st)"
    using compute_pll1_settings_search[where idx = 0 and ps = ex_blank_settings
        and p = ex_plat and input_freq = 24000000] a z650
    by (simp add: Let_def s650)
  have t2: "clk_compute_pll1_settings ex_plat 24000000 0
        (ex_blank_settings\<lparr>freq := [651234, 800000]\<rparr>) =
      (0, recorded 0 (Cand 2 80 0 3312 375)
            (ex_blank_settings\<lparr>freq := [651234, 800000],
               cfg := (cfg ex_blank_settings)[0 :=
               (cfg ex_blank_settings ! 0)[PLLCFG_Q := 0, PLLCFG_R := 0, PLLCFG_O := 1]]\<rparr>)) \<and>
      \<not> (\<exists>st. compute_search ex_plat 24000000 0
               (ex_blank_settings\<lparr>freq := [651234, 800000]\<rparr>) = Early_return st)"
    using compute_pll1_settings_search[where idx = 0
        and ps = "ex_blank_settings\<lparr>freq := [651234, 800000]\<rparr>"
        and p = ex_plat and input_freq = 24000000] a z651
    by (simp add: Let_def s651)
  have t3: "clk_compute_pll1_settings ex_plat 24000000 0 (ex_settings\<lparr>freq := [1, 800000]\<rparr>) =
      (- 1, ex_settings\<lparr>freq := [1, 800000],
              cfg := (cfg ex_settings)[0 :=
               (cfg ex_settings ! 0)[PLLCFG_Q := 0, PLLCFG_R := 0, PLLCFG_O := 0]]\<rparr>)"
    using compute_pll1_settings_search[where idx = 0
        and ps = "ex_settings\<lparr>freq := [1, 800000]\<rparr>"
        and p = ex_plat and input_freq = 24000000] a
    by (simp add: Let_def snone)
  have r1: "recorded 0 (Cand 2 80 0 2048 0)
            (ex_blank_settings\<lparr>cfg := (cfg ex_blank_settings)[0 :=
               (cfg ex_blank_settings ! 0)[PLLCFG_Q := 0, PLLCFG_R := 0, PLLCFG_O := 1]]\<rparr>) =
      ex_blank_settings\<lparr>cfg := [[2, 80, 0, 0, 0, 1], [0, 0, 0, 0, 0, 0]], frac := [2048, 0]\<rparr>"
    by (simp add: recorded_def store_cfg_def ex_blank_settings_def ex_settings_def
        PLLCFG_M_def PLLCFG_N_def PLLCFG_P_def PLLCFG_Q_def PLLCFG_R_def PLLCFG_O_def)
  have r2: "recorded 0 (Cand 2 80 0 3312 375)
            (ex_blank_settings\<lparr>freq := [651234, 800000],
               cfg := (cfg ex_blank_settings)[0 :=
               (cfg ex_blank_settings ! 0)[PLLCFG_Q := 0, PLLCFG_R := 0, PLLCFG_O := 1]]\<rparr>) =
      ex_blank_settings\<lparr>freq := [651234, 800000],
         cfg := [[2, 80, 0, 0, 0, 1], [0, 0, 0, 0, 0, 0]], frac := [3312, 0]\<rparr>"
    by (simp add: recorded_def store_cfg_def ex_blank_settings_def ex_settings_def
        PLLCFG_M_def PLLCFG_N_def PLLCFG_P_def PLLCFG_Q_def PLLCFG_R_def PLLCFG_O_def)
  have r3: "ex_settings\<lparr>freq := [1, 800000],
              cfg := (cfg ex_settings)[0 :=
               (cfg ex_settings ! 0)[PLLCFG_Q := 0, PLLCFG_R := 0, PLLCFG_O := 0]]\<rparr> =
      ex_settings\<lparr>freq := [1, 800000], cfg := [[2, 80, 0, 0, 0, 0], [2, 99, 0, 0, 0, 1]]\<rparr>"
    by (simp add: ex_settings_def PLLCFG_Q_def PLLCFG_R_def PLLCFG_O_def)
  from t1 t2 t3 show ?thesis unfolding r1 r2 r3 by blast
qed

section \<open>Resume: gates synced on their reference counters\<close>

lemma and_BIT_iff: "((x::u32) AND BIT n \<noteq> 0) = bit x n"
  by (simp add: BIT_def and_exp_eq_0_iff_not_bit)

lemma bit_BIT_iff: "bit (BIT n) b = (b = n \<and> n < 32)"
  by (auto simp: BIT_def bit_exp_iff possible_bit_word)

lemma io_read32_cell: "io_read32 p s a = rcc s (reg_cell p a)"
  by (simp add: io_read32_def reg_cell_def split: reg_kind.split)

lemma is_enabled_hw_bit:
  "uu_clk_is_enabled p g s = bit (rcc s (fst (gate_hw_bit p g))) (snd (gate_hw_bit p g))"
  by (simp add: uu_clk_is_enabled_def and_BIT_iff io_read32_cell gate_hw_bit_def)

lemma io_write32_other_cell:
  "c \<noteq> reg_cell p a \<Longrightarrow> rcc (io_write32 p a v s) c = rcc s c"
  by (auto simp: io_write32_def reg_cell_def split: reg_kind.splits)

lemma clk_enable_bits:
  assumes "gate_hw_ok p g"
  shows "bit (rcc (uu_clk_enable p g s) c) b =
           (if (c, b) = gate_hw_bit p g then True else bit (rcc s c) b)"
  using assms
  by (auto simp: gate_hw_ok_def uu_clk_enable_def io_setbits32_def io_write32_def
      io_read32_def gate_hw_bit_def reg_cell_def bit_or_iff bit_BIT_iff
      possible_bit_word dest: bit_imp_le_length split: reg_kind.splits if_splits)

lemma clk_disable_bits:
  assumes "gate_hw_ok p g"
  shows "bit (rcc (uu_clk_disable p g s) c) b =
           (if (c, b) = gate_hw_bit p g then False else bit (rcc s c) b)"
  using assms
  by (auto simp: gate_hw_ok_def uu_clk_disable_def io_clrbits32_def io_write32_def
      io_read32_def gate_hw_bit_def reg_cell_def bit_and_iff bit_not_iff bit_BIT_iff
      possible_bit_word dest: bit_imp_le_length split: reg_kind.splits if_splits)

lemma sync_gate_refcounts [simp]:
  "gate_refcounts (resume_sync_gate p s idx) = gate_refcounts s"
  by (simp add: resume_sync_gate_def Let_def)

lemma sync_loop_refcounts [simp]:
  "gate_refcounts (foldl (resume_sync_gate p) s idxs) = gate_refcounts s"
  by (induction idxs arbitrary: s) simp_all

lemma sync_gate_bits:
  assumes "\<not> gate_is_non_secure p (gate_ref p k) \<longrightarrow> gate_hw_ok p (gate_ref p k)"
  shows "bit (rcc (resume_sync_gate p s k) c) b =
           (if \<not> gate_is_non_secure p (gate_ref p k) \<and> (c, b) = gate_hw_bit p (gate_ref p k)
            then gate_refcounts s ! k \<noteq> 0 else bit (rcc s c) b)"
  using assms
  by (simp add: resume_sync_gate_def Let_def clk_enable_bits clk_disable_bits)

lemma sync_loop_other:
  assumes "\<forall>k \<in> set idxs. \<not> gate_is_non_secure p (gate_ref p k) \<longrightarrow>
             gate_hw_ok p (gate_ref p k) \<and> gate_hw_bit p (gate_ref p k) \<noteq> (c, b)"
  shows "bit (rcc (foldl (resume_sync_gate p) s idxs) c) b = bit (rcc s c) b"
  using assms
proof (induction idxs arbitrary: s)
  case Nil
  then show ?case by simp
next
  case (Cons k idxs)
  have "bit (rcc (resume_sync_gate p s k) c) b = bit (rcc s c) b"
    using Cons.prems by (subst sync_gate_bits) auto
  moreover have "bit (rcc (foldl (resume_sync_gate p) (resume_sync_gate p s k) idxs) c) b =
      bit (rcc (resume_sync_gate p s k) c) b"
    using Cons.prems by (intro Cons.IH) simp
  ultimately show ?case by simp
qed

lemma sync_loop_self:
  assumes ok: "\<forall>k \<in> set idxs. \<not> gate_is_non_secure p (gate_ref p k) \<longrightarrow>
             gate_hw_ok p (gate_ref p k) \<and>
             (k \<noteq> i \<longrightarrow> gate_hw_bit p (gate_ref p k) \<noteq> gate_hw_bit p (gate_ref p i))"
    and i: "i \<in> set idxs" "\<not> gate_is_non_secure p (gate_ref p i)"
  shows "bit (rcc (foldl (resume_sync_gate p) s idxs) (fst (gate_hw_bit p (gate_ref p i))))
           (snd (gate_hw_bit p (gate_ref p i))) = (gate_refcounts s ! i \<noteq> 0)"
  using ok i(1)
proof (induction idxs arbitrary: s rule: rev_induct)
  case Nil
  then show ?case by simp
next
  case (snoc k idxs)
  let ?t = "foldl (resume_sync_gate p) s idxs"
  have okk: "\<not> gate_is_non_secure p (gate_ref p k) \<longrightarrow> gate_hw_ok p (gate_ref p k)"
    using snoc.prems(1) by simp
  show ?case
  proof (cases "k = i")
    case True
    then show ?thesis using i(2) okk
      by (simp add: sync_gate_bits)
  next
    case False
    with snoc.prems(2) have mem: "i \<in> set idxs" by simp
    have ih: "bit (rcc ?t (fst (gate_hw_bit p (gate_ref p i))))
           (snd (gate_hw_bit p (gate_ref p i))) = (gate_refcounts s ! i \<noteq> 0)"
      using snoc.prems(1) mem by (intro snoc.IH) simp_all
    have ne: "\<not> gate_is_non_secure p (gate_ref p k) \<longrightarrow>
        gate_hw_bit p (gate_ref p k) \<noteq> gate_hw_bit p (gate_ref p i)"
      using snoc.prems(1) False by simp
    show ?thesis using okk ne ih
      by (auto simp: sync_gate_bits)
  qed
qed

lemma refcounts_io_clrsetbits32 [simp]:
  "gate_refcounts (io_clrsetbits32 p a c b s) = gate_refcounts s"
  by (simp add: io_clrsetbits32_def)

lemma refcounts_io_setbits32 [simp]:
  "gate_refcounts (io_setbits32 p a b s) = gate_refcounts s"
  by (simp add: io_setbits32_def)

lemma refcounts_pll_start [simp]: "gate_refcounts (pll_start p pid s) = gate_refcounts s"
  by (simp add: pll_start_def Let_def)

lemma refcounts_pll_output [simp]:
  "gate_refcounts (snd (pll_output p pid out s)) = gate_refcounts s"
  by (simp add: pll_output_def wait_flag_def Let_def split: list.split)

lemma refcounts_foldl:
  assumes "\<And>t k. gate_refcounts (f t k) = gate_refcounts t"
  shows "gate_refcounts (foldl f s idxs) = gate_refcounts s"
  by (induction idxs arbitrary: s) (simp_all add: assms)

lemma refcounts_restore_pll34:
  "restore_pll34_state p s = Inr s1 \<Longrightarrow> gate_refcounts s1 = gate_refcounts s"
  unfolding restore_pll34_state_def Let_def
  by (auto split: if_splits sum.splits prod.splits
      dest!: arg_cong[where f = "\<lambda>x. gate_refcounts (snd x)"])

lemma refcounts_restore_mux [simp]:
  "gate_refcounts (restore_mux_cfg p s) = gate_refcounts s"
  by (simp add: restore_mux_cfg_def refcounts_foldl restore_mux0_step_def restore_mux4_step_def)

lemma refcounts_restore_sc [simp]:
  "gate_refcounts (restore_sc_cfg p s) = gate_refcounts s"
  by (simp add: restore_sc_cfg_def refcounts_foldl restore_sc_step_def)

lemma refcounts_restore_regular [simp]:
  "gate_refcounts (restore_regular_cfg p s) = gate_refcounts s"
  by (simp add: restore_regular_cfg_def refcounts_foldl restore_regular_step_def)

lemma refcounts_resume_restore:
  "resume_restore p s = Inr s1 \<Longrightarrow> gate_refcounts s1 = gate_refcounts s"
  by (auto simp: resume_restore_def refcounts_restore_pll34 split: sum.splits)

lemma disable_kernel_clocks_other:
  "c \<noteq> reg_cell p (hdr p RCC_OCENCLRR) \<Longrightarrow> rcc (disable_kernel_clocks p s) c = rcc s c"
  by (simp add: disable_kernel_clocks_def io_write32_other_cell)

lemma restore_pll34_off:
  "ctx_pll3cr s AND hdrw p RCC_PLLNCR_PLLON = 0 \<Longrightarrow>
   ctx_pll4cr s AND hdrw p RCC_PLLNCR_PLLON = 0 \<Longrightarrow> restore_pll34_state p s = Inr s"
  by (simp add: restore_pll34_state_def)

lemma resume_pll34_off:
  "ctx_pll3cr s AND hdrw p RCC_PLLNCR_PLLON = 0 \<Longrightarrow>
   ctx_pll4cr s AND hdrw p RCC_PLLNCR_PLLON = 0 \<Longrightarrow>
   resume_restore p s = Inr (restore_regular_cfg p (restore_sc_cfg p (restore_mux_cfg p s)))"
  by (simp add: resume_restore_def restore_pll34_off)

lemma io_clrsetbits32_other_cell:
  "c \<noteq> reg_cell p a \<Longrightarrow> rcc (io_clrsetbits32 p a m v s) c = rcc s c"
  by (simp add: io_clrsetbits32_def io_write32_other_cell)

lemma foldl_other_cell:
  assumes "\<And>t k. k \<in> set idxs \<Longrightarrow> rcc (f t k) c = rcc t c"
  shows "rcc (foldl f s idxs) c = rcc s c"
  using assms by (induction idxs arbitrary: s) simp_all

lemma restore_mux_other_cell:
  assumes "\<forall>x \<in> set (backup_mux0_cfg p). reg_cell p (fst x) \<noteq> c"
    and "\<forall>x \<in> set (backup_mux4_cfg p). reg_cell p (fst x) \<noteq> c"
  shows "rcc (restore_mux_cfg p s) c = rcc s c"
proof -
  have a: "rcc (foldl (restore_mux0_step p) t [0 ..< length (backup_mux0_cfg p)]) c = rcc t c"
    for t
  proof (rule foldl_other_cell)
    fix u k
    assume "k \<in> set [0 ..< length (backup_mux0_cfg p)]"
    then have "backup_mux0_cfg p ! k \<in> set (backup_mux0_cfg p)" by simp
    with assms(1) have "c \<noteq> reg_cell p (fst (backup_mux0_cfg p ! k))" by auto
    then show "rcc (restore_mux0_step p u k) c = rcc u c"
      by (simp add: restore_mux0_step_def io_clrsetbits32_other_cell)
  qed
  have b: "rcc (foldl (restore_mux4_step p) t [0 ..< length (backup_mux4_cfg p)]) c = rcc t c"
    for t
  proof (rule foldl_other_cell)
    fix u k
    assume "k \<in> set [0 ..< length (backup_mux4_cfg p)]"
    then have "backup_mux4_cfg p ! k \<in> set (backup_mux4_cfg p)" by simp
    with assms(2) have "c \<noteq> reg_cell p (fst (backup_mux4_cfg p ! k))" by auto
    then show "rcc (restore_mux4_step p u k) c = rcc u c"
      by (simp add: restore_mux4_step_def io_clrsetbits32_other_cell)
  qed
  show ?thesis by (simp add: restore_mux_cfg_def a b)
qed

lemma restore_sc_other_cell:
  assumes "\<forall>a \<in> set (backup_clock_sc_cfg p).
             reg_cell p a \<noteq> c \<and> reg_cell p (a + hdr p RCC_MP_ENCLRR_OFFSET) \<noteq> c"
  shows "rcc (restore_sc_cfg p s) c = rcc s c"
  unfolding restore_sc_cfg_def
proof (rule foldl_other_cell)
  fix t k
  assume "k \<in> set [0 ..< length (backup_clock_sc_cfg p)]"
  then have "backup_clock_sc_cfg p ! k \<in> set (backup_clock_sc_cfg p)" by simp
  with assms have "c \<noteq> reg_cell p (backup_clock_sc_cfg p ! k)"
    "c \<noteq> reg_cell p (backup_clock_sc_cfg p ! k + hdr p RCC_MP_ENCLRR_OFFSET)" by auto
  then show "rcc (restore_sc_step p t k) c = rcc t c"
    by (simp add: restore_sc_step_def io_write32_other_cell)
qed

lemma restore_regular_other_cell:
  assumes "\<forall>a \<in> set (backup_clock_cfg p). reg_cell p a \<noteq> c"
  shows "rcc (restore_regular_cfg p s) c = rcc s c"
  unfolding restore_regular_cfg_def
proof (rule foldl_other_cell)
  fix t k
  assume "k \<in> set [0 ..< length (backup_clock_cfg p)]"
  then have "backup_clock_cfg p ! k \<in> set (backup_clock_cfg p)" by simp
  with assms have "c \<noteq> reg_cell p (backup_clock_cfg p ! k)" by auto
  then show "rcc (restore_regular_step p t k) c = rcc t c"
    by (simp add: restore_regular_step_def io_write32_other_cell)
qed

lemma sync_loop_rcc_non_secure:
  "\<not> stm32_rcc_is_secure p \<Longrightarrow> foldl (resume_sync_gate p) s idxs = s"
  by (induction idxs arbitrary: s) (simp_all add: resume_sync_gate_def gate_is_non_secure_def)


lemma sc_value_io_write32 [simp]:
  "backup_clock_sc_value (io_write32 p a v s) = backup_clock_sc_value s"
  by (simp add: io_write32_def)

lemma sc_value_io_clrsetbits32 [simp]:
  "backup_clock_sc_value (io_clrsetbits32 p a c b s) = backup_clock_sc_value s"
  by (simp add: io_clrsetbits32_def)

lemma sc_value_io_setbits32 [simp]:
  "backup_clock_sc_value (io_setbits32 p a b s) = backup_clock_sc_value s"
  by (simp add: io_setbits32_def)

lemma sc_value_pll_start [simp]:
  "backup_clock_sc_value (pll_start p pid s) = backup_clock_sc_value s"
  by (simp add: pll_start_def Let_def)

lemma sc_value_pll_output [simp]:
  "backup_clock_sc_value (snd (pll_output p pid out s)) = backup_clock_sc_value s"
  by (simp add: pll_output_def wait_flag_def Let_def split: list.split)

lemma sc_value_foldl:
  assumes "\<And>t k. backup_clock_sc_value (f t k) = backup_clock_sc_value t"
  shows "backup_clock_sc_value (foldl f s idxs) = backup_clock_sc_value s"
  by (induction idxs arbitrary: s) (simp_all add: assms)

lemma sc_value_restore_pll34:
  "restore_pll34_state p s = Inr s1 \<Longrightarrow> backup_clock_sc_value s1 = backup_clock_sc_value s"
  unfolding restore_pll34_state_def Let_def
  by (auto split: if_splits sum.splits prod.splits
      dest!: arg_cong[where f = "\<lambda>x. backup_clock_sc_value (snd x)"])

lemma sc_value_restore_mux [simp]:
  "backup_clock_sc_value (restore_mux_cfg p s) = backup_clock_sc_value s"
  by (simp add: restore_mux_cfg_def sc_value_foldl restore_mux0_step_def restore_mux4_step_def)

lemma sc_value_restore_sc_step [simp]:
  "backup_clock_sc_value (restore_sc_step p s k) = backup_clock_sc_value s"
  by (simp add: restore_sc_step_def)

lemma io_setbits32_other_cell:
  "c \<noteq> reg_cell p a \<Longrightarrow> rcc (io_setbits32 p a v s) c = rcc s c"
  by (simp add: io_setbits32_def io_write32_other_cell)

lemma pll_start_other_cell:
  "c \<noteq> reg_cell p (pllxcr (pll_ref p pid)) \<Longrightarrow> rcc (pll_start p pid s) c = rcc s c"
  by (simp add: pll_start_def Let_def io_clrsetbits32_other_cell)

lemma wait_flag_rcc: "wait_flag p a f s = (r, s1) \<Longrightarrow> rcc s1 = rcc s"
  by (auto simp: wait_flag_def split: list.splits)

lemma pll_output_other_cell:
  "c \<noteq> reg_cell p (pllxcr (pll_ref p pid)) \<Longrightarrow>
   rcc (snd (pll_output p pid out s)) c = rcc s c"
  by (auto simp: pll_output_def Let_def io_setbits32_other_cell split: prod.splits
      dest: wait_flag_rcc)

lemma restore_pll34_other_cell:
  assumes "restore_pll34_state p s = Inr s1"
    and "c \<noteq> reg_cell p (pllxcr (pll_ref p U_PLL3))"
    and "c \<noteq> reg_cell p (pllxcr (pll_ref p U_PLL4))"
  shows "rcc s1 c = rcc s c"
  using assms(1) pll_start_other_cell[OF assms(2)] pll_start_other_cell[OF assms(3)]
    pll_output_other_cell[OF assms(2)] pll_output_other_cell[OF assms(3)]
  unfolding restore_pll34_state_def Let_def
  by (auto split: if_splits sum.splits prod.splits
      dest!: arg_cong[where f = "\<lambda>x. rcc (snd x) c"])

lemma restore_sc_step_cell:
  assumes "reg_kind p (backup_clock_sc_cfg p ! k) = SetOf c"
    and "reg_kind p (backup_clock_sc_cfg p ! k + hdr p RCC_MP_ENCLRR_OFFSET) = ClrOf c"
  shows "rcc (restore_sc_step p s k) c = backup_clock_sc_value s ! k"
proof -
  have "((x::u32) OR v) AND NOT (NOT v) = v" for x v
    by (simp add: bit_eq_iff bit_and_iff bit_or_iff bit_not_iff)
  then show ?thesis using assms by (simp add: restore_sc_step_def io_write32_def)
qed

lemma restore_sc_cell:
  assumes k: "k < length (backup_clock_sc_cfg p)"
    and set: "reg_kind p (backup_clock_sc_cfg p ! k) = SetOf c"
    and clr: "reg_kind p (backup_clock_sc_cfg p ! k + hdr p RCC_MP_ENCLRR_OFFSET) = ClrOf c"
    and later: "\<forall>j < length (backup_clock_sc_cfg p). k < j \<longrightarrow>
        reg_cell p (backup_clock_sc_cfg p ! j) \<noteq> c \<and>
        reg_cell p (backup_clock_sc_cfg p ! j + hdr p RCC_MP_ENCLRR_OFFSET) \<noteq> c"
  shows "rcc (restore_sc_cfg p s) c = backup_clock_sc_value s ! k"
proof -
  let ?n = "length (backup_clock_sc_cfg p)"
  let ?u = "foldl (restore_sc_step p) s [0 ..< k]"
  have split: "[0 ..< ?n] = [0 ..< k] @ k # [Suc k ..< ?n]"
    using k by (metis less_imp_le_nat upt_add_eq_append upt_conv_Cons le0
        le_add_diff_inverse)
  have val: "backup_clock_sc_value ?u = backup_clock_sc_value s"
    by (rule sc_value_foldl) simp
  have "rcc (foldl (restore_sc_step p) (restore_sc_step p ?u k) [Suc k ..< ?n]) c =
      rcc (restore_sc_step p ?u k) c"
  proof (rule foldl_other_cell)
    fix t j
    assume "j \<in> set [Suc k ..< ?n]"
    then have "j < ?n" "k < j" by simp_all
    with later have "c \<noteq> reg_cell p (backup_clock_sc_cfg p ! j)"
      "c \<noteq> reg_cell p (backup_clock_sc_cfg p ! j + hdr p RCC_MP_ENCLRR_OFFSET)" by auto
    then show "rcc (restore_sc_step p t j) c = rcc t c"
      by (simp add: restore_sc_step_def io_write32_other_cell)
  qed
  also have "\<dots> = backup_clock_sc_value ?u ! k" using set clr by (rule restore_sc_step_cell)
  finally show ?thesis by (simp add: restore_sc_cfg_def split val)
qed

lemma resume_keeps_own_bit:
  assumes ok: "secure_gates_ok p"
    and own: "gate_bit_own p g"
  shows "uu_clk_is_enabled p g
           (disable_kernel_clocks p
              (foldl (resume_sync_gate p) s1 [0 ..< length (stm32mp1_clk_gate p)])) =
         uu_clk_is_enabled p g s1"
proof -
  let ?idxs = "[0 ..< length (stm32mp1_clk_gate p)]"
  from own have cell: "fst (gate_hw_bit p g) \<noteq> reg_cell p (hdr p RCC_OCENCLRR)"
    by (simp add: gate_bit_own_def gate_hw_bit_def)
  have c: "\<forall>k \<in> set ?idxs. \<not> gate_is_non_secure p (gate_ref p k) \<longrightarrow>
           gate_hw_ok p (gate_ref p k) \<and>
           gate_hw_bit p (gate_ref p k) \<noteq> (fst (gate_hw_bit p g), snd (gate_hw_bit p g))"
    using ok own by (auto simp: secure_gates_ok_def gate_bit_own_def)
  have "bit (rcc (foldl (resume_sync_gate p) s1 ?idxs) (fst (gate_hw_bit p g)))
         (snd (gate_hw_bit p g)) = bit (rcc s1 (fst (gate_hw_bit p g))) (snd (gate_hw_bit p g))"
    using c by (rule sync_loop_other)
  then show ?thesis
    by (simp add: is_enabled_hw_bit disable_kernel_clocks_other[OF cell])
qed

text \<open>
  Claim C8, as amended.  When \<open>stm32_clock_resume\<close> returns, the reference counters are
  those of the call.  While the RCC interface is secure, the hardware enable bit of every
  gate of class \<open>SEC\<close> is on exactly when its reference counter is not zero, whatever
  the restore steps wrote from the saved registers.  A gate handled as non-secure (class
  \<open>N_S\<close>, or any gate while the RCC interface is non-secure) is left as restored: where
  its register is the saved set/clear enable register \<open>k\<close>, its enable bit is the bit of
  the value saved for that register, and where no restore step writes its register, its
  enable bit is the one before the call.  The gate table is supposed consistent: gates
  handled as secure agree with the shape of their registers and share no enable bit, and a
  gate handled as non-secure shares its bit with none of them nor with the kernel clock
  register.
\<close>

theorem resume_syncs_secure_gates:
  assumes "secure_gates_ok p"
    and "stm32_clock_resume p s = Inr s'"
    and "i < length (stm32mp1_clk_gate p)"
  shows "gate_refcounts s' = gate_refcounts s \<and>
         (stm32_rcc_is_secure p \<and> gate_secure (gate_ref p i) = SEC \<longrightarrow>
            uu_clk_is_enabled p (gate_ref p i) s' = (gate_refcounts s ! i \<noteq> 0)) \<and>
         (gate_is_non_secure p (gate_ref p i) \<and> gate_bit_own p (gate_ref p i) \<and>
          sc_entry_restores p k (gate_ref p i) \<longrightarrow>
            uu_clk_is_enabled p (gate_ref p i) s' =
              bit (backup_clock_sc_value s ! k) (gate_bit (gate_ref p i))) \<and>
         (gate_is_non_secure p (gate_ref p i) \<and> gate_bit_own p (gate_ref p i) \<and>
          not_restored p (gate_ref p i) \<longrightarrow>
            uu_clk_is_enabled p (gate_ref p i) s' = uu_clk_is_enabled p (gate_ref p i) s)"
proof -
  let ?idxs = "[0 ..< length (stm32mp1_clk_gate p)]"
  let ?g = "gate_ref p i"
  let ?c = "reg_cell p (gate_offset ?g)"
  from assms(2) obtain s1 where s1: "resume_restore p s = Inr s1"
    and s': "s' = disable_kernel_clocks p (foldl (resume_sync_gate p) s1 ?idxs)"
    by (auto simp: stm32_clock_resume_def split: sum.splits)
  from s1 obtain s0 where s0: "restore_pll34_state p s = Inr s0"
    and s1_eq: "s1 = restore_regular_cfg p (restore_sc_cfg p (restore_mux_cfg p s0))"
    by (auto simp: resume_restore_def split: sum.splits)
  have rc1: "gate_refcounts s1 = gate_refcounts s"
    using s1 by (rule refcounts_resume_restore)
  have rc: "gate_refcounts s' = gate_refcounts s"
    using rc1 by (simp add: s' disable_kernel_clocks_def)
  have sec: "uu_clk_is_enabled p ?g s' = (gate_refcounts s ! i \<noteq> 0)"
    if ns: "\<not> gate_is_non_secure p ?g"
  proof -
    from assms(1,3) ns have cell: "fst (gate_hw_bit p ?g) \<noteq> reg_cell p (hdr p RCC_OCENCLRR)"
      by (simp add: secure_gates_ok_def gate_hw_bit_def)
    have ok: "\<forall>k \<in> set ?idxs. \<not> gate_is_non_secure p (gate_ref p k) \<longrightarrow>
             gate_hw_ok p (gate_ref p k) \<and>
             (k \<noteq> i \<longrightarrow> gate_hw_bit p (gate_ref p k) \<noteq> gate_hw_bit p ?g)"
      using assms(1,3) ns by (auto simp: secure_gates_ok_def)
    have "bit (rcc (foldl (resume_sync_gate p) s1 ?idxs) (fst (gate_hw_bit p ?g)))
           (snd (gate_hw_bit p ?g)) = (gate_refcounts s1 ! i \<noteq> 0)"
      using ok _ ns by (rule sync_loop_self) (simp add: assms(3))
    then show ?thesis
      by (simp add: is_enabled_hw_bit s' disable_kernel_clocks_other[OF cell] rc1)
  qed
  have keep: "uu_clk_is_enabled p ?g s' = uu_clk_is_enabled p ?g s1" if "gate_bit_own p ?g"
    unfolding s' using assms(1) that by (rule resume_keeps_own_bit)
  have saved: "uu_clk_is_enabled p ?g s' = bit (backup_clock_sc_value s ! k) (gate_bit ?g)"
    if own: "gate_bit_own p ?g" and sc: "sc_entry_restores p k ?g"
  proof -
    let ?t = "restore_mux_cfg p s0"
    from sc have reg: "\<forall>a \<in> set (backup_clock_cfg p). reg_cell p a \<noteq> ?c"
      by (simp add: sc_entry_restores_def)
    have "rcc s1 ?c = rcc (restore_sc_cfg p ?t) ?c"
      unfolding s1_eq using reg by (rule restore_regular_other_cell)
    also have "\<dots> = backup_clock_sc_value ?t ! k"
      using sc by (intro restore_sc_cell) (simp_all add: sc_entry_restores_def)
    also have "backup_clock_sc_value ?t = backup_clock_sc_value s"
      using s0 by (simp add: sc_value_restore_pll34)
    finally have eq: "rcc s1 ?c = backup_clock_sc_value s ! k" .
    have "uu_clk_is_enabled p ?g s' = uu_clk_is_enabled p ?g s1" using own by (rule keep)
    also have "\<dots> = bit (rcc s1 ?c) (gate_bit ?g)"
      by (simp add: is_enabled_hw_bit gate_hw_bit_def)
    finally show ?thesis by (simp add: eq)
  qed
  have same: "uu_clk_is_enabled p ?g s' = uu_clk_is_enabled p ?g s"
    if own: "gate_bit_own p ?g" and nr: "not_restored p ?g"
  proof -
    from nr have "rcc s1 ?c = rcc (restore_sc_cfg p (restore_mux_cfg p s0)) ?c"
      unfolding s1_eq by (intro restore_regular_other_cell) (simp add: not_restored_def)
    also from nr have "\<dots> = rcc (restore_mux_cfg p s0) ?c"
      by (intro restore_sc_other_cell) (simp add: not_restored_def)
    also from nr have "\<dots> = rcc s0 ?c"
      by (intro restore_mux_other_cell) (simp_all add: not_restored_def)
    also from nr have "\<dots> = rcc s ?c"
      by (intro restore_pll34_other_cell[OF s0]) (simp_all add: not_restored_def)
    finally have eq: "rcc s1 ?c = rcc s ?c" .
    have "uu_clk_is_enabled p ?g s' = uu_clk_is_enabled p ?g s1" using own by (rule keep)
    also have "\<dots> = bit (rcc s1 ?c) (gate_bit ?g)"
      by (simp add: is_enabled_hw_bit gate_hw_bit_def)
    also have "\<dots> = uu_clk_is_enabled p ?g s"
      by (simp add: eq is_enabled_hw_bit gate_hw_bit_def)
    finally show ?thesis .
  qed
  have "\<not> gate_is_non_secure p ?g" if "stm32_rcc_is_secure p" "gate_secure ?g = SEC"
    using that by (simp add: gate_is_non_secure_def SEC_def N_S_def)
  with rc sec saved same show ?thesis by blast
qed

lemma ex_pm_pll_off:
  "ctx_pll3cr ex_pm_state AND hdrw q RCC_PLLNCR_PLLON = 0 \<and>
   ctx_pll4cr ex_pm_state AND hdrw q RCC_PLLNCR_PLLON = 0"
  by (simp add: ex_pm_state_def ex_state_def)

lemma ex_secure_gates_ok: "secure_gates_ok ex_plat"
  by (simp add: secure_gates_ok_def gate_is_non_secure_def gate_ref_def gate_hw_ok_def
      gate_hw_bit_def reg_cell_def ex_plat_def ex_gates_def ex_reg_kind_def ex_set_regs_def
      ex_hdr_defs N_S_def All_less_Suc less_Suc_eq)

lemma ex_pm_gates:
  "stm32_rcc_is_secure ex_plat \<and> length (stm32mp1_clk_gate ex_plat) = 4 \<and>
   gate_secure (gate_ref ex_plat 0) = SEC \<and> gate_secure (gate_ref ex_plat 1) = SEC \<and>
   gate_bit (gate_ref ex_plat 2) = 6 \<and> gate_bit (gate_ref ex_plat 3) = 2 \<and>
   gate_refcounts ex_pm_state = [1, 0, 0, 0] \<and>
   backup_clock_sc_value ex_pm_state ! 0 = 0x40 \<and> backup_clock_sc_value ex_pm_state ! 1 = 0"
  by (simp add: ex_plat_def ex_gates_def gate_ref_def SEC_def ex_pm_state_def ex_state_def)

lemma ex_gate2_restored:
  "gate_is_non_secure ex_plat (gate_ref ex_plat 2) \<and> gate_bit_own ex_plat (gate_ref ex_plat 2) \<and>
   sc_entry_restores ex_plat 0 (gate_ref ex_plat 2)"
  by (simp add: gate_bit_own_def gate_is_non_secure_def gate_ref_def sc_entry_restores_def
      backup_clock_sc_cfg_def backup_clock_cfg_def
      gate_hw_bit_def reg_cell_def ex_plat_def ex_gates_def ex_reg_kind_def ex_set_regs_def
      ex_hdr_defs N_S_def All_less_Suc less_Suc_eq)

lemma ex_gate3_restored:
  "gate_is_non_secure ex_plat (gate_ref ex_plat 3) \<and> gate_bit_own ex_plat (gate_ref ex_plat 3) \<and>
   sc_entry_restores ex_plat 1 (gate_ref ex_plat 3)"
  by (simp add: gate_bit_own_def gate_is_non_secure_def gate_ref_def sc_entry_restores_def
      backup_clock_sc_cfg_def backup_clock_cfg_def
      gate_hw_bit_def reg_cell_def ex_plat_def ex_gates_def ex_reg_kind_def ex_set_regs_def
      ex_hdr_defs N_S_def All_less_Suc less_Suc_eq)

lemmas ex_ns_defs = ex_ns_plat_def ex_plat_def ex_reg_kind_def ex_set_regs_def ex_hdr_defs

lemma ex_ns_cells:
  "(\<forall>x \<in> set (backup_mux0_cfg ex_ns_plat). reg_cell ex_ns_plat (fst x) \<noteq> 0xD8) \<and>
   (\<forall>x \<in> set (backup_mux4_cfg ex_ns_plat). reg_cell ex_ns_plat (fst x) \<noteq> 0xD8) \<and>
   (\<forall>a \<in> set (backup_clock_sc_cfg ex_ns_plat). reg_cell ex_ns_plat a \<noteq> 0xD8 \<and>
      reg_cell ex_ns_plat (a + hdr ex_ns_plat RCC_MP_ENCLRR_OFFSET) \<noteq> 0xD8) \<and>
   (\<forall>a \<in> set (backup_clock_cfg ex_ns_plat). reg_cell ex_ns_plat a \<noteq> 0xD8) \<and>
   reg_cell ex_ns_plat (hdr ex_ns_plat RCC_OCENCLRR) \<noteq> 0xD8"
  by (simp add: backup_mux0_cfg_def backup_mux4_cfg_def backup_clock_sc_cfg_def
      backup_clock_cfg_def reg_cell_def ex_ns_defs)

lemma ex_ns_gate0:
  "gate_ref ex_ns_plat 0 =
     \<lparr>gate_offset = 0xD8, gate_bit = 0, gate_clock_id = 220, gate_set_clr = 0,
      gate_secure = 1, gate_sel = 0xff, gate_fixed = 23\<rparr>"
  by (simp add: gate_ref_def ex_ns_plat_def ex_plat_def ex_gates_def)

lemma ex_ns_all_non_secure: "gate_is_non_secure ex_ns_plat g"
  by (simp add: gate_is_non_secure_def ex_ns_plat_def)

lemma ex_ns_cell_D8: "reg_cell ex_ns_plat 0xD8 = 0xD8"
  by (simp add: reg_cell_def ex_ns_defs)

lemma ex_ns_pll_cells:
  "reg_cell ex_ns_plat (pllxcr (pll_ref ex_ns_plat U_PLL3)) \<noteq> 0xD8 \<and>
   reg_cell ex_ns_plat (pllxcr (pll_ref ex_ns_plat U_PLL4)) \<noteq> 0xD8"
  by (simp add: reg_cell_def ex_ns_defs)

lemma ex_ns_gates_ok:
  "secure_gates_ok ex_ns_plat \<and> length (stm32mp1_clk_gate ex_ns_plat) = 4 \<and>
   gate_is_non_secure ex_ns_plat (gate_ref ex_ns_plat 0) \<and>
   gate_bit_own ex_ns_plat (gate_ref ex_ns_plat 0)"
proof -
  have "length (stm32mp1_clk_gate ex_ns_plat) = 4"
    by (simp add: ex_ns_plat_def ex_plat_def ex_gates_def)
  moreover have "gate_bit_own ex_ns_plat (gate_ref ex_ns_plat 0)"
    using ex_ns_cells
    by (simp add: gate_bit_own_def ex_ns_all_non_secure ex_ns_gate0 ex_ns_cell_D8)
  ultimately show ?thesis
    by (simp add: secure_gates_ok_def ex_ns_all_non_secure)
qed

lemma ex_ns_gate0_not_restored: "not_restored ex_ns_plat (gate_ref ex_ns_plat 0)"
  using ex_ns_cells ex_ns_pll_cells
  by (simp add: not_restored_def ex_ns_gate0 ex_ns_cell_D8)

lemma ex_idle_pll_off:
  "ctx_pll3cr ex_pm_idle_state AND hdrw q RCC_PLLNCR_PLLON = 0 \<and>
   ctx_pll4cr ex_pm_idle_state AND hdrw q RCC_PLLNCR_PLLON = 0"
  by (simp add: ex_pm_idle_state_def ex_state_def)

text \<open>
  The theorem on the example: the resume sequence returns, the held gate is forced on, the
  gate held by nobody is forced off although its saved bit was on, the first non-secure
  timer gate is on as saved and the second off as saved; and with the RCC interface
  non-secure, the gate of the plain register, which no restore step writes, stays off.
\<close>

theorem resume_syncs_secure_gates_witness:
  "secure_gates_ok ex_plat \<and>
   (\<exists>s'. stm32_clock_resume ex_plat ex_pm_state = Inr s' \<and>
      gate_refcounts s' = [1, 0, 0, 0] \<and>
      uu_clk_is_enabled ex_plat (gate_ref ex_plat 0) s' \<and>
      \<not> uu_clk_is_enabled ex_plat (gate_ref ex_plat 1) s' \<and>
      uu_clk_is_enabled ex_plat (gate_ref ex_plat 2) s' \<and>
      \<not> uu_clk_is_enabled ex_plat (gate_ref ex_plat 3) s') \<and>
   (\<exists>s'. stm32_clock_resume ex_ns_plat ex_pm_idle_state = Inr s' \<and>
      uu_clk_is_enabled ex_ns_plat (gate_ref ex_ns_plat 0) s' =
        uu_clk_is_enabled ex_ns_plat (gate_ref ex_ns_plat 0) ex_pm_idle_state)"
proof -
  obtain s1 where s1: "resume_restore ex_plat ex_pm_state = Inr s1"
    using resume_pll34_off[of ex_pm_state ex_plat] ex_pm_pll_off by blast
  then obtain s' where s': "stm32_clock_resume ex_plat ex_pm_state = Inr s'"
    by (simp add: stm32_clock_resume_def)
  obtain t1 where t1: "resume_restore ex_ns_plat ex_pm_idle_state = Inr t1"
    using resume_pll34_off[of ex_pm_idle_state ex_ns_plat] ex_idle_pll_off by blast
  then obtain t' where t': "stm32_clock_resume ex_ns_plat ex_pm_idle_state = Inr t'"
    by (simp add: stm32_clock_resume_def)
  have idx: "(0::nat) < 4" "(1::nat) < 4" "(2::nat) < 4" "(3::nat) < 4" by simp_all
  have bits: "bit (0x40::u32) 6" "\<not> bit (0::u32) 2"
    by (simp_all add: bit_iff_odd drop_bit_eq_div)
  note g = ex_pm_gates
  have sec: "stm32_rcc_is_secure ex_plat" using g by simp
  note t0 = resume_syncs_secure_gates[OF ex_secure_gates_ok s', of 0 0]
  note t1 = resume_syncs_secure_gates[OF ex_secure_gates_ok s', of 1 0]
  note t2 = resume_syncs_secure_gates[OF ex_secure_gates_ok s', of 2 0]
  note t3 = resume_syncs_secure_gates[OF ex_secure_gates_ok s', of 3 1]
  have a0: "gate_refcounts s' = [1, 0, 0, 0]" using t0 g by simp
  have "uu_clk_is_enabled ex_plat (gate_ref ex_plat 0) s' = (gate_refcounts ex_pm_state ! 0 \<noteq> 0)"
    using t0 g by simp
  then have a1: "uu_clk_is_enabled ex_plat (gate_ref ex_plat 0) s'" using g by simp
  have "uu_clk_is_enabled ex_plat (gate_ref ex_plat 1) s' = (gate_refcounts ex_pm_state ! 1 \<noteq> 0)"
    using t1 g by simp
  then have a2: "\<not> uu_clk_is_enabled ex_plat (gate_ref ex_plat 1) s'" using g by simp
  have "uu_clk_is_enabled ex_plat (gate_ref ex_plat 2) s' =
      bit (backup_clock_sc_value ex_pm_state ! 0) (gate_bit (gate_ref ex_plat 2))"
    using t2 g ex_gate2_restored by simp
  then have a3: "uu_clk_is_enabled ex_plat (gate_ref ex_plat 2) s'"
    using g bits by simp
  have "uu_clk_is_enabled ex_plat (gate_ref ex_plat 3) s' =
      bit (backup_clock_sc_value ex_pm_state ! 1) (gate_bit (gate_ref ex_plat 3))"
    using t3 g ex_gate3_restored by simp
  then have a4: "\<not> uu_clk_is_enabled ex_plat (gate_ref ex_plat 3) s'"
    using g bits by simp
  note a = a0 a1 a2 a3 a4
  note tn = resume_syncs_secure_gates[OF _ t', of 0 0]
  have b: "uu_clk_is_enabled ex_ns_plat (gate_ref ex_ns_plat 0) t' =
        uu_clk_is_enabled ex_ns_plat (gate_ref ex_ns_plat 0) ex_pm_idle_state"
    using tn ex_ns_gates_ok ex_ns_gate0_not_restored by simp
  from a b s' t' ex_secure_gates_ok show ?thesis by blast
qed

text \<open>
  Claim C8 as worded fails while the RCC interface is non-secure.  From the state where
  every register and every counter is zero, enabling the clock of the first gate, of class
  \<open>SEC\<close>, sets its bit and leaves its counter at zero; the loop of the resume sequence
  then skips every gate, and the gate is on with a reference counter of zero.
\<close>

theorem resume_skips_gates_when_rcc_non_secure:
  "\<exists>s1 s'. clk_stm32_enable ex_ns_plat 220 ex_pm_idle_state = Inr (TEE_SUCCESS, s1) \<and>
      gate_refcounts s1 = [0, 0, 0, 0] \<and>
      stm32_clock_resume ex_ns_plat s1 = Inr s' \<and>
      stm32mp1_clk_get_gated_id ex_ns_plat 220 = 0 \<and>
      gate_secure (gate_ref ex_ns_plat 0) = SEC \<and> gate_refcounts s' ! 0 = 0 \<and>
      uu_clk_is_enabled ex_ns_plat (gate_ref ex_ns_plat 0) s'"
proof -
  let ?s1 = "uu_clk_enable ex_ns_plat (gate_ref ex_ns_plat 0) ex_pm_idle_state"
  let ?s2 = "restore_regular_cfg ex_ns_plat (restore_sc_cfg ex_ns_plat
               (restore_mux_cfg ex_ns_plat ?s1))"
  let ?s' = "disable_kernel_clocks ex_ns_plat ?s2"
  have ns: "\<not> stm32_rcc_is_secure ex_ns_plat" by (simp add: ex_ns_plat_def)
  have gid: "stm32mp1_clk_get_gated_id ex_ns_plat 220 = 0"
    by (simp add: stm32mp1_clk_get_gated_id_def ex_ns_plat_def ex_plat_def ex_gates_def)
  have on: "\<not> clock_is_always_on ex_ns_plat 220"
    by (simp add: clock_is_always_on_def CK_HSE_DIV2_def PLL3_R_def ex_ns_defs)
  have en: "clk_stm32_enable ex_ns_plat 220 ex_pm_idle_state = Inr (TEE_SUCCESS, ?s1)"
    using ns by (simp add: clk_stm32_enable_def on gid gate_is_non_secure_def)
  have rc1: "gate_refcounts ?s1 = [0, 0, 0, 0]"
    by (simp add: ex_pm_idle_state_def ex_state_def)
  have pll: "ctx_pll3cr ?s1 AND hdrw ex_ns_plat RCC_PLLNCR_PLLON = 0"
    "ctx_pll4cr ?s1 AND hdrw ex_ns_plat RCC_PLLNCR_PLLON = 0"
    by (simp_all add: uu_clk_enable_def io_setbits32_def io_write32_def ex_pm_idle_state_def
        ex_state_def)
  have r: "resume_restore ex_ns_plat ?s1 = Inr ?s2"
    using pll by (rule resume_pll34_off)
  have res: "stm32_clock_resume ex_ns_plat ?s1 = Inr ?s'"
    by (simp add: stm32_clock_resume_def r sync_loop_rcc_non_secure[OF ns])
  have cell: "reg_cell ex_ns_plat 0xD8 = 0xD8" "reg_kind ex_ns_plat 0xD8 = RW"
    by (simp_all add: ex_ns_cell_D8) (simp add: ex_ns_defs)
  have "rcc ?s' 0xD8 = rcc ?s1 0xD8"
    using ex_ns_cells
    by (simp add: disable_kernel_clocks_other restore_regular_other_cell
        restore_sc_other_cell restore_mux_other_cell)
  also have "\<dots> = 1"
    by (simp add: uu_clk_enable_def io_setbits32_def io_write32_def io_read32_def ex_ns_gate0
        cell BIT_def ex_pm_idle_state_def ex_state_def)
  finally have on': "uu_clk_is_enabled ex_ns_plat (gate_ref ex_ns_plat 0) ?s'"
    by (simp add: is_enabled_hw_bit gate_hw_bit_def ex_ns_gate0 cell)
  have rc: "gate_refcounts ?s' ! 0 = 0"
    by (simp add: disable_kernel_clocks_def ex_pm_idle_state_def ex_state_def)
  have sec: "gate_secure (gate_ref ex_ns_plat 0) = SEC" by (simp add: ex_ns_gate0 SEC_def)
  from en rc1 res gid sec rc on' show ?thesis by blast
qed

end
